(* ===== verification/Prelude.thy ===== *)
theory Prelude
  imports "HOL-Library.Word" "HOL-Library.Char_ord" "HOL-Library.List_Lexorder"
    "HOL-Library.Product_Lexorder" "HOL-Library.Sublist" "HOL-Library.Code_Target_Numeral"
begin

text \<open>
  Shared vocabulary of the development: the machine integers of the sources at their
  widths, the checked and saturating arithmetic of Rust's integer types, the \<open>Result\<close>
  type with its \<open>?\<close> operator, byte-list slices, and the decimal printing that
  \<open>format!\<close> uses. A 64-bit target is modelled throughout: \<open>usize\<close> is the length of
  a HOL list, and converting it to \<open>u64\<close> fails exactly when it does not fit.
\<close>

unbundle bit_operations_syntax

section \<open>Types\<close>

type_synonym u8 = "8 word"
type_synonym u16 = "16 word"
type_synonym u32 = "32 word"
type_synonym u64 = "64 word"
type_synonym u128 = "128 word"
type_synonym i64 = "64 word" \<comment> \<open>read through \<open>sint\<close>\<close>
type_synonym bytes = "8 word list"

named_theorems outcome_simps \<open>inversion of fallible computations\<close>
named_theorems word_bounds \<open>checked word arithmetic read through unat\<close>

section \<open>Checked and saturating arithmetic\<close>

definition checked_add :: "'a::len word \<Rightarrow> 'a word \<Rightarrow> 'a word option" where
  "checked_add a b = (if unat a + unat b < 2 ^ LENGTH('a) then Some (a + b) else None)"

definition checked_sub :: "'a::len word \<Rightarrow> 'a word \<Rightarrow> 'a word option" where
  "checked_sub a b = (if b \<le> a then Some (a - b) else None)"

definition saturating_add :: "'a::len word \<Rightarrow> 'a word \<Rightarrow> 'a word" where
  "saturating_add a b = (case checked_add a b of Some c \<Rightarrow> c | None \<Rightarrow> - 1)"

definition saturating_sub :: "'a::len word \<Rightarrow> 'a word \<Rightarrow> 'a word" where
  "saturating_sub a b = (if b \<le> a then a - b else 0)"

text \<open>\<open>u64::from(u32)\<close>, \<open>u32::try_from(u64)\<close>, \<open>u64::try_from(usize)\<close> and
  \<open>usize::try_from(u64)\<close>.\<close>

definition u64_of_u32 :: "u32 \<Rightarrow> u64" where
  "u64_of_u32 x = ucast x"

definition u32_try_from :: "u64 \<Rightarrow> u32 option" where
  "u32_try_from x = (if unat x < 2 ^ 32 then Some (ucast x) else None)"

definition u64_try_from :: "nat \<Rightarrow> u64 option" where
  "u64_try_from n = (if n < 2 ^ 64 then Some (of_nat n) else None)"

definition usize_try_from :: "u64 \<Rightarrow> nat option" where
  "usize_try_from x = Some (unat x)"

lemma unat_less_2p64 [simp]: "unat (x :: u64) < 18446744073709551616"
  using unsigned_less [of x] by simp

lemma unat_less_2p32 [simp]: "unat (x :: u32) < 4294967296"
  using unsigned_less [of x] by simp

lemma unat_u64_max [simp]: "unat (- 1 :: u64) = 18446744073709551615"
  by (simp add: unsigned_minus_1_eq_mask mask_eq_exp_minus_1)

lemma unat_of_nat_u64: "n < 2 ^ 64 \<Longrightarrow> unat (of_nat n :: u64) = n"
  by (simp add: unat_of_nat take_bit_nat_eq_self)

lemma all_less_add: "(\<forall>i < a + b. P i) \<longleftrightarrow> (\<forall>i < a. P i) \<and> (\<forall>i < b. P (a + i))" for a b :: nat
proof (intro iffI conjI allI impI)
  fix i assume *: "(\<forall>i < a. P i) \<and> (\<forall>i < b. P (a + i))" "i < a + b"
  show "P i"
  proof (cases "i < a")
    case False
    with * have "i - a < b" "a + (i - a) = i" by linarith+
    with *(1) show ?thesis by metis
  qed (use * in blast)
qed auto

lemma unat_add_small: "unat a + unat b < 2 ^ LENGTH('a) \<Longrightarrow> unat (a + b) = unat a + unat b"
  for a b :: "'a::len word"
  by (simp add: unat_word_ariths)

lemma checked_add_Some [outcome_simps]:
  "checked_add a b = Some c \<longleftrightarrow> unat a + unat b < 2 ^ LENGTH('a) \<and> c = a + b"
  for a b :: "'a::len word"
  by (auto simp: checked_add_def)

lemma checked_add_None [outcome_simps]:
  "checked_add a b = None \<longleftrightarrow> 2 ^ LENGTH('a) \<le> unat a + unat b"
  for a b :: "'a::len word"
  by (auto simp: checked_add_def not_less)

lemma unat_checked_add [word_bounds]:
  "checked_add a b = Some c \<Longrightarrow> unat c = unat a + unat b"
  by (auto simp: checked_add_def unat_add_small split: if_splits)

lemma checked_sub_Some [outcome_simps]:
  "checked_sub a b = Some c \<longleftrightarrow> b \<le> a \<and> c = a - b"
  by (auto simp: checked_sub_def)

lemma unat_checked_sub [word_bounds]:
  "checked_sub a b = Some c \<Longrightarrow> unat c = unat a - unat b"
  by (auto simp: checked_sub_Some unat_sub)

lemma unat_saturating_sub: "unat (saturating_sub a b) = unat a - unat b"
  by (auto simp: saturating_sub_def unat_sub word_le_nat_alt)

lemma u32_try_from_Some [outcome_simps]:
  "u32_try_from x = Some y \<longleftrightarrow> unat x < 2 ^ 32 \<and> y = ucast x"
  by (auto simp: u32_try_from_def)

lemma unat_u64_of_u32 [simp]: "unat (u64_of_u32 x) = unat x"
  using unat_less_2p32 [of x] by (simp add: u64_of_u32_def unsigned_ucast_eq take_bit_nat_eq_self del: unat_less_2p32)

lemma unat_u32_try_from [word_bounds]:
  "u32_try_from x = Some y \<Longrightarrow> unat y = unat x"
  by (simp add: u32_try_from_Some unsigned_ucast_eq take_bit_nat_eq_self)

lemma u64_try_from_Some [outcome_simps]:
  "u64_try_from n = Some x \<longleftrightarrow> n < 2 ^ 64 \<and> x = of_nat n"
  by (auto simp: u64_try_from_def)

lemma unat_u64_try_from [word_bounds]: "u64_try_from n = Some x \<Longrightarrow> unat x = n"
  by (simp add: u64_try_from_Some unat_of_nat take_bit_nat_eq_self)

text \<open>Evaluation at the width of the word, without powers of two.\<close>

lemma checked_add_code [code]: "checked_add a b = (if a \<le> a + b then Some (a + b) else None)"
  for a b :: "'a::len word"
proof -
  have b: "unat b < 2 ^ LENGTH('a)" by (rule unsigned_less)
  have "unat a + unat b < 2 ^ LENGTH('a) \<longleftrightarrow> a \<le> a + b"
  proof (cases "unat a + unat b < 2 ^ LENGTH('a)")
    case True
    then show ?thesis by (simp add: word_le_nat_alt unat_add_small)
  next
    case False
    then have "unat (a + b) = unat a + unat b - 2 ^ LENGTH('a)" by (simp add: unat_plus_if')
    then have "unat (a + b) < unat a" using b False by linarith
    with False show ?thesis by (simp add: word_le_nat_alt)
  qed
  then show ?thesis by (simp add: checked_add_def)
qed

lemma u32_try_from_code [code]: "u32_try_from x = (if x \<le> 4294967295 then Some (ucast x) else None)"
  by (auto simp: u32_try_from_def word_le_nat_alt)

lemma u64_try_from_code [code]: "u64_try_from n = (if n < 18446744073709551616 then Some (of_nat n) else None)"
  by (simp add: u64_try_from_def)

section \<open>Results\<close>

text \<open>\<open>Result<T, E>\<close> is the sum \<open>'e + 'a\<close>; \<open>res_bind\<close> is the \<open>?\<close> operator
  followed by the rest of the function, \<open>ok_or\<close> and \<open>map_err\<close> are the methods.\<close>

definition res_bind :: "'e + 'a \<Rightarrow> ('a \<Rightarrow> 'e + 'b) \<Rightarrow> 'e + 'b" where
  "res_bind m f = (case m of Inl e \<Rightarrow> Inl e | Inr x \<Rightarrow> f x)"

definition ok_or :: "'a option \<Rightarrow> 'e \<Rightarrow> 'e + 'a" where
  "ok_or m e = (case m of None \<Rightarrow> Inl e | Some x \<Rightarrow> Inr x)"

definition map_err :: "('e \<Rightarrow> 'f) \<Rightarrow> 'e + 'a \<Rightarrow> 'f + 'a" where
  "map_err f m = (case m of Inl e \<Rightarrow> Inl (f e) | Inr x \<Rightarrow> Inr x)"

definition map_ok :: "('a \<Rightarrow> 'b) \<Rightarrow> 'e + 'a \<Rightarrow> 'e + 'b" where
  "map_ok f m = (case m of Inl e \<Rightarrow> Inl e | Inr x \<Rightarrow> Inr (f x))"

text \<open>\<open>guard c e\<close> is \<open>if c { return Err(e) }\<close>.\<close>

definition fail_if :: "bool \<Rightarrow> 'e \<Rightarrow> 'e + unit" where
  "fail_if c e = (if c then Inl e else Inr ())"

text \<open>\<open>iter.map(f).collect::<Result<Vec<_>>>()\<close>: the first error wins.\<close>

fun collect_results :: "('e + 'a) list \<Rightarrow> 'e + 'a list" where
  "collect_results [] = Inr []"
| "collect_results (r # rs) =
     res_bind r (\<lambda>x. res_bind (collect_results rs) (\<lambda>xs. Inr (x # xs)))"

lemma res_bind_simps [simp]: "res_bind (Inl e) f = Inl e" "res_bind (Inr x) f = f x"
  by (simp_all add: res_bind_def)

lemma res_bind_Inr [outcome_simps]:
  "res_bind m f = Inr y \<longleftrightarrow> (\<exists>x. m = Inr x \<and> f x = Inr y)"
  by (cases m) auto

lemma res_bind_Inl [outcome_simps]:
  "res_bind m f = Inl e \<longleftrightarrow> m = Inl e \<or> (\<exists>x. m = Inr x \<and> f x = Inl e)"
  by (cases m) auto

lemma ok_or_simps [simp]: "ok_or None e = Inl e" "ok_or (Some x) e = Inr x"
  by (simp_all add: ok_or_def)

lemma ok_or_Inr [outcome_simps]: "ok_or m e = Inr x \<longleftrightarrow> m = Some x"
  by (cases m) auto

lemma ok_or_Inl [outcome_simps]: "ok_or m e = Inl e' \<longleftrightarrow> m = None \<and> e' = e"
  by (cases m) auto

lemma map_err_simps [simp]: "map_err f (Inl e) = Inl (f e)" "map_err f (Inr x) = Inr x"
  by (simp_all add: map_err_def)

lemma map_err_Inr [outcome_simps]: "map_err f m = Inr x \<longleftrightarrow> m = Inr x"
  by (cases m) auto

lemma map_err_Inl [outcome_simps]: "map_err f m = Inl e \<longleftrightarrow> (\<exists>e'. m = Inl e' \<and> e = f e')"
  by (cases m) auto

lemma map_ok_simps [simp]: "map_ok f (Inl e) = Inl e" "map_ok f (Inr x) = Inr (f x)"
  by (simp_all add: map_ok_def)

lemma map_ok_Inr [outcome_simps]: "map_ok f m = Inr y \<longleftrightarrow> (\<exists>x. m = Inr x \<and> y = f x)"
  by (cases m) auto

lemma map_ok_Inl [outcome_simps]: "map_ok f m = Inl e \<longleftrightarrow> m = Inl e"
  by (cases m) auto

lemma fail_if_simps [simp]: "fail_if True e = Inl e" "fail_if False e = Inr ()"
  by (simp_all add: fail_if_def)

lemma fail_if_Inr [outcome_simps]: "fail_if c e = Inr u \<longleftrightarrow> \<not> c"
  by (cases c) auto

lemma fail_if_Inl [outcome_simps]: "fail_if c e = Inl e' \<longleftrightarrow> c \<and> e' = e"
  by (cases c) auto

lemma collect_results_map_Inr: "collect_results (map (\<lambda>x. Inr (f x)) xs) = Inr (map f xs)"
  by (induction xs) auto

lemma collect_results_all_Inr:
  "(\<And>x. x \<in> set xs \<Longrightarrow> f x = Inr (g x)) \<Longrightarrow> collect_results (map f xs) = Inr (map g xs)"
  by (induction xs) auto

text \<open>\<open>iter.find_map(f)\<close>.\<close>

fun find_map :: "('a \<Rightarrow> 'b option) \<Rightarrow> 'a list \<Rightarrow> 'b option" where
  "find_map f [] = None"
| "find_map f (x # xs) = (case f x of Some y \<Rightarrow> Some y | None \<Rightarrow> find_map f xs)"

lemma find_map_Some: "find_map f xs = Some y \<Longrightarrow> \<exists>x\<in>set xs. f x = Some y"
  by (induction xs) (auto split: option.splits)

lemma find_map_None: "find_map f xs = None \<longleftrightarrow> (\<forall>x\<in>set xs. f x = None)"
  by (induction xs) (auto split: option.splits)

lemma find_map_unique:
  assumes "x \<in> set xs" and "f x = Some y" and "\<And>x' y'. x' \<in> set xs \<Longrightarrow> f x' = Some y' \<Longrightarrow> y' = y"
  shows "find_map f xs = Some y"
proof (cases "find_map f xs")
  case None
  then show ?thesis using assms(1,2) by (auto simp: find_map_None)
next
  case (Some z)
  then show ?thesis using find_map_Some [of f xs z] assms(3) by blast
qed

section \<open>Slices\<close>

text \<open>\<open>&v[s..e]\<close> and \<open>v[s..s+n].copy_from_slice(w)\<close> for ranges inside \<open>v\<close>.\<close>

definition subslice :: "'a list \<Rightarrow> nat \<Rightarrow> nat \<Rightarrow> 'a list" where
  "subslice xs s e = take (e - s) (drop s xs)"

definition copy_at :: "'a list \<Rightarrow> nat \<Rightarrow> 'a list \<Rightarrow> 'a list" where
  "copy_at xs s ys = take s xs @ ys @ drop (s + length ys) xs"

lemma length_subslice [simp]: "s \<le> e \<Longrightarrow> e \<le> length xs \<Longrightarrow> length (subslice xs s e) = e - s"
  by (simp add: subslice_def)

lemma nth_subslice: "s + i < e \<Longrightarrow> e \<le> length xs \<Longrightarrow> subslice xs s e ! i = xs ! (s + i)"
  by (simp add: subslice_def)

lemma length_copy_at [simp]:
  "s + length ys \<le> length xs \<Longrightarrow> length (copy_at xs s ys) = length xs"
  by (simp add: copy_at_def)

lemma nth_copy_at:
  assumes "s + length ys \<le> length xs" and "i < length xs"
  shows "copy_at xs s ys ! i = (if s \<le> i \<and> i < s + length ys then ys ! (i - s) else xs ! i)"
  using assms by (auto simp: copy_at_def nth_append)

section \<open>Decimal numerals\<close>

definition digit_char :: "nat \<Rightarrow> char" where
  "digit_char d = char_of (48 + d)"

text \<open>The \<open>Display\<close> of an unsigned integer.\<close>

fun decimal :: "nat \<Rightarrow> string" where
  "decimal n = (if n < 10 then [digit_char n] else decimal (n div 10) @ [digit_char (n mod 10)])"

declare decimal.simps [simp del]

definition decimal_value :: "string \<Rightarrow> nat" where
  "decimal_value s = foldl (\<lambda>acc c. 10 * acc + (of_char c - 48)) 0 s"

lemma of_char_digit_char: "d < 10 \<Longrightarrow> of_char (digit_char d) = 48 + d"
  by (simp add: digit_char_def)

lemma decimal_value_decimal: "decimal_value (decimal n) = n"
proof (induction n rule: decimal.induct)
  case (1 n)
  show ?case
  proof (cases "n < 10")
    case True
    then show ?thesis
      by (subst decimal.simps) (simp add: decimal_value_def of_char_digit_char)
  next
    case False
    with "1.IH" have "decimal_value (decimal (n div 10)) = n div 10" by simp
    with False show ?thesis
      by (subst decimal.simps) (simp add: decimal_value_def of_char_digit_char)
  qed
qed

lemma decimal_inj [simp]: "decimal m = decimal n \<longleftrightarrow> m = n"
  by (metis decimal_value_decimal)

lemma length_decimal_le: "n < 10 ^ k \<Longrightarrow> 0 < k \<Longrightarrow> length (decimal n) \<le> k"
proof (induction n arbitrary: k rule: decimal.induct)
  case (1 n)
  show ?case
  proof (cases "n < 10")
    case True
    with "1.prems" show ?thesis by (subst decimal.simps) simp
  next
    case False
    obtain k' where k': "k = Suc k'" using "1.prems"(2) by (cases k) auto
    with False "1.prems"(1) have "0 < k'" by (cases k') auto
    note k = k' this
    with "1.prems"(1) have "n div 10 < 10 ^ k'" by (simp add: less_mult_imp_div_less)
    from "1.IH" [OF False this k(2)] False show ?thesis by (subst decimal.simps) (simp add: k)
  qed
qed

lemma decimal_digits: "c \<in> set (decimal n) \<Longrightarrow> 48 \<le> (of_char c :: nat) \<and> (of_char c :: nat) < 58"
proof (induction n rule: decimal.induct)
  case (1 n)
  show ?case
  proof (cases "n < 10")
    case True
    with "1.prems" show ?thesis
      by (subst (asm) decimal.simps) (simp add: of_char_digit_char)
  next
    case False
    with "1.prems" have "c \<in> set (decimal (n div 10)) \<or> c = digit_char (n mod 10)"
      by (subst (asm) decimal.simps) auto
    with "1.IH" False show ?thesis by (auto simp: of_char_digit_char)
  qed
qed

end
