(* ===== verification/Core_Types.thy ===== *)
theory Core_Types
  imports Prelude
begin

text \<open>
  The data types of \<open>crates/fuse-promise-runtime/src/lib.rs\<close> that the other components
  share: the status codes, provider and node identifiers, node kinds and attributes, the
  promise life cycle, and the cache policy with its validation.
\<close>

definition API_VERSION :: u32 where "API_VERSION = 1"
definition FUSE_ROOT_INODE :: u64 where "FUSE_ROOT_INODE = 1"
definition DEFAULT_READ_THROUGH_CHUNK_SIZE :: u32 where
  "DEFAULT_READ_THROUGH_CHUNK_SIZE = 256 * 1024"

datatype Status =
    Ok
  | InvalidArgument
  | Unavailable
  | Permission
  | NotFound
  | AlreadyExists
  | ProviderGone
  | Io
  | Timeout
  | Cancelled
  | VersionMismatch

type_synonym 'a result = "Status + 'a"

fun status_as_str :: "Status \<Rightarrow> string" where
  "status_as_str Status.Ok = ''ok''"
| "status_as_str Status.InvalidArgument = ''invalid argument''"
| "status_as_str Status.Unavailable = ''unavailable''"
| "status_as_str Status.Permission = ''permission denied''"
| "status_as_str Status.NotFound = ''not found''"
| "status_as_str Status.AlreadyExists = ''already exists''"
| "status_as_str Status.ProviderGone = ''provider gone''"
| "status_as_str Status.Io = ''io error''"
| "status_as_str Status.Timeout = ''timeout''"
| "status_as_str Status.Cancelled = ''cancelled''"
| "status_as_str Status.VersionMismatch = ''version mismatch''"

text \<open>\<open>ProviderId\<close> and \<open>NodeId\<close> wrap a \<open>u64\<close>; the public constructor of a provider
  id is \<open>from_raw\<close>, which refuses zero.\<close>

type_synonym ProviderId = u64
type_synonym NodeId = u64

definition provider_id_from_raw :: "u64 \<Rightarrow> ProviderId option" where
  "provider_id_from_raw raw = (if raw = 0 then None else Some raw)"

datatype ProviderState = Live | Disconnected

record ProviderSession =
  session_id :: ProviderId
  session_state :: ProviderState

datatype NodeKind = File | Directory

record NodeAttr =
  attr_mode :: u32
  attr_size :: u64
  attr_mtime_nsec :: i64

definition node_attr_new :: "u32 \<Rightarrow> u64 \<Rightarrow> i64 \<Rightarrow> NodeAttr" where
  "node_attr_new mode sz mtime_nsec =
     \<lparr>attr_mode = mode, attr_size = sz, attr_mtime_nsec = mtime_nsec\<rparr>"

datatype PromiseState = Available | ProviderGone | Materialized

datatype CachePolicy = NoCache | ReadThrough u32

definition cache_policy_validated :: "CachePolicy \<Rightarrow> CachePolicy result" where
  "cache_policy_validated p =
     (case p of
        NoCache \<Rightarrow> Inr p
      | ReadThrough chunk_size \<Rightarrow>
          if chunk_size > 0 then Inr p else Inl Status.InvalidArgument)"

definition cache_policy_read_through :: "u32 \<Rightarrow> CachePolicy result" where
  "cache_policy_read_through chunk_size = cache_policy_validated (ReadThrough chunk_size)"

definition cache_policy_as_str :: "CachePolicy \<Rightarrow> string" where
  "cache_policy_as_str p = (case p of NoCache \<Rightarrow> ''no-cache'' | ReadThrough _ \<Rightarrow> ''read-through'')"

definition cache_policy_chunk_size :: "CachePolicy \<Rightarrow> u32 option" where
  "cache_policy_chunk_size p =
     (case p of
        NoCache \<Rightarrow> None
      | ReadThrough chunk_size \<Rightarrow> if chunk_size > 0 then Some chunk_size else None)"

definition validate_attr :: "NodeKind \<Rightarrow> NodeAttr \<Rightarrow> unit result" where
  "validate_attr kind attr =
     res_bind (fail_if (attr_mode attr AND NOT 4095 \<noteq> 0) Status.InvalidArgument) (\<lambda>_.
     res_bind (fail_if (sint (attr_mtime_nsec attr) < 0) Status.InvalidArgument) (\<lambda>_.
     res_bind (fail_if (kind = Directory \<and> attr_size attr \<noteq> 0) Status.InvalidArgument) (\<lambda>_.
     Inr ())))"

section \<open>Lemmas\<close>

lemma chunk_size_positive: "cache_policy_chunk_size p = Some c \<Longrightarrow> c > 0"
  by (auto simp: cache_policy_chunk_size_def split: CachePolicy.splits if_splits)

lemma cache_policy_validated_Inr:
  "cache_policy_validated p = Inr q \<longleftrightarrow> q = p \<and> (p = NoCache \<or> cache_policy_chunk_size p \<noteq> None)"
  by (auto simp: cache_policy_validated_def cache_policy_chunk_size_def split: CachePolicy.splits)

lemma status_as_str_inj [simp]: "status_as_str s = status_as_str t \<longleftrightarrow> s = t"
  by (cases s; cases t) simp_all

end
