(* ===== verification/Paths.thy ===== *)
theory Paths
  imports Core_Types
begin

text \<open>
  Path handling. Strings are byte sequences (\<open>char list\<close>). The first part models what the
  sources use of the language: UTF-8 validity (\<open>to_str\<close>), \<open>str::rsplit_once\<close>, and the
  Unix \<open>Path\<close> operations \<open>components\<close>, \<open>is_absolute\<close>, \<open>join\<close> and
  \<open>strip_prefix\<close>. The second part translates the path functions at the end of
  \<open>crates/fuse-promise-runtime/src/lib.rs\<close>. The lemmas show that normalisation yields
  exactly the slash-joined lists of plain components, that it is idempotent, and that
  \<open>parent_path\<close>, \<open>leaf_name\<close> and \<open>child_path\<close> are inverse to each other there.
\<close>

section \<open>UTF-8 validity\<close>

definition utf8_cont :: "nat \<Rightarrow> bool" where
  "utf8_cont b \<longleftrightarrow> 128 \<le> b \<and> b < 192"

text \<open>The length of a sequence by its first byte; 0 for a byte that starts none.\<close>

definition utf8_char_width :: "nat \<Rightarrow> nat" where
  "utf8_char_width a =
     (if a < 128 then 1 else if a < 194 then 0 else if a < 224 then 2
      else if a < 240 then 3 else if a < 245 then 4 else 0)"

text \<open>Overlong forms, surrogates and values above U+10FFFF are refused at the second byte.\<close>

definition utf8_second_ok :: "nat \<Rightarrow> nat \<Rightarrow> bool" where
  "utf8_second_ok a b \<longleftrightarrow>
     (a = 224 \<longrightarrow> 160 \<le> b) \<and> (a = 237 \<longrightarrow> b < 160) \<and> (a = 240 \<longrightarrow> 144 \<le> b) \<and> (a = 244 \<longrightarrow> b < 144)"

fun utf8_bytes :: "nat list \<Rightarrow> bool" where
  "utf8_bytes [] = True"
| "utf8_bytes (a # xs) =
     (let n = utf8_char_width a - 1 in
      utf8_char_width a \<noteq> 0 \<and> n \<le> length xs \<and> list_all utf8_cont (take n xs) \<and>
      (n \<noteq> 0 \<longrightarrow> utf8_second_ok a (hd xs)) \<and> utf8_bytes (drop n xs))"

definition utf8_valid :: "string \<Rightarrow> bool" where
  "utf8_valid s = utf8_bytes (map of_char s)"

section \<open>Strings\<close>

fun split_on :: "char \<Rightarrow> string \<Rightarrow> string list" where
  "split_on c [] = [[]]"
| "split_on c (x # xs) =
     (if x = c then [] # split_on c xs
      else case split_on c xs of [] \<Rightarrow> [[x]] | y # ys \<Rightarrow> (x # y) # ys)"

text \<open>\<open>parts.join("/")\<close>.\<close>

fun join_slash :: "string list \<Rightarrow> string" where
  "join_slash [] = []"
| "join_slash [p] = p"
| "join_slash (p # q # ps) = p @ CHR ''/'' # join_slash (q # ps)"

definition rsplit_once :: "char \<Rightarrow> string \<Rightarrow> (string \<times> string) option" where
  "rsplit_once c s =
     (if c \<in> set s
      then Some (rev (tl (dropWhile (\<lambda>x. x \<noteq> c) (rev s))), rev (takeWhile (\<lambda>x. x \<noteq> c) (rev s)))
      else None)"

section \<open>Unix paths of the standard library\<close>

datatype Component = RootDir | CurDir | ParentDir | Normal string

type_synonym path = string

definition path_is_absolute :: "path \<Rightarrow> bool" where
  "path_is_absolute p \<longleftrightarrow> p \<noteq> [] \<and> hd p = CHR ''/''"

definition body_component :: "string \<Rightarrow> Component option" where
  "body_component s =
     (if s = [] \<or> s = ''.'' then None else if s = ''..'' then Some ParentDir else Some (Normal s))"

text \<open>Empty and \<open>.\<close> segments are skipped, except a leading \<open>.\<close> of a relative path.\<close>

definition path_components :: "path \<Rightarrow> Component list" where
  "path_components p =
     (if path_is_absolute p then [RootDir]
      else if hd (split_on CHR ''/'' p) = ''.'' then [CurDir] else [])
     @ List.map_filter body_component (split_on CHR ''/'' p)"

definition path_join :: "path \<Rightarrow> path \<Rightarrow> path" where
  "path_join base p =
     (if path_is_absolute p then p
      else if base = [] \<or> last base = CHR ''/'' then base @ p
      else base @ CHR ''/'' # p)"

text \<open>\<open>strip_prefix\<close>, returning the components of the remaining path.\<close>

definition path_strip_prefix :: "path \<Rightarrow> path \<Rightarrow> Component list option" where
  "path_strip_prefix p base =
     (if prefix (path_components base) (path_components p)
      then Some (drop (length (path_components base)) (path_components p))
      else None)"

section \<open>Relative paths of the runtime\<close>

fun normalize_components :: "Component list \<Rightarrow> string list result" where
  "normalize_components [] = Inr []"
| "normalize_components (Normal part # cs) =
     res_bind (fail_if (\<not> utf8_valid part) Status.InvalidArgument) (\<lambda>_.
     res_bind (fail_if (part = []) Status.InvalidArgument) (\<lambda>_.
     res_bind (normalize_components cs) (\<lambda>parts. Inr (part # parts))))"
| "normalize_components (CurDir # cs) = normalize_components cs"
| "normalize_components (ParentDir # cs) = Inl Status.InvalidArgument"
| "normalize_components (RootDir # cs) = Inl Status.InvalidArgument"

definition normalize_relative_path :: "string \<Rightarrow> string result" where
  "normalize_relative_path input =
     res_bind (fail_if (CHR 0x00 \<in> set input) Status.InvalidArgument) (\<lambda>_.
     res_bind (fail_if (path_is_absolute input) Status.InvalidArgument) (\<lambda>_.
     res_bind (normalize_components (path_components input)) (\<lambda>parts.
     Inr (join_slash parts))))"

definition parent_path :: "string \<Rightarrow> string" where
  "parent_path p = (case rsplit_once CHR ''/'' p of None \<Rightarrow> [] | Some (parent, _) \<Rightarrow> parent)"

definition leaf_name :: "string \<Rightarrow> string" where
  "leaf_name p = (case rsplit_once CHR ''/'' p of None \<Rightarrow> p | Some (_, name) \<Rightarrow> name)"

definition validate_child_name :: "string \<Rightarrow> unit result" where
  "validate_child_name name =
     res_bind (fail_if (name = [] \<or> name = ''.'' \<or> name = ''..'') Status.InvalidArgument) (\<lambda>_.
     res_bind (fail_if (CHR 0x00 \<in> set name \<or> CHR ''/'' \<in> set name) Status.InvalidArgument) (\<lambda>_.
     Inr ()))"

definition child_path :: "string \<Rightarrow> string \<Rightarrow> string" where
  "child_path parent name = (if parent = [] then name else parent @ CHR ''/'' # name)"

section \<open>Splitting and joining\<close>

lemma split_on_not_Nil [simp]: "split_on c s \<noteq> []"
  by (induction s) (auto split: list.splits)

lemma split_on_no_sep: "c \<notin> set s \<Longrightarrow> split_on c s = [s]"
  by (induction s) auto

lemma split_on_append: "c \<notin> set s \<Longrightarrow> split_on c (s @ c # t) = s # split_on c t"
  by (induction s) auto

lemma split_on_parts: "p \<in> set (split_on c s) \<Longrightarrow> c \<notin> set p \<and> set p \<subseteq> set s"
proof (induction s arbitrary: p)
  case (Cons x s)
  obtain y ys where split: "split_on c s = y # ys"
    by (meson list.exhaust split_on_not_Nil)
  from Cons.IH [of y] Cons.IH [of p] split Cons.prems show ?case
    by (auto split: if_splits)
qed simp

lemma split_join_slash:
  "ps \<noteq> [] \<Longrightarrow> (\<And>p. p \<in> set ps \<Longrightarrow> CHR ''/'' \<notin> set p) \<Longrightarrow> split_on CHR ''/'' (join_slash ps) = ps"
  by (induction ps rule: join_slash.induct) (auto simp: split_on_no_sep split_on_append)

lemma join_split_slash: "join_slash (split_on CHR ''/'' s) = s"
proof (induction s)
  case (Cons x s)
  obtain y ys where "split_on CHR ''/'' s = y # ys"
    by (meson list.exhaust split_on_not_Nil)
  with Cons show ?case by (cases ys) auto
qed simp

lemma join_slash_snoc: "ps \<noteq> [] \<Longrightarrow> join_slash (ps @ [p]) = join_slash ps @ CHR ''/'' # p"
  by (induction ps rule: join_slash.induct) auto

lemma set_join_slash: "c \<in> set (join_slash ps) \<Longrightarrow> c = CHR ''/'' \<or> (\<exists>p\<in>set ps. c \<in> set p)"
  by (induction ps rule: join_slash.induct) auto

lemma rsplit_once_append: "c \<notin> set t \<Longrightarrow> rsplit_once c (s @ c # t) = Some (s, t)"
proof -
  assume *: "c \<notin> set t"
  have "takeWhile (\<lambda>x. x \<noteq> c) (rev t @ c # rev s) = rev t"
    using * by (subst takeWhile_append2) auto
  moreover have "dropWhile (\<lambda>x. x \<noteq> c) (rev t @ c # rev s) = c # rev s"
    using * by (subst dropWhile_append2) auto
  ultimately show ?thesis by (simp add: rsplit_once_def)
qed

lemma rsplit_once_None: "c \<notin> set s \<Longrightarrow> rsplit_once c s = None"
  by (simp add: rsplit_once_def)

section \<open>Normal paths\<close>

definition normal_part :: "string \<Rightarrow> bool" where
  "normal_part p \<longleftrightarrow> p \<noteq> [] \<and> p \<noteq> ''.'' \<and> p \<noteq> ''..'' \<and> CHR ''/'' \<notin> set p \<and> CHR 0x00 \<notin> set p \<and> utf8_valid p"

definition normal_path :: "string \<Rightarrow> bool" where
  "normal_path p \<longleftrightarrow> normalize_relative_path p = Inr p"

abbreviation normal_parts :: "string list \<Rightarrow> bool" where
  "normal_parts ps \<equiv> list_all normal_part ps"

lemma normalize_components_Inr:
  "normalize_components cs = Inr parts \<longleftrightarrow>
     set cs \<inter> {ParentDir, RootDir} = {} \<and>
     parts = List.map_filter (\<lambda>c. case c of Normal s \<Rightarrow> Some s | _ \<Rightarrow> None) cs \<and>
     (\<forall>s. Normal s \<in> set cs \<longrightarrow> s \<noteq> [] \<and> utf8_valid s)"
  by (induction cs arbitrary: parts rule: normalize_components.induct)
    (auto simp: outcome_simps map_filter_def)

lemma path_components_relative:
  "\<not> path_is_absolute p \<Longrightarrow> set (path_components p) \<inter> {RootDir} = {}"
  by (auto simp: path_components_def map_filter_def body_component_def split: if_splits)

lemma path_components_Normal:
  "Normal s \<in> set (path_components p) \<Longrightarrow>
     s \<noteq> [] \<and> s \<noteq> ''.'' \<and> s \<noteq> ''..'' \<and> CHR ''/'' \<notin> set s \<and> set s \<subseteq> set p"
  using split_on_parts [of s "CHR ''/''" p]
  by (auto simp: path_components_def map_filter_def body_component_def split: if_splits)

lemma normalize_relative_path_parts:
  assumes "normalize_relative_path s = Inr p"
  shows "\<exists>ps. normal_parts ps \<and> p = join_slash ps"
proof -
  from assms obtain ps where ps: "normalize_components (path_components s) = Inr ps"
    and p: "p = join_slash ps" and nul: "CHR 0x00 \<notin> set s"
    by (auto simp: normalize_relative_path_def outcome_simps)
  have "normal_part q" if "q \<in> set ps" for q
  proof -
    from ps that have "Normal q \<in> set (path_components s)" and "utf8_valid q"
      by (auto simp: normalize_components_Inr map_filter_def split: Component.splits)
    with nul show ?thesis
      using path_components_Normal [of q s] by (auto simp: normal_part_def)
  qed
  with p show ?thesis by (auto simp: list_all_iff)
qed

lemma components_join_slash:
  assumes "normal_parts ps"
  shows "path_components (join_slash ps) = map Normal ps"
proof (cases "ps = []")
  case True
  then show ?thesis
    by (simp add: path_components_def path_is_absolute_def map_filter_def body_component_def)
next
  case False
  then obtain q qs where q: "ps = q # qs" by (cases ps) auto
  have split: "split_on CHR ''/'' (join_slash ps) = ps"
    using assms False by (intro split_join_slash) (auto simp: list_all_iff normal_part_def)
  have "hd (join_slash ps) = hd q" and "join_slash ps \<noteq> []"
    using assms q by (cases qs; auto simp: normal_part_def)+
  moreover have "hd q \<noteq> CHR ''/''" and "q \<noteq> ''.''"
    using assms q by (cases q; auto simp: normal_part_def)+
  ultimately have "\<not> path_is_absolute (join_slash ps)" and "hd ps \<noteq> ''.''"
    using q by (auto simp: path_is_absolute_def)
  moreover have "List.map_filter body_component ps = map Normal ps"
    using assms by (induction ps) (auto simp: map_filter_def body_component_def normal_part_def)
  ultimately show ?thesis by (simp add: path_components_def split)
qed

lemma normal_path_join:
  assumes "normal_parts ps"
  shows "normal_path (join_slash ps)"
proof -
  have "CHR 0x00 \<notin> set (join_slash ps)"
    using assms set_join_slash by (fastforce simp: list_all_iff normal_part_def)
  moreover have "RootDir \<notin> set (path_components (join_slash ps))"
    unfolding components_join_slash [OF assms] by auto
  then have "\<not> path_is_absolute (join_slash ps)"
    by (auto simp: path_components_def)
  moreover have "normalize_components (path_components (join_slash ps)) = Inr ps"
    unfolding components_join_slash [OF assms]
    using assms by (induction ps) (auto simp: normal_part_def)
  ultimately show ?thesis
    by (simp add: normal_path_def normalize_relative_path_def)
qed

lemma normal_path_iff: "normal_path p \<longleftrightarrow> (\<exists>ps. normal_parts ps \<and> p = join_slash ps)"
  using normal_path_join normalize_relative_path_parts normal_path_def by blast

lemma normalize_normal_path: "normalize_relative_path s = Inr p \<Longrightarrow> normal_path p"
  using normalize_relative_path_parts normal_path_iff by blast

lemma normal_path_Nil [simp]: "normal_path []"
  using normal_path_join [of "[]"] by simp

section \<open>Parents, leaves and children\<close>

lemma parent_leaf_join:
  assumes "normal_parts (ps @ [q])"
  shows "parent_path (join_slash (ps @ [q])) = join_slash ps"
    and "leaf_name (join_slash (ps @ [q])) = q"
proof -
  from assms have "CHR ''/'' \<notin> set q" by (simp add: normal_part_def)
  then have "rsplit_once CHR ''/'' (join_slash (ps @ [q])) =
      (if ps = [] then None else Some (join_slash ps, q))"
    by (cases "ps = []") (simp_all add: rsplit_once_None join_slash_snoc rsplit_once_append)
  then show "parent_path (join_slash (ps @ [q])) = join_slash ps"
    and "leaf_name (join_slash (ps @ [q])) = q"
    by (auto simp: parent_path_def leaf_name_def)
qed

lemma join_slash_eq_Nil: "normal_parts ps \<Longrightarrow> join_slash ps = [] \<longleftrightarrow> ps = []"
  by (cases ps rule: join_slash.cases) (auto simp: normal_part_def)

lemma child_path_join:
  "normal_parts ps \<Longrightarrow> child_path (join_slash ps) q = join_slash (ps @ [q])"
  by (auto simp: child_path_def join_slash_eq_Nil join_slash_snoc)

lemma normal_path_cases:
  assumes "normal_path p"
  obtains (root) "p = []"
  | (child) ps q where "normal_parts (ps @ [q])" "p = join_slash (ps @ [q])"
proof -
  from assms obtain ps where "normal_parts ps" "p = join_slash ps"
    by (auto simp: normal_path_iff)
  then show thesis using root child by (cases ps rule: rev_cases) auto
qed

lemma parent_path_Nil [simp]: "parent_path [] = []"
  by (simp add: parent_path_def rsplit_once_def)

lemma normal_path_parent: "normal_path p \<Longrightarrow> normal_path (parent_path p)"
  by (erule normal_path_cases) (auto simp: parent_leaf_join intro: normal_path_join)

lemma child_of_parent_leaf:
  "normal_path p \<Longrightarrow> p \<noteq> [] \<Longrightarrow> child_path (parent_path p) (leaf_name p) = p"
  by (erule normal_path_cases) (auto simp: parent_leaf_join child_path_join)

lemma leaf_name_normal: "normal_path p \<Longrightarrow> p \<noteq> [] \<Longrightarrow> normal_part (leaf_name p)"
  by (erule normal_path_cases) (auto simp: parent_leaf_join)

lemma normal_path_child:
  assumes "normal_path p" and "normal_part q"
  shows "normal_path (child_path p q)" and "parent_path (child_path p q) = p"
    and "leaf_name (child_path p q) = q" and "child_path p q \<noteq> []"
proof -
  from assms(1) obtain ps where ps: "normal_parts ps" "p = join_slash ps"
    by (auto simp: normal_path_iff)
  then have child: "child_path p q = join_slash (ps @ [q])" and norm: "normal_parts (ps @ [q])"
    using assms(2) by (auto simp: child_path_join)
  show "normal_path (child_path p q)" unfolding child by (rule normal_path_join [OF norm])
  show "parent_path (child_path p q) = p" "leaf_name (child_path p q) = q"
    unfolding child parent_leaf_join [OF norm] using ps by simp_all
  show "child_path p q \<noteq> []" unfolding child by (simp add: join_slash_eq_Nil [OF norm])
qed

lemma parent_path_prefix:
  assumes "normal_path p" and "p \<noteq> []"
  shows "strict_prefix (parent_path p) p"
proof -
  have "strict_prefix par (child_path par name)" if "name \<noteq> []" for par name
    using that by (auto simp: child_path_def strict_prefix_def)
  then show ?thesis
    using child_of_parent_leaf [OF assms] leaf_name_normal [OF assms]
    by (metis normal_part_def)
qed

lemma parent_path_shorter: "p \<noteq> [] \<Longrightarrow> normal_path p \<Longrightarrow> length (parent_path p) < length p"
  by (rule prefix_length_less [OF parent_path_prefix])

lemma strict_prefix_less:
  assumes "strict_prefix xs ys"
  shows "xs < (ys :: string)"
proof -
  from assms obtain z zs where "ys = xs @ z # zs" by (auto elim: strict_prefixE')
  moreover have "xs < xs @ z # zs" by (induction xs) auto
  ultimately show ?thesis by simp
qed

lemma parent_path_less: "normal_path p \<Longrightarrow> p \<noteq> [] \<Longrightarrow> parent_path p < p"
  by (rule strict_prefix_less [OF parent_path_prefix])

lemma validate_child_name_Inr:
  "validate_child_name name = Inr () \<longleftrightarrow>
     name \<noteq> [] \<and> name \<noteq> ''.'' \<and> name \<noteq> ''..'' \<and> CHR 0x00 \<notin> set name \<and> CHR ''/'' \<notin> set name"
  by (auto simp: validate_child_name_def outcome_simps)

section \<open>Splitting preserves validity\<close>

lemma utf8_bytes_Cons:
  "utf8_bytes (a # xs) \<longleftrightarrow> utf8_char_width a \<noteq> 0 \<and> utf8_char_width a \<le> Suc (length xs) \<and>
     list_all utf8_cont (take (utf8_char_width a - 1) xs) \<and>
     (1 < utf8_char_width a \<longrightarrow> utf8_second_ok a (hd xs)) \<and> utf8_bytes (drop (utf8_char_width a - 1) xs)"
  by (auto simp: Let_def)
declare utf8_bytes.simps(2) [simp del]

lemma utf8_bytes_append_ascii:
  assumes "x < 128"
  shows "utf8_bytes (xs @ x # ys) \<longleftrightarrow> utf8_bytes xs \<and> utf8_bytes ys"
proof (induction "length xs" arbitrary: xs rule: less_induct)
  case less
  show ?case
  proof (cases xs)
    case Nil
    with assms show ?thesis by (simp add: utf8_bytes_Cons utf8_char_width_def)
  next
    case (Cons a zs)
    let ?n = "utf8_char_width a - 1"
    show ?thesis
    proof (cases "?n \<le> length zs")
      case True
      then have "utf8_bytes (drop ?n (zs @ x # ys)) \<longleftrightarrow> utf8_bytes (drop ?n zs) \<and> utf8_bytes ys"
        using less [of "drop ?n zs"] Cons by simp
      moreover have "1 < utf8_char_width a \<Longrightarrow> hd (zs @ x # ys) = hd zs"
        using True by (cases zs) auto
      moreover have "take ?n (zs @ x # ys) = take ?n zs" using True by simp
      ultimately show ?thesis
        using True Cons by (simp only: append_Cons utf8_bytes_Cons) auto
    next
      case False
      then have "x \<in> set (take ?n (zs @ x # ys))" by (cases "?n - length zs") auto
      moreover have "\<not> utf8_cont x" using assms by (simp add: utf8_cont_def)
      ultimately have "\<not> list_all utf8_cont (take ?n (zs @ x # ys))"
        unfolding list_all_iff by blast
      with False Cons show ?thesis by (simp only: append_Cons utf8_bytes_Cons) auto
    qed
  qed
qed

lemma utf8_valid_append_slash:
  "utf8_valid (s @ CHR ''/'' # t) \<longleftrightarrow> utf8_valid s \<and> utf8_valid t"
  by (simp add: utf8_valid_def utf8_bytes_append_ascii)

lemma utf8_valid_append_ascii:
  assumes "\<forall>c\<in>set t. (of_char c :: nat) < 128"
  shows "utf8_valid (s @ t) \<longleftrightarrow> utf8_valid s"
proof -
  have ascii: "utf8_bytes (map of_char t)" if "\<forall>c\<in>set t. (of_char c :: nat) < 128" for t :: string
    using that
  proof (induction t)
    case (Cons c t)
    with utf8_bytes_append_ascii [of "of_char c" "[]" "map of_char t"] show ?case by (simp add: utf8_bytes.simps)
  qed (simp add: utf8_bytes.simps)
  show ?thesis
  proof (cases t)
    case (Cons c t')
    with assms ascii [of t'] show ?thesis by (simp add: utf8_valid_def utf8_bytes_append_ascii)
  qed simp
qed

lemma utf8_valid_join: "ps \<noteq> [] \<Longrightarrow> utf8_valid (join_slash ps) \<longleftrightarrow> list_all utf8_valid ps"
  by (induction ps rule: join_slash.induct) (auto simp: utf8_valid_append_slash)

lemma utf8_valid_split: "utf8_valid s \<Longrightarrow> p \<in> set (split_on CHR ''/'' s) \<Longrightarrow> utf8_valid p"
  using utf8_valid_join [of "split_on CHR ''/'' s"] by (auto simp: join_split_slash list_all_iff)

text \<open>On valid UTF-8 text the conversion of a component never fails, so normalisation fails
  exactly on NUL bytes, absolute paths and parent components.\<close>

lemma normalize_relative_path_fails:
  assumes "utf8_valid s"
  shows "(\<exists>p. normalize_relative_path s = Inr p) \<longleftrightarrow>
    CHR 0x00 \<notin> set s \<and> \<not> path_is_absolute s \<and> ''..'' \<notin> set (split_on CHR ''/'' s)"
proof -
  have comp: "c \<in> set (path_components s) \<Longrightarrow> \<exists>p. c = Normal p \<Longrightarrow> \<exists>p. c = Normal p \<and> p \<noteq> [] \<and> utf8_valid p" for c
    using utf8_valid_split [OF assms]
    by (auto simp: path_components_def map_filter_def body_component_def split: if_splits)
  have "ParentDir \<in> set (path_components s) \<longleftrightarrow> ''..'' \<in> set (split_on CHR ''/'' s)"
    by (auto simp: path_components_def map_filter_def body_component_def split: if_splits)
  moreover have "(\<exists>ps. normalize_components (path_components s) = Inr ps) \<longleftrightarrow>
      ParentDir \<notin> set (path_components s)" if "\<not> path_is_absolute s"
    using comp path_components_relative [OF that] by (fastforce simp: normalize_components_Inr)
  ultimately show ?thesis
    by (auto simp: normalize_relative_path_def outcome_simps)
qed

end
