(* ===== verification/Ordered_Map.thy ===== *)
theory Ordered_Map
  imports Prelude
begin

text \<open>
  The standard library's \<open>BTreeMap\<close> and \<open>BTreeSet\<close>, as far as the sources use them.
  A map is the list of its entries in increasing key order, a set the list of its elements
  in increasing order, so that iteration (\<open>values()\<close>, \<open>iter()\<close>) is the list itself.
  The locales \<open>ordered_map\<close> and \<open>ordered_set\<close> state what the components rely on; the
  interpretations \<open>bt\<close> and \<open>bs\<close> discharge the laws for these definitions.
\<close>

section \<open>Definitions\<close>

type_synonym ('k, 'v) btree_map = "('k \<times> 'v) list"
type_synonym 'k btree_set = "'k list"

definition bt_wf :: "('k::linorder, 'v) btree_map \<Rightarrow> bool" where
  "bt_wf m \<longleftrightarrow> sorted_wrt (<) (map fst m)"

definition bt_get :: "('k, 'v) btree_map \<Rightarrow> 'k \<Rightarrow> 'v option" where
  "bt_get m k = map_of m k"

primrec bt_insert :: "'k::linorder \<Rightarrow> 'v \<Rightarrow> ('k, 'v) btree_map \<Rightarrow> ('k, 'v) btree_map" where
  "bt_insert k v [] = [(k, v)]"
| "bt_insert k v (e # m) =
     (if fst e < k then e # bt_insert k v m
      else if fst e = k then (k, v) # m
      else (k, v) # e # m)"

definition bt_remove :: "'k \<Rightarrow> ('k, 'v) btree_map \<Rightarrow> ('k, 'v) btree_map" where
  "bt_remove k m = filter (\<lambda>e. fst e \<noteq> k) m"

definition bt_values :: "('k, 'v) btree_map \<Rightarrow> 'v list" where
  "bt_values m = map snd m"

definition bt_keys :: "('k, 'v) btree_map \<Rightarrow> 'k list" where
  "bt_keys m = map fst m"

text \<open>\<open>for v in m.values_mut() { *v = f(v) }\<close>.\<close>

definition bt_map_values :: "('v \<Rightarrow> 'w) \<Rightarrow> ('k, 'v) btree_map \<Rightarrow> ('k, 'w) btree_map" where
  "bt_map_values f m = map (\<lambda>e. (fst e, f (snd e))) m"

text \<open>\<open>m.entry(k).or_default()\<close> followed by an update of the value.\<close>

definition bt_entry :: "'k::linorder \<Rightarrow> 'v \<Rightarrow> ('v \<Rightarrow> 'v) \<Rightarrow> ('k, 'v) btree_map \<Rightarrow> ('k, 'v) btree_map" where
  "bt_entry k d f m = bt_insert k (f (case bt_get m k of None \<Rightarrow> d | Some v \<Rightarrow> v)) m"

definition bs_wf :: "'k::linorder btree_set \<Rightarrow> bool" where
  "bs_wf s \<longleftrightarrow> sorted_wrt (<) s"

primrec bs_insert :: "'k::linorder \<Rightarrow> 'k btree_set \<Rightarrow> 'k btree_set" where
  "bs_insert k [] = [k]"
| "bs_insert k (x # s) =
     (if x < k then x # bs_insert k s else if x = k then x # s else k # x # s)"

section \<open>Strictly increasing lists\<close>

lemma strict_sorted_unique:
  fixes xs ys :: "'k::linorder list"
  assumes "sorted_wrt (<) xs" and "sorted_wrt (<) ys" and "set xs = set ys"
  shows "xs = ys"
  using assms by (simp add: strict_sorted_equal)

lemma strict_sorted_distinct: "sorted_wrt (<) (xs :: 'k::linorder list) \<Longrightarrow> distinct xs"
  by (simp add: strict_sorted_iff)

section \<open>The map interface\<close>

locale ordered_map =
  fixes wf :: "'m \<Rightarrow> bool"
    and empty :: 'm
    and get :: "'m \<Rightarrow> 'k::linorder \<Rightarrow> 'v option"
    and insert :: "'k \<Rightarrow> 'v \<Rightarrow> 'm \<Rightarrow> 'm"
    and remove :: "'k \<Rightarrow> 'm \<Rightarrow> 'm"
    and entries :: "'m \<Rightarrow> ('k \<times> 'v) list"
  assumes wf_empty: "wf empty"
    and wf_insert: "wf m \<Longrightarrow> wf (insert k v m)"
    and wf_remove: "wf m \<Longrightarrow> wf (remove k m)"
    and get_empty: "get empty k = None"
    and get_insert: "wf m \<Longrightarrow> get (insert k v m) k' = (if k' = k then Some v else get m k')"
    and get_remove: "wf m \<Longrightarrow> get (remove k m) k' = (if k' = k then None else get m k')"
    and entries_get: "wf m \<Longrightarrow> (k, v) \<in> set (entries m) \<longleftrightarrow> get m k = Some v"
    and entries_sorted: "wf m \<Longrightarrow> sorted_wrt (<) (map fst (entries m))"
begin

lemma get_insert_same: "wf m \<Longrightarrow> get (insert k v m) k = Some v"
  by (simp add: get_insert)

lemma get_insert_other: "wf m \<Longrightarrow> k' \<noteq> k \<Longrightarrow> get (insert k v m) k' = get m k'"
  by (simp add: get_insert)

lemma keys_get: "wf m \<Longrightarrow> k \<in> fst ` set (entries m) \<longleftrightarrow> get m k \<noteq> None"
  using entries_get [of m k] by (force simp: image_iff)

lemma values_get: "wf m \<Longrightarrow> v \<in> snd ` set (entries m) \<longleftrightarrow> (\<exists>k. get m k = Some v)"
  using entries_get [of m _ v] by (force simp: image_iff)

lemma entries_distinct: "wf m \<Longrightarrow> distinct (map fst (entries m))"
  by (rule strict_sorted_distinct [OF entries_sorted])

lemma entries_ext:
  assumes "wf m" and "wf m'" and "\<And>k. get m k = get m' k"
  shows "entries m = entries m'"
proof (rule map_inj_on [of fst])
  have same: "set (entries m) = set (entries m')"
    using assms by (auto simp: entries_get)
  then show "map fst (entries m) = map fst (entries m')"
    by (intro strict_sorted_unique entries_sorted assms) simp
  show "inj_on fst (set (entries m) \<union> set (entries m'))"
    using same entries_get [OF assms(1)] by (fastforce simp: inj_on_def)
qed

lemma card_keys_insert_fresh:
  assumes "wf m" and "get m k = None"
  shows "length (entries (insert k v m)) = Suc (length (entries m))"
proof -
  have keys: "length (entries m') = card {k'. get m' k' \<noteq> None}" if "wf m'" for m'
  proof -
    have "length (entries m') = card (set (map fst (entries m')))"
      using entries_distinct [OF that] by (metis distinct_card length_map)
    also have "set (map fst (entries m')) = {k'. get m' k' \<noteq> None}"
      using keys_get [OF that] by auto
    finally show ?thesis .
  qed
  have "{k'. get (insert k v m) k' \<noteq> None} = Set.insert k {k'. get m k' \<noteq> None}"
    using assms by (auto simp: get_insert)
  moreover have "finite {k'. get m k' \<noteq> None}"
    using keys_get [OF assms(1)] by (metis (mono_tags, lifting) List.finite_set finite_imageI
        finite_subset mem_Collect_eq subsetI)
  ultimately show ?thesis
    using keys wf_insert assms by simp
qed

end

section \<open>The sorted list is such a map\<close>

lemma bt_wf_simps [simp]:
  "bt_wf []"
  "bt_wf (e # m) \<longleftrightarrow> (\<forall>e'\<in>set m. fst e < fst e') \<and> bt_wf m"
  by (auto simp: bt_wf_def)

lemma bt_get_simps [simp]:
  "bt_get [] k = None"
  "bt_get (e # m) k = (if k = fst e then Some (snd e) else bt_get m k)"
  by (simp_all add: bt_get_def map_of_Cons_code(2) [of "fst e" "snd e", simplified])

lemma set_bt_insert_keys: "fst ` set (bt_insert k v m) = insert k (fst ` set m)"
  by (induction m) auto

lemma bt_wf_insert: "bt_wf m \<Longrightarrow> bt_wf (bt_insert k v m)"
proof (induction m)
  case (Cons e m)
  have "x \<in> set (bt_insert k v m) \<Longrightarrow> fst x = k \<or> fst x \<in> fst ` set m" for x
    using set_bt_insert_keys [of k v m] by (metis image_eqI insertE)
  then have "fst e < k \<Longrightarrow> \<forall>x\<in>set (bt_insert k v m). fst e < fst x"
    using Cons.prems by fastforce
  with Cons show ?case by (auto simp: not_less_iff_gr_or_eq)
qed simp

lemma bt_get_not_key: "k \<notin> fst ` set m \<Longrightarrow> bt_get m k = None"
  by (induction m) auto

lemma bt_get_insert: "bt_get (bt_insert k v m) k' = (if k' = k then Some v else bt_get m k')"
  by (induction m) auto

lemma bt_get_remove: "bt_get (bt_remove k m) k' = (if k' = k then None else bt_get m k')"
  by (induction m) (auto simp: bt_remove_def)

lemma bt_wf_remove: "bt_wf m \<Longrightarrow> bt_wf (bt_remove k m)"
  by (induction m) (auto simp: bt_remove_def)

lemma bt_entries_get: "bt_wf m \<Longrightarrow> (k, v) \<in> set m \<longleftrightarrow> bt_get m k = Some v"
  by (simp add: bt_get_def bt_wf_def strict_sorted_distinct)

interpretation bt: ordered_map bt_wf "[]" bt_get bt_insert bt_remove "\<lambda>m. m"
  by unfold_locales
    (auto simp: bt_wf_insert bt_wf_remove bt_get_insert bt_get_remove bt_entries_get
      bt_wf_def [symmetric])

lemmas bt_simps [simp] = bt_wf_insert bt_wf_remove bt_get_insert bt_get_remove

section \<open>Derived map operations\<close>

lemma bt_values_get: "bt_wf m \<Longrightarrow> v \<in> set (bt_values m) \<longleftrightarrow> (\<exists>k. bt_get m k = Some v)"
  by (simp add: bt_values_def bt.values_get)

lemma bt_keys_get: "bt_wf m \<Longrightarrow> k \<in> set (bt_keys m) \<longleftrightarrow> bt_get m k \<noteq> None"
  by (simp only: bt_keys_def set_map bt.keys_get)

lemma bt_get_map_values [simp]: "bt_get (bt_map_values f m) k = map_option f (bt_get m k)"
  by (induction m) (auto simp: bt_map_values_def)

lemma bt_keys_map_values [simp]: "bt_keys (bt_map_values f m) = bt_keys m"
  by (simp add: bt_keys_def bt_map_values_def)

lemma bt_wf_keys: "bt_wf m \<longleftrightarrow> sorted_wrt (<) (bt_keys m)"
  by (simp add: bt_wf_def bt_keys_def)

lemma bt_wf_map_values [simp]: "bt_wf (bt_map_values f m) \<longleftrightarrow> bt_wf m"
  by (simp add: bt_wf_keys)

lemma bt_values_map_values [simp]: "bt_values (bt_map_values f m) = map f (bt_values m)"
  by (simp add: bt_values_def bt_map_values_def)

lemma length_bt_map_values [simp]: "length (bt_map_values f m) = length m"
  by (simp add: bt_map_values_def)

lemma bt_wf_entry [simp]: "bt_wf m \<Longrightarrow> bt_wf (bt_entry k d f m)"
  by (simp add: bt_entry_def)

lemma bt_get_entry [simp]:
  "bt_get (bt_entry k d f m) k' =
     (if k' = k then Some (f (case bt_get m k of None \<Rightarrow> d | Some v \<Rightarrow> v)) else bt_get m k')"
  by (simp add: bt_entry_def)

lemma bt_ext: "bt_wf m \<Longrightarrow> bt_wf m' \<Longrightarrow> (\<And>k. bt_get m k = bt_get m' k) \<Longrightarrow> m = m'"
  by (rule bt.entries_ext)

lemma bt_insert_same_keys: "bt_wf m \<Longrightarrow> bt_get m k \<noteq> None \<Longrightarrow> bt_keys (bt_insert k v m) = bt_keys m"
  by (rule strict_sorted_unique)
    (auto simp: bt_wf_keys [symmetric] bt_keys_get split: if_splits)

section \<open>Sets\<close>

locale ordered_set =
  fixes wf :: "'s \<Rightarrow> bool"
    and empty :: 's
    and insert :: "'k::linorder \<Rightarrow> 's \<Rightarrow> 's"
    and elements :: "'s \<Rightarrow> 'k list"
  assumes set_wf_empty: "wf empty"
    and set_wf_insert: "wf s \<Longrightarrow> wf (insert k s)"
    and elements_empty: "elements empty = []"
    and elements_insert: "wf s \<Longrightarrow> set (elements (insert k s)) = Set.insert k (set (elements s))"
    and elements_sorted: "wf s \<Longrightarrow> sorted_wrt (<) (elements s)"
begin

lemma elements_distinct: "wf s \<Longrightarrow> distinct (elements s)"
  by (rule strict_sorted_distinct [OF elements_sorted])

lemma elements_ext:
  "wf s \<Longrightarrow> wf s' \<Longrightarrow> set (elements s) = set (elements s') \<Longrightarrow> elements s = elements s'"
  by (rule strict_sorted_unique) (auto intro: elements_sorted)

end

lemma set_bs_insert [simp]: "set (bs_insert k s) = insert k (set s)"
  by (induction s) auto

lemma bs_wf_insert [simp]: "bs_wf s \<Longrightarrow> bs_wf (bs_insert k s)"
  by (induction s) (auto simp: bs_wf_def)

interpretation bs: ordered_set bs_wf "[]" bs_insert "\<lambda>s. s"
  by unfold_locales (auto simp: bs_wf_def [symmetric], auto simp: bs_wf_def)

lemma bs_wf_Nil [simp]: "bs_wf []"
  by (rule bs.set_wf_empty)

lemma bs_wf_filter [simp]: "bs_wf s \<Longrightarrow> bs_wf (filter P s)"
  by (simp add: bs_wf_def sorted_wrt_filter)

lemma filter_bs_insert:
  assumes "bs_wf s"
  shows "filter P (bs_insert k s) = (if P k then bs_insert k (filter P s) else filter P s)"
  using assms by (intro bs.elements_ext) auto

lemma bt_keys_insert: "bt_wf m \<Longrightarrow> bt_keys (bt_insert k v m) = bs_insert k (bt_keys m)"
  by (rule bs.elements_ext) (auto simp: bs_wf_def bt_wf_keys [symmetric] bt_keys_get split: if_splits,
      auto simp: bs_wf_def [symmetric] bt_wf_keys)

end
