(* ===== verification/Promise_Tree.thy ===== *)
theory Promise_Tree
  imports Paths Ordered_Map
begin

text \<open>
  Promise nodes, trees and the tree builder of \<open>crates/fuse-promise-runtime/src/lib.rs\<close>
  (\<open>PromiseNode\<close>, \<open>PromiseTree\<close>, \<open>PromiseBuilder\<close>). The invariant \<open>shape_wf\<close> says
  that the node map is a directory tree: normal keys, a root directory, every other node in
  an existing directory, and the child index equal to what the node map determines. The
  builder establishes and keeps it; on such a tree the recursive subtree listing returns
  every node below its root exactly once, parents before their children.
\<close>

section \<open>Data\<close>

record PromiseNode =
  node_id :: NodeId
  node_inode :: u64
  node_relative_path :: string
  node_parent_path :: "string option"
  node_name :: string
  node_provider_node_id :: string
  node_materialized_path :: "string option"
  node_kind :: NodeKind
  node_attr :: NodeAttr

record PromiseTree =
  tree_promise_id :: string
  tree_provider_id :: ProviderId
  tree_state :: PromiseState
  tree_nodes :: "(string, PromiseNode) btree_map"
  tree_children :: "(string, string btree_set) btree_map"

record PromiseBuilder =
  builder_provider_id :: ProviderId
  builder_next_node_id :: u64
  builder_next_inode :: u64
  builder_nodes :: "(string, PromiseNode) btree_map"
  builder_children :: "(string, string btree_set) btree_map"

section \<open>Trees\<close>

definition tree_get :: "PromiseTree \<Rightarrow> string \<Rightarrow> PromiseNode option" where
  "tree_get t relative_path =
     (case normalize_relative_path relative_path of
        Inl _ \<Rightarrow> None
      | Inr path \<Rightarrow> bt_get (tree_nodes t) path)"

text \<open>The recursion of \<open>collect_subtree_nodes\<close>, with the collected nodes passed along.
  The first argument bounds its depth; \<open>None\<close> means that the bound was too small.\<close>

fun collect_subtree_nodes ::
    "nat \<Rightarrow> PromiseTree \<Rightarrow> string \<Rightarrow> PromiseNode list \<Rightarrow> PromiseNode list result option"
  and collect_children ::
    "nat \<Rightarrow> PromiseTree \<Rightarrow> string list \<Rightarrow> PromiseNode list \<Rightarrow> PromiseNode list result option" where
  "collect_subtree_nodes 0 t relative_path nodes = None"
| "collect_subtree_nodes (Suc fuel) t relative_path nodes =
     (case bt_get (tree_nodes t) relative_path of
        None \<Rightarrow> Some (Inl Status.NotFound)
      | Some node \<Rightarrow>
          if node_kind node = Directory
          then (case bt_get (tree_children t) relative_path of
                  None \<Rightarrow> Some (Inl Status.NotFound)
                | Some cs \<Rightarrow> collect_children fuel t cs (nodes @ [node]))
          else Some (Inr (nodes @ [node])))"
| "collect_children fuel t [] nodes = Some (Inr nodes)"
| "collect_children fuel t (child # cs) nodes =
     (case collect_subtree_nodes fuel t child nodes of
        None \<Rightarrow> None
      | Some (Inl e) \<Rightarrow> Some (Inl e)
      | Some (Inr nodes') \<Rightarrow> collect_children fuel t cs nodes')"

definition subtree_nodes :: "nat \<Rightarrow> PromiseTree \<Rightarrow> string \<Rightarrow> PromiseNode list result option" where
  "subtree_nodes fuel t relative_path =
     (case normalize_relative_path relative_path of
        Inl e \<Rightarrow> Some (Inl e)
      | Inr root_path \<Rightarrow>
          if bt_get (tree_nodes t) root_path = None then Some (Inl Status.NotFound)
          else collect_subtree_nodes fuel t root_path [])"

section \<open>The builder\<close>

definition builder_new :: "ProviderId \<Rightarrow> PromiseBuilder" where
  "builder_new provider_id =
     \<lparr>builder_provider_id = provider_id, builder_next_node_id = 2, builder_next_inode = 2,
      builder_nodes = bt_insert []
        \<lparr>node_id = 1, node_inode = 1, node_relative_path = [], node_parent_path = None,
         node_name = [], node_provider_node_id = [], node_materialized_path = None,
         node_kind = Directory, node_attr = node_attr_new 493 0 0\<rparr> [],
      builder_children = bt_insert [] [] []\<rparr>"

text \<open>The checks of \<open>add_node\<close>, in order; the result is the normalised path.\<close>

definition add_node_check :: "PromiseBuilder \<Rightarrow> string \<Rightarrow> NodeAttr \<Rightarrow> string \<Rightarrow> NodeKind \<Rightarrow> string result" where
  "add_node_check b relative_path attr provider_node_id kind =
     res_bind (fail_if (provider_node_id = []) Status.InvalidArgument) (\<lambda>_.
     res_bind (validate_attr kind attr) (\<lambda>_.
     res_bind (normalize_relative_path relative_path) (\<lambda>path.
     res_bind (fail_if (path = []) Status.InvalidArgument) (\<lambda>_.
     res_bind (fail_if (bt_get (builder_nodes b) path \<noteq> None) Status.AlreadyExists) (\<lambda>_.
     res_bind (ok_or (bt_get (builder_nodes b) (parent_path path)) Status.NotFound) (\<lambda>parent_node.
     res_bind (fail_if (node_kind parent_node \<noteq> Directory) Status.InvalidArgument) (\<lambda>_.
     Inr path)))))))"

definition builder_node :: "PromiseBuilder \<Rightarrow> string \<Rightarrow> NodeAttr \<Rightarrow> string \<Rightarrow> NodeKind \<Rightarrow> PromiseNode" where
  "builder_node b path attr provider_node_id kind =
     \<lparr>node_id = builder_next_node_id b, node_inode = builder_next_inode b,
      node_relative_path = path, node_parent_path = Some (parent_path path),
      node_name = leaf_name path, node_provider_node_id = provider_node_id,
      node_materialized_path = None, node_kind = kind, node_attr = attr\<rparr>"

definition builder_add_node ::
    "PromiseBuilder \<Rightarrow> string \<Rightarrow> NodeAttr \<Rightarrow> string \<Rightarrow> NodeKind \<Rightarrow> PromiseBuilder \<times> unit result" where
  "builder_add_node b relative_path attr provider_node_id kind =
     (case add_node_check b relative_path attr provider_node_id kind of
        Inl e \<Rightarrow> (b, Inl e)
      | Inr path \<Rightarrow>
          (let node = builder_node b path attr provider_node_id kind;
               children = bt_entry (parent_path path) [] (bs_insert path) (builder_children b) in
           (b\<lparr>builder_next_node_id := builder_next_node_id b + 1,
              builder_next_inode := builder_next_inode b + 1,
              builder_nodes := bt_insert path node (builder_nodes b),
              builder_children :=
                (if kind = Directory then bt_entry path [] (\<lambda>s. s) children else children)\<rparr>,
            Inr ())))"

definition builder_add_dir :: "PromiseBuilder \<Rightarrow> string \<Rightarrow> NodeAttr \<Rightarrow> string \<Rightarrow> PromiseBuilder \<times> unit result" where
  "builder_add_dir b relative_path attr provider_node_id =
     builder_add_node b relative_path attr provider_node_id Directory"

definition builder_add_file :: "PromiseBuilder \<Rightarrow> string \<Rightarrow> NodeAttr \<Rightarrow> string \<Rightarrow> PromiseBuilder \<times> unit result" where
  "builder_add_file b relative_path attr provider_node_id =
     builder_add_node b relative_path attr provider_node_id File"

definition builder_finish :: "PromiseBuilder \<Rightarrow> string \<Rightarrow> PromiseTree" where
  "builder_finish b promise_id =
     \<lparr>tree_promise_id = promise_id, tree_provider_id = builder_provider_id b,
      tree_state = Available, tree_nodes = builder_nodes b, tree_children = builder_children b\<rparr>"

section \<open>The shape invariant\<close>

definition is_dir :: "(string, PromiseNode) btree_map \<Rightarrow> string \<Rightarrow> bool" where
  "is_dir nodes p \<longleftrightarrow> (case bt_get nodes p of None \<Rightarrow> False | Some n \<Rightarrow> node_kind n = Directory)"

text \<open>The children of \<open>p\<close>, as the keys of the node map determine them.\<close>

definition child_keys :: "(string, PromiseNode) btree_map \<Rightarrow> string \<Rightarrow> string list" where
  "child_keys nodes p = filter (\<lambda>q. q \<noteq> [] \<and> parent_path q = p) (bt_keys nodes)"

definition node_ok :: "(string, PromiseNode) btree_map \<Rightarrow> string \<Rightarrow> PromiseNode \<Rightarrow> bool" where
  "node_ok nodes p n \<longleftrightarrow>
     normal_path p \<and> node_relative_path n = p \<and> node_name n = leaf_name p \<and>
     node_parent_path n = (if p = [] then None else Some (parent_path p)) \<and>
     validate_attr (node_kind n) (node_attr n) = Inr () \<and>
     (p \<noteq> [] \<longrightarrow> node_provider_node_id n \<noteq> [] \<and> is_dir nodes (parent_path p))"

definition shape_wf :: "(string, PromiseNode) btree_map \<Rightarrow> (string, string btree_set) btree_map \<Rightarrow> bool" where
  "shape_wf nodes children \<longleftrightarrow>
     bt_wf nodes \<and> bt_wf children \<and> is_dir nodes [] \<and>
     (\<forall>e\<in>set nodes. node_ok nodes (fst e) (snd e)) \<and>
     bt_keys children = filter (is_dir nodes) (bt_keys nodes) \<and>
     (\<forall>e\<in>set children. snd e = child_keys nodes (fst e))"

definition tree_wf :: "PromiseTree \<Rightarrow> bool" where
  "tree_wf t \<longleftrightarrow> shape_wf (tree_nodes t) (tree_children t)"

definition builder_wf :: "PromiseBuilder \<Rightarrow> bool" where
  "builder_wf b \<longleftrightarrow> shape_wf (builder_nodes b) (builder_children b)"

lemma is_dir_key: "is_dir nodes p \<Longrightarrow> \<exists>n. bt_get nodes p = Some n"
  by (auto simp: is_dir_def split: option.splits)

lemma shape_wf_iff:
  "shape_wf nodes children \<longleftrightarrow>
     bt_wf nodes \<and> bt_wf children \<and> is_dir nodes [] \<and>
     (\<forall>p n. bt_get nodes p = Some n \<longrightarrow> node_ok nodes p n) \<and>
     (\<forall>p. bt_get children p = (if is_dir nodes p then Some (child_keys nodes p) else None))"
  (is "?l \<longleftrightarrow> ?r")
proof
  assume l: ?l
  then have wf: "bt_wf nodes" "bt_wf children" by (auto simp: shape_wf_def)
  have "node_ok nodes p n" if "bt_get nodes p = Some n" for p n
    using l that bt_entries_get [OF wf(1), of p n] by (auto simp: shape_wf_def)
  moreover have "bt_get children p = (if is_dir nodes p then Some (child_keys nodes p) else None)" for p
  proof -
    have "bt_get children p \<noteq> None \<longleftrightarrow> is_dir nodes p"
      using bt_keys_get [OF wf(2), of p] bt_keys_get [OF wf(1), of p] l
      by (auto simp: shape_wf_def is_dir_def split: option.splits)
    moreover have "cs = child_keys nodes p" if "bt_get children p = Some cs" for cs
      using l that bt_entries_get [OF wf(2), of p cs] by (auto simp: shape_wf_def)
    ultimately show ?thesis by (cases "bt_get children p") auto
  qed
  ultimately show ?r using l by (auto simp: shape_wf_def)
next
  assume r: ?r
  then have wf: "bt_wf nodes" "bt_wf children"
    and kids: "\<And>p. bt_get children p = (if is_dir nodes p then Some (child_keys nodes p) else None)" by auto
  have "bt_keys children = filter (is_dir nodes) (bt_keys nodes)"
  proof (rule strict_sorted_unique)
    show "sorted_wrt (<) (bt_keys children)" using wf(2) by (simp add: bt_wf_keys)
    show "sorted_wrt (<) (filter (is_dir nodes) (bt_keys nodes))"
      using wf(1) by (simp add: bt_wf_keys sorted_wrt_filter)
    show "set (bt_keys children) = set (filter (is_dir nodes) (bt_keys nodes))"
      using is_dir_key by (auto simp: bt_keys_get wf kids split: if_splits)
  qed
  moreover have "\<forall>e\<in>set nodes. node_ok nodes (fst e) (snd e)"
    using r by (auto simp: bt_entries_get)
  moreover have "\<forall>e\<in>set children. snd e = child_keys nodes (fst e)"
    using wf(2) by (auto simp: bt_entries_get kids split: if_splits)
  ultimately show ?l using r by (simp add: shape_wf_def)
qed

lemma shape_wfD:
  assumes "shape_wf nodes children"
  shows "bt_wf nodes" and "bt_wf children" and "is_dir nodes []"
    and "\<And>p n. bt_get nodes p = Some n \<Longrightarrow> node_ok nodes p n"
    and "\<And>p. bt_get children p = (if is_dir nodes p then Some (child_keys nodes p) else None)"
  using assms by (auto simp: shape_wf_iff)

section \<open>The builder keeps the invariant\<close>

lemma add_node_check_Inr:
  "add_node_check b relative_path attr provider_node_id kind = Inr path \<longleftrightarrow>
     provider_node_id \<noteq> [] \<and> validate_attr kind attr = Inr () \<and>
     normalize_relative_path relative_path = Inr path \<and> path \<noteq> [] \<and>
     bt_get (builder_nodes b) path = None \<and> is_dir (builder_nodes b) (parent_path path)"
  by (auto simp: add_node_check_def outcome_simps is_dir_def split: option.splits)

lemma builder_node_simps [simp]:
  "node_relative_path (builder_node b path attr pnid kind) = path"
  "node_parent_path (builder_node b path attr pnid kind) = Some (parent_path path)"
  "node_name (builder_node b path attr pnid kind) = leaf_name path"
  "node_provider_node_id (builder_node b path attr pnid kind) = pnid"
  "node_materialized_path (builder_node b path attr pnid kind) = None"
  "node_kind (builder_node b path attr pnid kind) = kind"
  "node_attr (builder_node b path attr pnid kind) = attr"
  by (simp_all add: builder_node_def)

lemma builder_new_wf: "builder_wf (builder_new provider_id)"
  by (simp add: builder_wf_def shape_wf_def builder_new_def is_dir_def node_ok_def bt_keys_def
      child_keys_def leaf_name_def rsplit_once_def validate_attr_def node_attr_new_def)

lemma is_dir_insert:
  "is_dir (bt_insert p n nodes) q = (if q = p then node_kind n = Directory else is_dir nodes q)"
  by (simp add: is_dir_def)

lemma child_keys_insert:
  assumes "bt_wf nodes" and "p \<noteq> []"
  shows "child_keys (bt_insert p n nodes) q =
    (if parent_path p = q then bs_insert p (child_keys nodes q) else child_keys nodes q)"
  using assms by (simp add: child_keys_def bt_keys_insert filter_bs_insert bs_wf_def bt_wf_keys)

lemma child_keys_set:
  "bt_wf nodes \<Longrightarrow> q \<in> set (child_keys nodes p) \<longleftrightarrow> q \<noteq> [] \<and> parent_path q = p \<and> bt_get nodes q \<noteq> None"
  using bt_keys_get [of nodes q] by (auto simp: child_keys_def)

lemma child_keys_no_dir:
  assumes "shape_wf nodes children" and "\<not> is_dir nodes p"
  shows "child_keys nodes p = []"
proof -
  have "q \<notin> set (child_keys nodes p)" for q
    using assms shape_wfD(1,4) [OF assms(1)] by (auto simp: child_keys_set node_ok_def)
  then show ?thesis by (cases "child_keys nodes p") auto
qed

lemma shape_wf_insert:
  assumes wf: "shape_wf nodes children" and fresh: "bt_get nodes p = None" and p: "p \<noteq> []" "normal_path p"
    and par: "is_dir nodes (parent_path p)"
    and n: "node_relative_path n = p" "node_name n = leaf_name p" "node_parent_path n = Some (parent_path p)"
      "validate_attr (node_kind n) (node_attr n) = Inr ()" "node_provider_node_id n \<noteq> []"
  defines "children' \<equiv> bt_entry (parent_path p) [] (bs_insert p) children"
  shows "shape_wf (bt_insert p n nodes)
    (if node_kind n = Directory then bt_entry p [] (\<lambda>s. s) children' else children')"
    (is "shape_wf ?nodes ?children")
proof -
  note d = shape_wfD [OF wf]
  have np: "parent_path p \<noteq> p" using parent_path_less [OF p(2,1)] by simp
  have not_dir: "\<not> is_dir nodes p" using fresh by (simp add: is_dir_def)
  have up: "is_dir nodes q \<Longrightarrow> is_dir ?nodes q" for q using not_dir by (auto simp: is_dir_insert)
  have "node_ok ?nodes q m" if "bt_get ?nodes q = Some m" for q m
    using that d(4) [of q m] up par n p
    by (auto simp: node_ok_def split: if_splits)
  moreover have "bt_get ?children q = (if is_dir ?nodes q then Some (child_keys ?nodes q) else None)" for q
  proof -
    have c': "bt_get children' q = (if q = parent_path p then Some (bs_insert p (child_keys nodes q))
        else if is_dir nodes q then Some (child_keys nodes q) else None)"
      using par by (simp add: children'_def d(5))
    show ?thesis
      using np not_dir par child_keys_no_dir [OF wf not_dir]
      by (auto simp: c' is_dir_insert child_keys_insert [OF d(1) p(1)] children'_def d(5))
  qed
  ultimately show ?thesis
    using d(1,2,3) p(1) not_dir by (auto simp: shape_wf_iff children'_def is_dir_insert)
qed

theorem builder_add_node_wf:
  assumes "builder_wf b"
  shows "builder_wf (fst (builder_add_node b relative_path attr provider_node_id kind))"
proof (cases "add_node_check b relative_path attr provider_node_id kind")
  case (Inl e)
  with assms show ?thesis by (simp add: builder_add_node_def)
next
  case (Inr path)
  then have "shape_wf (builder_nodes b) (builder_children b)" "bt_get (builder_nodes b) path = None"
    "path \<noteq> []" "normal_path path" "is_dir (builder_nodes b) (parent_path path)"
    "validate_attr kind attr = Inr ()" "provider_node_id \<noteq> []"
    using assms by (auto simp: add_node_check_Inr builder_wf_def intro: normalize_normal_path)
  from shape_wf_insert [OF this(1-5), of "builder_node b path attr provider_node_id kind"] this(6,7)
  show ?thesis
    by (simp add: builder_wf_def builder_add_node_def Inr Let_def split del: if_split)
qed

lemma builder_finish_wf: "tree_wf (builder_finish b promise_id) \<longleftrightarrow> builder_wf b"
  by (simp add: tree_wf_def builder_wf_def builder_finish_def)

section \<open>Subtrees\<close>

text \<open>The components of a normal path, and when one path lies at or below another.\<close>

definition path_parts :: "string \<Rightarrow> string list" where
  "path_parts p = (if p = [] then [] else split_on CHR ''/'' p)"

definition path_under :: "string \<Rightarrow> string \<Rightarrow> bool" where
  "path_under root p \<longleftrightarrow> prefix (path_parts root) (path_parts p)"

lemma path_parts_join: "normal_parts ps \<Longrightarrow> path_parts (join_slash ps) = ps"
  using join_slash_eq_Nil [of ps] split_join_slash [of ps]
  by (auto simp: path_parts_def list_all_iff normal_part_def)

lemma join_path_parts [simp]: "join_slash (path_parts p) = p"
  by (simp add: path_parts_def join_split_slash)

lemma path_parts_inj [simp]: "path_parts p = path_parts q \<longleftrightarrow> p = q"
  by (metis join_path_parts)

lemma path_parts_Nil [simp]: "path_parts [] = []"
  by (simp add: path_parts_def)

lemma path_parts_eq_Nil [simp]: "path_parts p = [] \<longleftrightarrow> p = []"
  by (metis path_parts_inj path_parts_Nil)

lemma path_parts_normal: "normal_path p \<Longrightarrow> normal_parts (path_parts p)"
  by (auto simp: normal_path_iff path_parts_join)

lemma path_parts_parent:
  "normal_path p \<Longrightarrow> p \<noteq> [] \<Longrightarrow> path_parts p = path_parts (parent_path p) @ [leaf_name p]"
  by (erule normal_path_cases) (auto simp: parent_leaf_join path_parts_join)

lemma path_under_refl [simp]: "path_under p p"
  by (simp add: path_under_def)

lemma path_under_Nil [simp]: "path_under [] p"
  by (simp add: path_under_def)

lemma path_under_parent:
  "normal_path p \<Longrightarrow> p \<noteq> [] \<Longrightarrow> path_under r p \<longleftrightarrow> r = p \<or> path_under r (parent_path p)"
proof -
  assume p: "normal_path p" "p \<noteq> []"
  then have "path_under r p \<longleftrightarrow>
      path_parts r = path_parts (parent_path p) @ [leaf_name p] \<or> path_under r (parent_path p)"
    by (simp add: path_under_def path_parts_parent)
  with p show ?thesis by (simp add: path_parts_parent [symmetric])
qed

text \<open>Everything below a directory of the tree is below exactly one of its children.\<close>

lemma path_under_children:
  assumes wf: "shape_wf nodes children" and "bt_get nodes q = Some n" and "path_under p q" and "p \<noteq> q"
    and "normal_path p"
  shows "\<exists>c\<in>set (child_keys nodes p). path_under c q"
  using assms(2-4)
proof (induction "length q" arbitrary: q n rule: less_induct)
  case less
  note d = shape_wfD [OF wf]
  have ok: "normal_path q" "q \<noteq> [] \<Longrightarrow> is_dir nodes (parent_path q)"
    using d(4) [OF less.prems(1)] by (auto simp: node_ok_def)
  have ne: "q \<noteq> []" using less.prems(2,3) by (auto simp: path_under_def)
  obtain m where m: "bt_get nodes (parent_path q) = Some m" using is_dir_key ok(2) ne by blast
  have up: "path_under p (parent_path q)" using less.prems path_under_parent [OF ok(1) ne] by simp
  show ?case
  proof (cases "p = parent_path q")
    case True
    with ne d(1) less.prems(1) have "q \<in> set (child_keys nodes p)" by (simp add: child_keys_set)
    then show ?thesis by (rule bexI [rotated]) simp
  next
    case False
    from less.hyps [OF parent_path_shorter [OF ne ok(1)] m up False]
    show ?thesis using path_under_parent [OF ok(1) ne] by auto
  qed
qed

lemma child_under:
  "normal_path c \<Longrightarrow> c \<noteq> [] \<Longrightarrow> path_under c q \<Longrightarrow> path_under (parent_path c) q"
  by (auto simp: path_under_def path_parts_parent dest: append_prefixD)

lemma child_not_under: "normal_path c \<Longrightarrow> c \<noteq> [] \<Longrightarrow> \<not> path_under c (parent_path c)"
  by (auto simp: path_under_def path_parts_parent dest: prefix_length_le)

lemma siblings_disjoint:
  assumes "normal_path c" "c \<noteq> []" "normal_path c'" "c' \<noteq> []" "parent_path c = parent_path c'"
    and "path_under c q" "path_under c' q"
  shows "c = c'"
proof -
  have "length (path_parts c) = length (path_parts c')" using assms by (simp add: path_parts_parent)
  with assms(6,7) have "path_parts c = path_parts c'"
    unfolding path_under_def by (metis prefix_length_prefix prefix_order.antisym order_refl)
  then show ?thesis by simp
qed

text \<open>Every node comes after its parent, except those whose path is in \<open>roots\<close>.\<close>

fun parents_first :: "string set \<Rightarrow> string set \<Rightarrow> PromiseNode list \<Rightarrow> bool" where
  "parents_first roots seen [] = True"
| "parents_first roots seen (n # ns) \<longleftrightarrow>
     (node_relative_path n \<in> roots \<or> parent_path (node_relative_path n) \<in> seen) \<and>
     parents_first roots (insert (node_relative_path n) seen) ns"

text \<open>A list of the nodes at or below \<open>roots\<close>: all of them, once each, parents first.\<close>

definition subtree_listing :: "PromiseTree \<Rightarrow> string list \<Rightarrow> PromiseNode list \<Rightarrow> bool" where
  "subtree_listing t roots ns \<longleftrightarrow>
     (\<forall>n\<in>set ns. bt_get (tree_nodes t) (node_relative_path n) = Some n) \<and>
     distinct (map node_relative_path ns) \<and>
     node_relative_path ` set ns = {q. bt_get (tree_nodes t) q \<noteq> None \<and> (\<exists>r\<in>set roots. path_under r q)} \<and>
     parents_first (set roots) {} ns"

definition subtree_fuel :: "PromiseTree \<Rightarrow> nat" where
  "subtree_fuel t = Suc (foldr max (map length (bt_keys (tree_nodes t))) 0)"

lemma parents_first_append:
  "parents_first R S (xs @ ys) \<longleftrightarrow>
     parents_first R S xs \<and> parents_first R (S \<union> node_relative_path ` set xs) ys"
  by (induction xs arbitrary: S) (auto simp: insert_commute)

lemma parents_first_mono:
  "parents_first R S ns \<Longrightarrow> R \<subseteq> R' \<union> {q. parent_path q \<in> S'} \<Longrightarrow> S \<subseteq> S' \<Longrightarrow> parents_first R' S' ns"
proof (induction ns arbitrary: S S')
  case (Cons n ns)
  have "parents_first R' (insert (node_relative_path n) S') ns"
    by (rule Cons.IH [of "insert (node_relative_path n) S"]) (use Cons.prems in auto)
  with Cons.prems show ?case by auto
qed simp

lemma collect_children_listing:
  assumes rec: "\<And>c nodes. c \<in> set cs \<Longrightarrow>
      \<exists>ns. collect_subtree_nodes fuel t c nodes = Some (Inr (nodes @ ns)) \<and> subtree_listing t [c] ns"
    and sib: "\<And>c. c \<in> set cs \<Longrightarrow> normal_path c \<and> c \<noteq> [] \<and> parent_path c = p" and "distinct cs"
  shows "\<exists>ns. collect_children fuel t cs nodes = Some (Inr (nodes @ ns)) \<and> subtree_listing t cs ns"
  using assms
proof (induction cs arbitrary: nodes)
  case Nil
  then show ?case by (simp add: subtree_listing_def)
next
  case (Cons c cs)
  from Cons.prems(1) [of c nodes] obtain xs where
    xs: "collect_subtree_nodes fuel t c nodes = Some (Inr (nodes @ xs))" "subtree_listing t [c] xs" by auto
  from Cons.IH [of "nodes @ xs"] Cons.prems obtain ys where
    ys: "collect_children fuel t cs (nodes @ xs) = Some (Inr (nodes @ xs @ ys))" "subtree_listing t cs ys" by auto
  have "\<not> path_under c' q" if "path_under c q" "c' \<in> set cs" for c' q
    using siblings_disjoint [of c c' q] Cons.prems(2) [of c] Cons.prems(2) [of c'] Cons.prems(3) that by auto
  then have disj: "node_relative_path ` set xs \<inter> node_relative_path ` set ys = {}"
    using xs(2) ys(2) by (auto simp: subtree_listing_def)
  have "parents_first (set (c # cs)) {} (xs @ ys)"
    unfolding parents_first_append
    using parents_first_mono [of "set [c]" "{}" xs "set (c # cs)" "{}"]
      parents_first_mono [of "set cs" "{}" ys "set (c # cs)" "{} \<union> node_relative_path ` set xs"] xs(2) ys(2)
    by (auto simp: subtree_listing_def)
  moreover have "node_relative_path ` set (xs @ ys) =
      {q. bt_get (tree_nodes t) q \<noteq> None \<and> (\<exists>r\<in>set (c # cs). path_under r q)}"
    using xs(2) ys(2) unfolding subtree_listing_def set_append image_Un by auto
  ultimately have "subtree_listing t (c # cs) (xs @ ys)"
    using xs(2) ys(2) disj by (auto simp: subtree_listing_def)
  with xs(1) ys(1) show ?case by auto
qed

lemma subtree_listing_dir:
  assumes "tree_wf t" and "bt_get (tree_nodes t) p = Some n"
    and ns: "subtree_listing t (child_keys (tree_nodes t) p) ns"
  shows "subtree_listing t [p] (n # ns)"
proof -
  note wf = assms(1) [unfolded tree_wf_def] and d = shape_wfD [OF assms(1) [unfolded tree_wf_def]]
  have n: "node_relative_path n = p" "normal_path p" using d(4) [OF assms(2)] by (auto simp: node_ok_def)
  have kid: "normal_path c \<and> c \<noteq> [] \<and> parent_path c = p" if "c \<in> set (child_keys (tree_nodes t) p)" for c
    using that d(1,4) by (auto simp: child_keys_set node_ok_def)
  have "p \<notin> node_relative_path ` set ns"
    using ns kid child_not_under by (force simp: subtree_listing_def)
  moreover have "node_relative_path ` set (n # ns) =
      {q. bt_get (tree_nodes t) q \<noteq> None \<and> (\<exists>r\<in>set [p]. path_under r q)}" (is "?l = ?r")
  proof (rule set_eqI)
    fix q
    have "q \<in> ?l \<longleftrightarrow> q = p \<or> (bt_get (tree_nodes t) q \<noteq> None \<and> (\<exists>c\<in>set (child_keys (tree_nodes t) p). path_under c q))"
      using ns n(1) by (simp add: subtree_listing_def)
    also have "\<dots> \<longleftrightarrow> q \<in> ?r"
      using path_under_children [OF wf, of q _ p] kid child_under n(2) assms(2) by (auto, metis)
    finally show "q \<in> ?l \<longleftrightarrow> q \<in> ?r" .
  qed
  moreover have "parents_first {p} {p} ns"
    using ns kid parents_first_mono [of "set (child_keys (tree_nodes t) p)" "{}" ns "{p}" "{p}"]
    by (auto simp: subtree_listing_def)
  ultimately show ?thesis
    using ns assms(2) n(1) by (simp add: subtree_listing_def)
qed

lemma collect_subtree_nodes_listing:
  assumes "tree_wf t" and "\<And>q. bt_get (tree_nodes t) q \<noteq> None \<Longrightarrow> length q < M"
  shows "bt_get (tree_nodes t) p = Some n \<Longrightarrow> M \<le> fuel + length p \<Longrightarrow>
    \<exists>ns. collect_subtree_nodes fuel t p nodes = Some (Inr (nodes @ ns)) \<and> subtree_listing t [p] ns"
proof (induction fuel arbitrary: p n nodes)
  case 0
  then show ?case using assms(2) [of p] by simp
next
  case (Suc fuel)
  note wf = assms(1) [unfolded tree_wf_def] and d = shape_wfD [OF assms(1) [unfolded tree_wf_def]]
  let ?cs = "child_keys (tree_nodes t) p"
  have kid: "normal_path c \<and> c \<noteq> [] \<and> parent_path c = p \<and> bt_get (tree_nodes t) c \<noteq> None \<and> length p < length c"
    if "c \<in> set ?cs" for c
  proof -
    from that have "c \<noteq> []" "parent_path c = p" "bt_get (tree_nodes t) c \<noteq> None" using d(1) by (auto simp: child_keys_set)
    moreover from this have "normal_path c" using d(4) by (auto simp: node_ok_def)
    ultimately show ?thesis using parent_path_shorter [of c] by auto
  qed
  have "distinct ?cs" using d(1) by (simp add: child_keys_def bt_keys_def bt.entries_distinct)
  moreover have "\<exists>ns. collect_subtree_nodes fuel t c nodes = Some (Inr (nodes @ ns)) \<and> subtree_listing t [c] ns"
    if "c \<in> set ?cs" for c nodes
    using kid [OF that] Suc.prems(2) Suc.IH [of c _ nodes] by force
  ultimately obtain ns where ns: "collect_children fuel t ?cs (nodes @ [n]) = Some (Inr ((nodes @ [n]) @ ns))"
    "subtree_listing t ?cs ns"
    using collect_children_listing [of ?cs fuel t p "nodes @ [n]"] kid by blast
  show ?case
  proof (cases "node_kind n = Directory")
    case True
    then have "bt_get (tree_children t) p = Some ?cs" using Suc.prems(1) d(5) by (simp add: is_dir_def)
    with True Suc.prems(1) ns show ?thesis using subtree_listing_dir [OF assms(1) Suc.prems(1) ns(2)] by auto
  next
    case False
    then have "?cs = []" using Suc.prems(1) child_keys_no_dir [OF wf] by (simp add: is_dir_def)
    then have "subtree_listing t ?cs []" by (simp add: subtree_listing_def)
    from subtree_listing_dir [OF assms(1) Suc.prems(1) this] False Suc.prems(1) show ?thesis by auto
  qed
qed

lemma subtree_fuel_bound: "bt_wf (tree_nodes t) \<Longrightarrow> bt_get (tree_nodes t) q \<noteq> None \<Longrightarrow> length q < subtree_fuel t"
proof -
  have "k \<in> set ks \<Longrightarrow> length k \<le> foldr max (map length ks) 0" for k :: string and ks
    by (induction ks) auto
  moreover assume "bt_wf (tree_nodes t)" "bt_get (tree_nodes t) q \<noteq> None"
  ultimately show ?thesis by (simp add: subtree_fuel_def less_Suc_eq_le bt_keys_get)
qed

theorem subtree_nodes_complete:
  assumes "tree_wf t" and "subtree_fuel t \<le> fuel" and "tree_get t relative_path = Some n"
  shows "\<exists>ns. subtree_nodes fuel t relative_path = Some (Inr ns) \<and> subtree_listing t [node_relative_path n] ns"
proof -
  from assms(3) obtain p where p: "normalize_relative_path relative_path = Inr p" "bt_get (tree_nodes t) p = Some n"
    by (auto simp: tree_get_def split: sum.splits)
  have wf: "bt_wf (tree_nodes t)" and "node_relative_path n = p"
    using assms(1) p(2) shape_wfD by (auto simp: tree_wf_def node_ok_def)
  with collect_subtree_nodes_listing [OF assms(1) subtree_fuel_bound [OF wf] p(2), of fuel "[]"] assms(2) p
  show ?thesis by (auto simp: subtree_nodes_def)
qed

end
