(* ===== verification/Read_Cache.thy ===== *)
theory Read_Cache
  imports Core_Types Ordered_Map
begin

text \<open>
  The read-through cache of \<open>crates/fuse-promise-runtime/src/lib.rs\<close> (\<open>ReadCache\<close>,
  \<open>CachedFile\<close>, \<open>CachedChunk\<close>, \<open>CachedRange\<close>). A cached file is a map from chunk
  bases to chunks, a chunk a sorted list of disjoint byte ranges. The specification is a
  partial map from file offsets to bytes: inserting overrides the map on the inserted range,
  reading returns the bytes of a range exactly when the map is defined on all of it.
\<close>

section \<open>Data\<close>

record CachedRange =
  range_offset :: u64
  range_bytes :: bytes

record CachedChunk =
  chunk_ranges :: "CachedRange list"

record CachedFile =
  file_chunks :: "(u64, CachedChunk) btree_map"

datatype CacheKey = CacheKey (key_promise_id: string) (key_relative_path: string)

text \<open>The derived order: field by field.\<close>

instantiation CacheKey :: linorder
begin

definition less_eq_CacheKey :: "CacheKey \<Rightarrow> CacheKey \<Rightarrow> bool" where
  "less_eq_CacheKey k l \<longleftrightarrow>
     (key_promise_id k, key_relative_path k) \<le> (key_promise_id l, key_relative_path l)"

definition less_CacheKey :: "CacheKey \<Rightarrow> CacheKey \<Rightarrow> bool" where
  "less_CacheKey k l \<longleftrightarrow>
     (key_promise_id k, key_relative_path k) < (key_promise_id l, key_relative_path l)"

instance
  by standard (auto simp: less_eq_CacheKey_def less_CacheKey_def CacheKey.expand)

end

record ReadCache =
  cache_files :: "(CacheKey, CachedFile) btree_map"

definition cached_chunk_default :: CachedChunk where
  "cached_chunk_default = \<lparr>chunk_ranges = []\<rparr>"

definition cached_file_default :: CachedFile where
  "cached_file_default = \<lparr>file_chunks = []\<rparr>"

definition read_cache_default :: ReadCache where
  "read_cache_default = \<lparr>cache_files = []\<rparr>"

section \<open>Ranges and chunks\<close>

definition checked_range_end :: "u64 \<Rightarrow> nat \<Rightarrow> u64 option" where
  "checked_range_end offset len =
     (case u64_try_from len of None \<Rightarrow> None | Some l \<Rightarrow> checked_add offset l)"

definition range_end :: "CachedRange \<Rightarrow> u64 option" where
  "range_end r = checked_range_end (range_offset r) (length (range_bytes r))"

definition chunk_base :: "u64 \<Rightarrow> u32 \<Rightarrow> u64" where
  "chunk_base offset chunk_size = (offset div u64_of_u32 chunk_size) * u64_of_u32 chunk_size"

fun chunk_read_loop :: "CachedRange list \<Rightarrow> u64 \<Rightarrow> u64 \<Rightarrow> bytes option" where
  "chunk_read_loop [] offset end = None"
| "chunk_read_loop (r # rs) offset end =
     (case range_end r of
        None \<Rightarrow> None
      | Some r_end \<Rightarrow>
          if range_offset r \<le> offset \<and> r_end \<ge> end
          then Option.bind (checked_sub offset (range_offset r)) (\<lambda>s.
               Option.bind (usize_try_from s) (\<lambda>start.
               Option.bind (checked_sub end (range_offset r)) (\<lambda>e.
               Option.bind (usize_try_from e) (\<lambda>end'.
               Some (subslice (range_bytes r) start end')))))
          else chunk_read_loop rs offset end)"

definition chunk_read :: "CachedChunk \<Rightarrow> u64 \<Rightarrow> u64 \<Rightarrow> bytes option" where
  "chunk_read c offset len =
     Option.bind (checked_add offset len) (chunk_read_loop (chunk_ranges c) offset)"

text \<open>One round of the merging loop of \<open>CachedChunk::insert\<close>; the state is the merged
  offset, end and bytes, and the ranges retained so far.\<close>

type_synonym merge_state = "u64 \<times> u64 \<times> bytes \<times> CachedRange list"

definition merge_range :: "CachedRange \<Rightarrow> merge_state \<Rightarrow> merge_state" where
  "merge_range r st =
     (case st of (merged_offset, merged_end, merged_bytes, retained) \<Rightarrow>
       (case range_end r of
          None \<Rightarrow> st
        | Some r_end \<Rightarrow>
            if r_end < merged_offset \<or> range_offset r > merged_end
            then (merged_offset, merged_end, merged_bytes, retained @ [r])
            else
              (let next_offset = min merged_offset (range_offset r);
                   next_end = max merged_end r_end in
               case usize_try_from (next_end - next_offset) of
                 None \<Rightarrow> (merged_offset, merged_end, merged_bytes, retained @ [r])
               | Some next_len \<Rightarrow>
                   (let old_start = unat (range_offset r - next_offset);
                        merged_start = unat (merged_offset - next_offset);
                        next_bytes = copy_at (copy_at (replicate next_len 0) old_start (range_bytes r))
                                       merged_start merged_bytes in
                    (next_offset, next_end, next_bytes, retained)))))"

definition chunk_insert :: "CachedChunk \<Rightarrow> u64 \<Rightarrow> bytes \<Rightarrow> CachedChunk" where
  "chunk_insert c offset bytes =
     (if bytes = [] then c
      else case checked_range_end offset (length bytes) of
        None \<Rightarrow> c
      | Some new_end \<Rightarrow>
          (case fold merge_range (chunk_ranges c) (offset, new_end, bytes, []) of
             (merged_offset, merged_end, merged_bytes, retained) \<Rightarrow>
               c\<lparr>chunk_ranges := sort_key range_offset
                   (retained @ [\<lparr>range_offset = merged_offset, range_bytes = merged_bytes\<rparr>])\<rparr>))"

section \<open>Specification\<close>

text \<open>The bytes \<open>bs\<close> placed at \<open>offset\<close>, and the contents of a list of ranges.\<close>

definition bytes_at :: "nat \<Rightarrow> bytes \<Rightarrow> nat \<Rightarrow> u8 option" where
  "bytes_at offset bs = (\<lambda>i. if offset \<le> i \<and> i < offset + length bs then Some (bs ! (i - offset)) else None)"

definition range_abs :: "CachedRange \<Rightarrow> nat \<Rightarrow> u8 option" where
  "range_abs r = bytes_at (unat (range_offset r)) (range_bytes r)"

fun ranges_abs :: "CachedRange list \<Rightarrow> nat \<Rightarrow> u8 option" where
  "ranges_abs [] = Map.empty"
| "ranges_abs (r # rs) = ranges_abs rs ++ range_abs r"

definition chunk_abs :: "CachedChunk \<Rightarrow> nat \<Rightarrow> u8 option" where
  "chunk_abs c = ranges_abs (chunk_ranges c)"

text \<open>Well-formed chunks: nonempty ranges that end within \<open>u64\<close>, in order, with a gap
  between neighbours.\<close>

abbreviation range_lo :: "CachedRange \<Rightarrow> nat" where
  "range_lo r \<equiv> unat (range_offset r)"

abbreviation range_hi :: "CachedRange \<Rightarrow> nat" where
  "range_hi r \<equiv> unat (range_offset r) + length (range_bytes r)"

definition range_wf :: "CachedRange \<Rightarrow> bool" where
  "range_wf r \<longleftrightarrow> range_bytes r \<noteq> [] \<and> range_hi r < 2 ^ 64"

definition ranges_wf :: "CachedRange list \<Rightarrow> bool" where
  "ranges_wf rs \<longleftrightarrow> (\<forall>r\<in>set rs. range_wf r) \<and> sorted_wrt (\<lambda>a b. range_hi a < range_lo b) rs"

definition chunk_wf :: "CachedChunk \<Rightarrow> bool" where
  "chunk_wf c \<longleftrightarrow> ranges_wf (chunk_ranges c)"

section \<open>Reading a chunk\<close>

lemma checked_range_end_Some:
  "checked_range_end offset len = Some e \<longleftrightarrow> unat offset + len < 2 ^ 64 \<and> e = offset + of_nat len"
proof (cases "len < 2 ^ 64")
  case True
  then have "unat (of_nat len :: u64) = len"
    by (simp add: unat_of_nat take_bit_nat_eq_self)
  with True show ?thesis
    by (auto simp: checked_range_end_def u64_try_from_def checked_add_Some)
qed (auto simp: checked_range_end_def u64_try_from_def)

lemma unat_checked_range_end:
  "checked_range_end offset len = Some e \<Longrightarrow> unat e = unat offset + len"
  by (auto simp: checked_range_end_def dest: unat_checked_add unat_u64_try_from split: option.splits)

lemma range_end_wf: "range_wf r \<Longrightarrow> \<exists>e. range_end r = Some e \<and> unat e = range_hi r"
  by (metis checked_range_end_Some range_end_def range_wf_def unat_checked_range_end)

lemma ranges_wf_simps [simp]:
  "ranges_wf []"
  "ranges_wf (r # rs) \<longleftrightarrow> range_wf r \<and> (\<forall>r'\<in>set rs. range_hi r < range_lo r') \<and> ranges_wf rs"
  by (auto simp: ranges_wf_def)

lemma range_abs_dom: "range_abs r i \<noteq> None \<longleftrightarrow> range_lo r \<le> i \<and> i < range_hi r"
  by (auto simp: range_abs_def bytes_at_def)

lemma ranges_abs_Some: "ranges_abs rs i \<noteq> None \<longleftrightarrow> (\<exists>r\<in>set rs. range_lo r \<le> i \<and> i < range_hi r)"
  by (induction rs) (auto simp: map_add_def range_abs_dom split: option.splits,
      auto simp: range_abs_def bytes_at_def split: if_splits)

text \<open>A covering range found by the loop yields exactly the abstract contents.\<close>

lemma chunk_read_loop_sound:
  assumes "ranges_wf rs" and "chunk_read_loop rs offset end = Some bs" and "offset \<le> end"
  shows "length bs = unat end - unat offset \<and>
    (\<forall>i < length bs. ranges_abs rs (unat offset + i) = Some (bs ! i))"
  using assms
proof (induction rs)
  case (Cons r rs)
  from Cons.prems(1) obtain e where e: "range_end r = Some e" "unat e = range_hi r"
    using range_end_wf by auto
  have le: "unat offset \<le> unat end" using Cons.prems(3) by (simp add: word_le_nat_alt)
  show ?case
  proof (cases "range_offset r \<le> offset \<and> end \<le> e")
    case True
    then have cov: "range_lo r \<le> unat offset" "unat end \<le> range_hi r"
      using e by (auto simp: word_le_nat_alt)
    from True Cons.prems(2) e le have bs:
      "bs = subslice (range_bytes r) (unat offset - range_lo r) (unat end - range_lo r)"
      by (auto simp: outcome_simps usize_try_from_def unat_sub bind_eq_Some_conv)
    have len: "length bs = unat end - unat offset"
      using bs cov le by simp
    have "ranges_abs (r # rs) (unat offset + i) = Some (bs ! i)" if "i < length bs" for i
    proof -
      have "unat offset + i < range_hi r" using that len cov by linarith
      with that len cov le show ?thesis
        unfolding bs by (simp add: map_add_def range_abs_def bytes_at_def nth_subslice)
    qed
    with len show ?thesis by blast
  next
    case False
    with Cons.prems(2) e have rd: "chunk_read_loop rs offset end = Some bs" by auto
    with Cons have IH: "length bs = unat end - unat offset"
      "\<And>i. i < length bs \<Longrightarrow> ranges_abs rs (unat offset + i) = Some (bs ! i)" by auto
    have "range_abs r (unat offset + i) = None" if "i < length bs" for i
    proof -
      have "ranges_abs rs (unat offset + i) \<noteq> None" using IH that by simp
      then obtain r' where "r' \<in> set rs" "range_lo r' \<le> unat offset + i"
        unfolding ranges_abs_Some by blast
      with Cons.prems(1) have "range_hi r < unat offset + i" by fastforce
      then show ?thesis by (simp add: range_abs_def bytes_at_def)
    qed
    with IH show ?thesis by (simp add: map_add_def)
  qed
qed simp

text \<open>Neighbouring ranges leave a gap, so a fully cached interval lies in one range.\<close>

lemma covered_by_one_range:
  assumes "ranges_wf rs" and "lo < hi" and "\<And>i. lo \<le> i \<Longrightarrow> i < hi \<Longrightarrow> ranges_abs rs i \<noteq> None"
  shows "\<exists>r\<in>set rs. range_lo r \<le> lo \<and> hi \<le> range_hi r"
  using assms
proof (induction rs)
  case (Cons r rs)
  have in_rs: "ranges_abs rs i \<noteq> None" if "range_hi r \<le> i" "lo \<le> i" "i < hi" for i
  proof -
    have "range_abs r i = None" using that by (simp add: range_abs_def bytes_at_def)
    with Cons.prems(3) [of i] that show ?thesis by (simp add: map_add_def)
  qed
  have right: "range_hi r < i" if "ranges_abs rs i \<noteq> None" for i
    using that Cons.prems(1) unfolding ranges_abs_Some by fastforce
  consider "range_hi r \<le> lo" | "lo < range_hi r" "hi \<le> range_hi r" | "lo < range_hi r" "range_hi r < hi"
    by linarith
  then show ?case
  proof cases
    case 1
    then have "\<exists>r'\<in>set rs. range_lo r' \<le> lo \<and> hi \<le> range_hi r'"
      using Cons.IH Cons.prems in_rs by auto
    then show ?thesis by auto
  next
    case 2
    then have "range_lo r \<le> lo"
      using Cons.prems(2) Cons.prems(3) [of lo] right [of lo] range_abs_dom [of r lo]
      by (auto simp: map_add_def split: option.splits)
    with 2 show ?thesis by auto
  next
    case 3
    then show ?thesis using in_rs [of "range_hi r"] right [of "range_hi r"] by simp
  qed
qed auto

lemma chunk_read_loop_complete:
  assumes "ranges_wf rs" and "r \<in> set rs" and "range_lo r \<le> unat offset" and "unat end \<le> range_hi r"
    and "offset < end"
  shows "\<exists>bs. chunk_read_loop rs offset end = Some bs"
  using assms
proof (induction rs)
  case (Cons r' rs)
  from Cons.prems(1) obtain e where e: "range_end r' = Some e" "unat e = range_hi r'"
    using range_end_wf by auto
  have "range_offset r \<le> offset" using Cons.prems(3) by (simp add: word_le_nat_alt)
  moreover have "r = r' \<Longrightarrow> end \<le> e" using Cons.prems(4) e by (simp add: word_le_nat_alt)
  ultimately show ?case
    using Cons e by (auto simp: usize_try_from_def checked_sub_def)
qed simp

theorem chunk_read_iff:
  assumes "chunk_wf c" and "0 < len" and "unat offset + unat len < 2 ^ 64"
  shows "chunk_read c offset len = Some bs \<longleftrightarrow>
    length bs = unat len \<and> (\<forall>i < length bs. chunk_abs c (unat offset + i) = Some (bs ! i))"
    (is "?read \<longleftrightarrow> ?spec bs")
proof -
  let ?e = "offset + len"
  have e: "unat ?e = unat offset + unat len" using assms(3) by (simp add: unat_add_small)
  have lt: "offset < ?e" using e assms(2) by (simp add: word_less_nat_alt)
  have rd: "chunk_read c offset len = chunk_read_loop (chunk_ranges c) offset ?e"
    using assms(3) by (simp add: chunk_read_def checked_add_def)
  have sound: "?spec bs'" if "chunk_read_loop (chunk_ranges c) offset ?e = Some bs'" for bs'
    using chunk_read_loop_sound [OF _ that] assms(1) lt e
    by (simp add: chunk_wf_def chunk_abs_def)
  show ?thesis
  proof
    assume ?read
    then show "?spec bs" using sound rd by simp
  next
    assume spec: "?spec bs"
    have "ranges_abs (chunk_ranges c) i \<noteq> None" if "unat offset \<le> i" "i < unat ?e" for i
      using spec [THEN conjunct2, rule_format, of "i - unat offset"] spec that e
      by (simp add: chunk_abs_def)
    then obtain r where "r \<in> set (chunk_ranges c)" "range_lo r \<le> unat offset" "unat ?e \<le> range_hi r"
      using covered_by_one_range [of "chunk_ranges c" "unat offset" "unat ?e"] assms lt
      by (auto simp: chunk_wf_def word_less_nat_alt)
    then obtain bs' where bs': "chunk_read_loop (chunk_ranges c) offset ?e = Some bs'"
      using chunk_read_loop_complete [of "chunk_ranges c" r offset ?e] assms(1) lt
      by (auto simp: chunk_wf_def)
    have "bs' = bs"
      using sound [OF bs'] spec by (auto intro!: nth_equalityI)
    with bs' rd show ?read by simp
  qed
qed

section \<open>Inserting into a chunk\<close>

abbreviation ranges_apart :: "CachedRange \<Rightarrow> CachedRange \<Rightarrow> bool" where
  "ranges_apart a b \<equiv> range_hi a < range_lo b \<or> range_hi b < range_lo a"

lemma ranges_apart_dom: "ranges_apart a b \<Longrightarrow> dom (range_abs a) \<inter> dom (range_abs b) = {}"
  by (auto simp: range_abs_def bytes_at_def split: if_splits)

lemma ranges_abs_insort:
  assumes "\<forall>b\<in>set rs. ranges_apart r b"
  shows "ranges_abs (insort_key f r rs) = ranges_abs rs ++ range_abs r"
  using assms
proof (induction rs)
  case (Cons b rs)
  then have "range_abs r ++ range_abs b = range_abs b ++ range_abs r"
    by (intro map_add_comm ranges_apart_dom) auto
  then have "ranges_abs rs ++ range_abs r ++ range_abs b = ranges_abs rs ++ range_abs b ++ range_abs r"
    by (metis map_add_assoc)
  with Cons show ?case by simp
qed simp

lemma ranges_wf_insort:
  assumes "ranges_wf rs" and "range_wf r" and "\<forall>b\<in>set rs. ranges_apart r b"
  shows "ranges_wf (insort_key range_offset r rs)"
  using assms
proof (induction rs)
  case (Cons b rs)
  have "range_offset r \<le> range_offset b \<Longrightarrow> range_hi r < range_lo b"
    and "\<not> range_offset r \<le> range_offset b \<Longrightarrow> range_hi b < range_lo r"
    using Cons.prems by (auto simp: word_le_nat_alt)
  moreover have "range_lo b \<le> range_hi b" by simp
  ultimately show ?case using Cons by (fastforce simp: set_insort_key)
qed simp

lemma sort_ranges:
  assumes "sorted_wrt ranges_apart rs" and "\<forall>r\<in>set rs. range_wf r"
  shows "ranges_wf (sort_key range_offset rs)" and "ranges_abs (sort_key range_offset rs) = ranges_abs rs"
  using assms
  by (induction rs) (auto simp: ranges_wf_insort ranges_abs_insort)

lemma overlay_bytes:
  assumes "o1 \<le> o2 + length ys" and "o2 \<le> o1 + length xs"
  defines "lo \<equiv> min o1 o2" and "hi \<equiv> max (o1 + length xs) (o2 + length ys)"
  defines "bs \<equiv> copy_at (copy_at (replicate (hi - lo) (0 :: u8)) (o1 - lo) xs) (o2 - lo) ys"
  shows "length bs = hi - lo" and "bytes_at lo bs = bytes_at o1 xs ++ bytes_at o2 ys"
proof -
  have lo: "lo \<le> o1" "lo \<le> o2" "lo = o1 \<or> lo = o2" by (auto simp: lo_def)
  have hi: "o1 + length xs \<le> hi" "o2 + length ys \<le> hi" "hi = o1 + length xs \<or> hi = o2 + length ys"
    by (auto simp: hi_def)
  have fit: "o1 - lo + length xs \<le> hi - lo" "o2 - lo + length ys \<le> hi - lo"
    using lo hi by linarith+
  then show len: "length bs = hi - lo" by (simp add: bs_def)
  have nth: "bs ! j = (if o2 - lo \<le> j \<and> j < o2 - lo + length ys then ys ! (j - (o2 - lo))
      else if o1 - lo \<le> j \<and> j < o1 - lo + length xs then xs ! (j - (o1 - lo)) else 0)"
    if "j < hi - lo" for j
    using fit that by (simp add: bs_def nth_copy_at)
  show "bytes_at lo bs = bytes_at o1 xs ++ bytes_at o2 ys"
  proof
    fix i
    consider (outside) "i < lo \<or> hi \<le> i" | (new) "o2 \<le> i" "i < o2 + length ys"
      | (old) "lo \<le> i" "i < hi" "\<not> (o2 \<le> i \<and> i < o2 + length ys)" by linarith
    then show "bytes_at lo bs i = (bytes_at o1 xs ++ bytes_at o2 ys) i"
    proof cases
      case outside
      then have "\<not> (o1 \<le> i \<and> i < o1 + length xs)" "\<not> (o2 \<le> i \<and> i < o2 + length ys)"
        "\<not> (lo \<le> i \<and> i < lo + length bs)"
        using lo hi len by linarith+
      then show ?thesis by (simp only: bytes_at_def map_add_def) simp
    next
      case new
      then have "i - lo < hi - lo" "o2 - lo \<le> i - lo" "i - lo < o2 - lo + length ys"
        "i - lo - (o2 - lo) = i - o2" "lo \<le> i" "i < lo + length bs"
        using lo hi len by linarith+
      then show ?thesis using new nth [of "i - lo"] by (simp add: bytes_at_def map_add_def)
    next
      case old
      then have j: "i - lo < hi - lo" "\<not> (o2 - lo \<le> i - lo \<and> i - lo < o2 - lo + length ys)"
        "o1 - lo \<le> i - lo" "i - lo < o1 - lo + length xs" "i - lo - (o1 - lo) = i - o1"
        "i < lo + length bs" "o1 \<le> i" "i < o1 + length xs"
        using lo hi len assms(1,2) by linarith+
      then have "bs ! (i - lo) = xs ! (i - o1)" using nth [OF j(1)] by (simp only: if_False if_True simp_thms)
      moreover have "bytes_at o2 ys i = None" using old(3) by (auto simp: bytes_at_def)
      ultimately show ?thesis using old(1) j(6,7,8) by (simp add: map_add_def) (simp add: bytes_at_def)
    qed
  qed
qed

text \<open>The invariant of the merging loop: the merged interval is apart from every retained
  range, and together they hold the ranges seen so far overridden by the new bytes.\<close>

definition merge_inv :: "CachedRange list \<Rightarrow> (nat \<Rightarrow> u8 option) \<Rightarrow> merge_state \<Rightarrow> bool" where
  "merge_inv seen new st \<longleftrightarrow>
     (case st of (mo, me, mb, retained) \<Rightarrow>
        mb \<noteq> [] \<and> unat me = unat mo + length mb \<and> set retained \<subseteq> set seen \<and>
        sorted_wrt ranges_apart retained \<and>
        (\<forall>r\<in>set retained. range_hi r < unat mo \<or> unat me < range_lo r) \<and>
        ranges_abs retained ++ bytes_at (unat mo) mb = ranges_abs seen ++ new)"

lemma ranges_abs_snoc: "ranges_abs (rs @ [r]) = range_abs r ++ ranges_abs rs"
  by (induction rs) auto

lemma ranges_wf_snoc:
  "ranges_wf (rs @ [r]) \<longleftrightarrow> ranges_wf rs \<and> range_wf r \<and> (\<forall>a\<in>set rs. range_hi a < range_lo r)"
  by (auto simp: ranges_wf_def sorted_wrt_append)

lemma range_abs_comm:
  assumes "\<forall>a\<in>set rs. ranges_apart a r"
  shows "range_abs r ++ ranges_abs rs = ranges_abs rs ++ range_abs r"
proof (rule map_add_comm, rule ccontr)
  assume "dom (range_abs r) \<inter> dom (ranges_abs rs) \<noteq> {}"
  then obtain i where i: "range_abs r i \<noteq> None" "ranges_abs rs i \<noteq> None" by blast
  from i(1) have ri: "range_lo r \<le> i" "i < range_hi r" by (simp_all only: range_abs_dom)
  from i(2) obtain a where a: "a \<in> set rs" "range_lo a \<le> i" "i < range_hi a"
    by (auto simp only: ranges_abs_Some)
  from assms a(1) have "ranges_apart a r" by (rule bspec)
  with ri a show False by linarith
qed

lemma merge_range_retained:
  assumes "merge_inv seen new (mo, me, mb, retained)" and "ranges_wf (seen @ [r])"
    and "range_hi r < unat mo \<or> unat me < range_lo r"
  shows "merge_range r (mo, me, mb, retained) = (mo, me, mb, retained @ [r]) \<and>
    merge_inv (seen @ [r]) new (mo, me, mb, retained @ [r])"
proof -
  from assms(2) obtain e where e: "range_end r = Some e" "unat e = range_hi r"
    using range_end_wf by (auto simp: ranges_wf_snoc)
  have "range_abs r ++ (ranges_abs retained ++ bytes_at (unat mo) mb) = range_abs r ++ (ranges_abs seen ++ new)"
    using assms(1) by (simp add: merge_inv_def)
  moreover have "\<forall>a\<in>set retained. range_hi a < range_lo r"
    using assms(1,2) by (auto simp: merge_inv_def ranges_wf_snoc)
  ultimately have "merge_inv (seen @ [r]) new (mo, me, mb, retained @ [r])"
    using assms(1,3) by (auto simp: merge_inv_def sorted_wrt_append ranges_abs_snoc)
  with e assms(3) show ?thesis
    by (simp add: merge_range_def word_less_nat_alt)
qed

lemma merge_range_merged:
  assumes inv: "merge_inv seen new (mo, me, mb, retained)" and wf: "ranges_wf (seen @ [r])"
    and "\<not> (range_hi r < unat mo \<or> unat me < range_lo r)"
  shows "merge_inv (seen @ [r]) new (merge_range r (mo, me, mb, retained))"
proof -
  from wf obtain e where e: "range_end r = Some e" "unat e = range_hi r"
    using range_end_wf by (auto simp: ranges_wf_snoc)
  let ?no = "min mo (range_offset r)" and ?ne = "max me e"
  have touch: "unat mo \<le> range_hi r" "range_lo r \<le> unat me" using assms(3) by auto
  have me: "unat me = unat mo + length mb" and mb: "mb \<noteq> []"
    using inv by (auto simp: merge_inv_def)
  have no: "unat ?no = min (range_lo r) (unat mo)" and ne: "unat ?ne = max (range_hi r) (unat mo + length mb)"
    using e me by (auto simp: min_def max_def word_le_nat_alt)
  have le: "?no \<le> range_offset r" "?no \<le> mo" by auto
  have len: "unat (?ne - ?no) = max (range_hi r) (unat mo + length mb) - min (range_lo r) (unat mo)"
    using no ne by (subst unat_sub) (auto simp: word_le_nat_alt)
  have starts: "unat (range_offset r - ?no) = range_lo r - min (range_lo r) (unat mo)"
    "unat (mo - ?no) = unat mo - min (range_lo r) (unat mo)"
    using le no by (simp_all add: unat_sub)
  define nb where "nb = copy_at (copy_at (replicate (unat (?ne - ?no)) 0) (unat (range_offset r - ?no)) (range_bytes r))
    (unat (mo - ?no)) mb"
  have nb: "length nb = unat (?ne - ?no)" "bytes_at (unat ?no) nb = range_abs r ++ bytes_at (unat mo) mb"
    using overlay_bytes [of "range_lo r" "unat mo" mb "range_bytes r"] touch me
    unfolding nb_def len starts no range_abs_def by simp_all
  have step: "merge_range r (mo, me, mb, retained) = (?no, ?ne, nb, retained)"
    using e touch by (simp add: merge_range_def nb_def Let_def usize_try_from_def word_less_nat_alt)
  have left: "range_hi a < range_lo r" if "a \<in> set retained" for a
    using that inv wf by (auto simp: merge_inv_def ranges_wf_snoc)
  have apart: "range_hi a < unat ?no" if "a \<in> set retained" for a
    using left [OF that] that inv touch no by (auto simp: merge_inv_def)
  have "ranges_abs retained ++ bytes_at (unat ?no) nb = range_abs r ++ (ranges_abs retained ++ bytes_at (unat mo) mb)"
    using range_abs_comm [of retained r] left by (simp add: nb(2))
  also have "\<dots> = ranges_abs (seen @ [r]) ++ new"
    using inv by (simp add: merge_inv_def ranges_abs_snoc)
  finally have "ranges_abs retained ++ bytes_at (unat ?no) nb = ranges_abs (seen @ [r]) ++ new" .
  moreover have "0 < length nb" using nb(1) len mb by (cases mb) (auto simp: less_max_iff_disj)
  then have "nb \<noteq> []" by simp
  moreover have "unat ?ne = unat ?no + length nb" using nb(1) len no ne by linarith
  ultimately show ?thesis
    using inv apart unfolding step by (auto simp: merge_inv_def)
qed

lemma fold_merge_range:
  "ranges_wf (seen @ rs) \<Longrightarrow> merge_inv seen new st \<Longrightarrow> merge_inv (seen @ rs) new (fold merge_range rs st)"
proof (induction rs arbitrary: seen st)
  case (Cons r rs)
  from Cons.prems(1) have wf: "ranges_wf (seen @ [r])" "ranges_wf ((seen @ [r]) @ rs)"
    by (auto simp: ranges_wf_def sorted_wrt_append)
  obtain mo me mb retained where st: "st = (mo, me, mb, retained)" by (cases st) auto
  have "merge_inv (seen @ [r]) new (merge_range r st)"
    using Cons.prems(2) wf(1) merge_range_retained [of seen new mo me mb retained r]
      merge_range_merged [of seen new mo me mb retained r]
    unfolding st by (cases "range_hi r < unat mo \<or> unat me < range_lo r") simp_all
  from Cons.IH [OF wf(2) this] show ?case by simp
qed simp

theorem chunk_insert_correct:
  assumes "chunk_wf c" and "bs \<noteq> []" and "unat offset + length bs < 2 ^ 64"
  shows "chunk_wf (chunk_insert c offset bs)"
    and "chunk_abs (chunk_insert c offset bs) = chunk_abs c ++ bytes_at (unat offset) bs"
proof -
  let ?rs = "chunk_ranges c" and ?fin = "offset + of_nat (length bs)"
  have e: "checked_range_end offset (length bs) = Some ?fin"
    using assms(3) by (simp add: checked_range_end_Some)
  then have "unat ?fin = unat offset + length bs" by (rule unat_checked_range_end)
  then have "merge_inv [] (bytes_at (unat offset) bs) (offset, ?fin, bs, [])"
    using assms(2) by (simp add: merge_inv_def)
  then have inv: "merge_inv ?rs (bytes_at (unat offset) bs) (fold merge_range ?rs (offset, ?fin, bs, []))"
    using fold_merge_range [of "[]" ?rs] assms(1) by (simp add: chunk_wf_def)
  obtain mo me mb retained where
    st: "fold merge_range ?rs (offset, ?fin, bs, []) = (mo, me, mb, retained)"
    by (metis prod_cases4)
  let ?m = "\<lparr>range_offset = mo, range_bytes = mb\<rparr>"
  from inv [unfolded st] have m: "mb \<noteq> []" "unat me = unat mo + length mb" "set retained \<subseteq> set ?rs"
    "sorted_wrt ranges_apart retained" "\<forall>r\<in>set retained. ranges_apart r ?m"
    and abs: "ranges_abs retained ++ bytes_at (unat mo) mb = ranges_abs ?rs ++ bytes_at (unat offset) bs"
    by (auto simp: merge_inv_def)
  have "range_wf ?m" using m(1,2) unat_less_2p64 [of me] by (simp add: range_wf_def)
  then have sep: "sorted_wrt ranges_apart (retained @ [?m])" "\<forall>r\<in>set (retained @ [?m]). range_wf r"
    using m assms(1) by (auto simp: sorted_wrt_append chunk_wf_def ranges_wf_def)
  have new: "chunk_ranges (chunk_insert c offset bs) = sort_key range_offset (retained @ [?m])"
    unfolding chunk_insert_def e option.case st prod.case using assms(2) by (simp del: sort_key_simps)
  show "chunk_wf (chunk_insert c offset bs)"
    unfolding chunk_wf_def new by (rule sort_ranges(1) [OF sep])
  have "chunk_abs (chunk_insert c offset bs) = ranges_abs (sort_key range_offset (retained @ [?m]))"
    by (simp only: chunk_abs_def new)
  also have "\<dots> = ranges_abs (retained @ [?m])"
    by (rule sort_ranges(2) [OF sep])
  also have "\<dots> = range_abs ?m ++ ranges_abs retained"
    by (rule ranges_abs_snoc)
  also have "\<dots> = ranges_abs retained ++ range_abs ?m"
    by (rule range_abs_comm [OF m(5)])
  also have "\<dots> = ranges_abs retained ++ bytes_at (unat mo) mb"
    by (simp only: range_abs_def CachedRange.simps)
  also have "\<dots> = chunk_abs c ++ bytes_at (unat offset) bs"
    unfolding chunk_abs_def by (rule abs)
  finally show "chunk_abs (chunk_insert c offset bs) = chunk_abs c ++ bytes_at (unat offset) bs" .
qed

section \<open>Files\<close>

text \<open>The end of the chunk that starts at \<open>base\<close>, clipped to \<open>u64::MAX\<close>.\<close>

definition chunk_limit :: "u64 \<Rightarrow> u32 \<Rightarrow> u64" where
  "chunk_limit base chunk_size =
     (case checked_add base (u64_of_u32 chunk_size) of Some e \<Rightarrow> e | None \<Rightarrow> - 1)"

lemma unat_chunk_base: "unat (chunk_base offset cs) = (unat offset div unat cs) * unat cs"
proof -
  have "(unat offset div unat cs) * unat cs \<le> unat offset" by simp
  then have "(unat offset div unat cs) * unat cs < 2 ^ 64"
    by (rule le_less_trans) simp
  then show ?thesis by (simp add: chunk_base_def unat_word_ariths(2) unat_div)
qed

lemma chunk_base_bounds:
  assumes "0 < cs"
  shows "unat (chunk_base offset cs) \<le> unat offset"
    and "unat offset < unat (chunk_base offset cs) + unat cs"
proof -
  show "unat (chunk_base offset cs) \<le> unat offset" by (simp add: unat_chunk_base)
  have "0 < unat cs" using assms by (simp add: word_less_nat_alt)
  then show "unat offset < unat (chunk_base offset cs) + unat cs"
    using dividend_less_div_times [of "unat cs" "unat offset"] by (simp add: unat_chunk_base add.commute)
qed

lemma unat_chunk_limit: "unat (chunk_limit base cs) = min (2 ^ 64 - 1) (unat base + unat cs)"
  by (auto simp: chunk_limit_def checked_add_def unat_add_small)

lemma chunk_base_same:
  assumes "0 < cs" and "unat (chunk_base c cs) \<le> unat i" and "unat i < unat (chunk_base c cs) + unat cs"
  shows "chunk_base i cs = chunk_base c cs"
proof -
  have "unat i div unat cs = unat c div unat cs"
    using assms by (intro div_nat_eqI) (simp_all add: unat_chunk_base mult.commute)
  then show ?thesis by (simp add: unat_chunk_base word_unat_eq_iff)
qed

lemma chunk_limit_progress:
  assumes "0 < cs" and "cursor < - 1"
  shows "cursor < chunk_limit (chunk_base cursor cs) cs"
  using chunk_base_bounds(2) [OF assms(1), of cursor] assms(2)
  by (simp add: word_less_nat_alt unat_chunk_limit)

text \<open>The loop of \<open>CachedFile::read\<close>. A zero chunk size, which the division in
  \<open>chunk_base\<close> would panic on, is refused; \<open>cache_policy_chunk_size\<close> never yields it.\<close>

function file_read_loop :: "CachedFile \<Rightarrow> u32 \<Rightarrow> u64 \<Rightarrow> u64 \<Rightarrow> bytes \<Rightarrow> bytes option" where
  "file_read_loop f chunk_size end cursor bytes =
     (if cursor < end then
        (if chunk_size = 0 then None else
         let base = chunk_base cursor chunk_size;
             read_end = min end (chunk_limit base chunk_size) in
         case checked_sub read_end cursor of
           None \<Rightarrow> None
         | Some read_len \<Rightarrow>
             (case bt_get (file_chunks f) base of
                None \<Rightarrow> None
              | Some chunk \<Rightarrow>
                  (case chunk_read chunk cursor read_len of
                     None \<Rightarrow> None
                   | Some bs \<Rightarrow> file_read_loop f chunk_size end read_end (bytes @ bs))))
      else Some bytes)"
  by pat_completeness auto
termination
proof (relation "measure (\<lambda>(f, cs, end, cursor, bytes). unat end - unat cursor)")
  fix cs :: u32 and "end" cursor :: u64 and f bytes base read_end read_len chunk bs
  assume a: "cursor < end" "cs \<noteq> 0" "base = chunk_base cursor cs" "read_end = min end (chunk_limit base cs)"
  then have "cursor < chunk_limit base cs"
    using chunk_limit_progress [of cs cursor] word_order.extremum [of "end"]
    by (auto simp: word_neq_0_conv [symmetric] intro: order_less_le_trans)
  with a have "cursor < read_end" by simp
  then show "((f, cs, end, read_end, bytes @ bs), (f, cs, end, cursor, bytes))
      \<in> measure (\<lambda>(f, cs, end, cursor, bytes). unat end - unat cursor)"
    using a(1) by (auto simp: word_less_nat_alt)
qed simp

declare file_read_loop.simps [simp del]

definition file_read :: "CachedFile \<Rightarrow> u64 \<Rightarrow> u64 \<Rightarrow> u32 \<Rightarrow> bytes option" where
  "file_read f offset len chunk_size =
     Option.bind (checked_add offset len) (\<lambda>end.
     Option.bind (usize_try_from len) (\<lambda>capacity.
     file_read_loop f chunk_size end offset []))"

text \<open>The loop of \<open>CachedFile::insert\<close>; the last argument is \<open>&bytes[consumed..]\<close>.\<close>

function file_insert_loop :: "u32 \<Rightarrow> CachedFile \<Rightarrow> u64 \<Rightarrow> bytes \<Rightarrow> CachedFile" where
  "file_insert_loop chunk_size f cursor rest =
     (if chunk_size = 0 \<or> rest = [] then f
      else
        (let base = chunk_base cursor chunk_size;
             chunk_remaining = saturating_sub (chunk_limit base chunk_size) cursor;
             n = min (length rest) (unat chunk_remaining) in
         if n = 0 then f
         else file_insert_loop chunk_size
           (f\<lparr>file_chunks := bt_entry base cached_chunk_default
               (\<lambda>c. chunk_insert c cursor (take n rest)) (file_chunks f)\<rparr>)
           (saturating_add cursor (of_nat n)) (drop n rest)))"
  by pat_completeness auto
termination
  by (relation "measure (\<lambda>(cs, f, cursor, rest). length rest)") auto

declare file_insert_loop.simps [simp del]

definition file_insert :: "CachedFile \<Rightarrow> u64 \<Rightarrow> bytes \<Rightarrow> u32 \<Rightarrow> CachedFile" where
  "file_insert f offset bytes chunk_size = file_insert_loop chunk_size f offset bytes"

definition cache_clear :: "ReadCache \<Rightarrow> ReadCache" where
  "cache_clear c = c\<lparr>cache_files := []\<rparr>"

definition cache_read :: "ReadCache \<Rightarrow> string \<Rightarrow> string \<Rightarrow> u64 \<Rightarrow> u64 \<Rightarrow> u32 \<Rightarrow> bytes option" where
  "cache_read c promise_id relative_path offset len chunk_size =
     Option.bind (bt_get (cache_files c) (CacheKey promise_id relative_path))
       (\<lambda>f. file_read f offset len chunk_size)"

definition cache_insert :: "ReadCache \<Rightarrow> string \<Rightarrow> string \<Rightarrow> u64 \<Rightarrow> bytes \<Rightarrow> u32 \<Rightarrow> ReadCache" where
  "cache_insert c promise_id relative_path offset bytes chunk_size =
     c\<lparr>cache_files := bt_entry (CacheKey promise_id relative_path) cached_file_default
        (\<lambda>f. file_insert f offset bytes chunk_size) (cache_files c)\<rparr>"

section \<open>Files refine byte maps\<close>

text \<open>What a file holds at each offset: the chunk the offset belongs to decides.\<close>

definition file_abs :: "u32 \<Rightarrow> CachedFile \<Rightarrow> nat \<Rightarrow> u8 option" where
  "file_abs cs f i =
     (if i < 2 ^ 64
      then case bt_get (file_chunks f) (chunk_base (of_nat i) cs) of
             None \<Rightarrow> None
           | Some c \<Rightarrow> chunk_abs c i
      else None)"

definition file_wf :: "CachedFile \<Rightarrow> bool" where
  "file_wf f \<longleftrightarrow> bt_wf (file_chunks f) \<and> (\<forall>c\<in>set (bt_values (file_chunks f)). chunk_wf c)"

text \<open>The bytes \<open>bs\<close> stand in the map at \<open>lo\<close>.\<close>

definition holds_at :: "(nat \<Rightarrow> u8 option) \<Rightarrow> nat \<Rightarrow> bytes \<Rightarrow> bool" where
  "holds_at m lo bs \<longleftrightarrow> (\<forall>i < length bs. m (lo + i) = Some (bs ! i))"

lemma holds_at_Nil [simp]: "holds_at m lo []"
  by (simp add: holds_at_def)

lemma holds_at_append:
  "holds_at m lo (xs @ ys) \<longleftrightarrow> holds_at m lo xs \<and> holds_at m (lo + length xs) ys"
proof -
  have "holds_at m lo (xs @ ys) \<longleftrightarrow> (\<forall>i < length xs. m (lo + i) = Some ((xs @ ys) ! i)) \<and>
      (\<forall>i < length ys. m (lo + (length xs + i)) = Some ((xs @ ys) ! (length xs + i)))"
    unfolding holds_at_def length_append all_less_add ..
  then show ?thesis by (simp add: holds_at_def nth_append add.assoc)
qed

lemma holds_at_Cons: "holds_at m lo (b # bs) \<longleftrightarrow> m lo = Some b \<and> holds_at m (Suc lo) bs"
  using holds_at_append [of m lo "[b]" bs] by (simp add: holds_at_def)

lemma holds_at_split:
  assumes "n \<le> N"
  shows "(\<exists>bs. r = acc @ bs \<and> length bs = N \<and> holds_at m lo bs) \<longleftrightarrow>
    (\<exists>bs. (length bs = n \<and> holds_at m lo bs) \<and>
       (\<exists>bs'. r = (acc @ bs) @ bs' \<and> length bs' = N - n \<and> holds_at m (lo + n) bs'))"
    (is "?l \<longleftrightarrow> ?r")
proof
  assume ?l
  then obtain bs where bs: "r = acc @ bs" "length bs = N" "holds_at m lo (take n bs @ drop n bs)" by auto
  then have "holds_at m lo (take n bs)" "holds_at m (lo + n) (drop n bs)"
    using assms by (simp_all only: holds_at_append length_take min.absorb2)
  with bs assms show ?r
    by (intro exI [of _ "take n bs"] conjI exI [of _ "drop n bs"]) simp_all
next
  assume ?r
  then obtain bs bs' where "length bs = n" "holds_at m lo bs"
    "r = (acc @ bs) @ bs'" "length bs' = N - n" "holds_at m (lo + n) bs'" by blast
  then show ?l using assms by (intro exI [of _ "bs @ bs'"]) (simp add: holds_at_append)
qed

lemma holds_at_cong:
  "(\<And>i. lo \<le> i \<Longrightarrow> i < lo + length bs \<Longrightarrow> m i = m' i) \<Longrightarrow> holds_at m lo bs \<longleftrightarrow> holds_at m' lo bs"
  by (simp add: holds_at_def)

lemma holds_at_unique: "holds_at m lo xs \<Longrightarrow> holds_at m lo ys \<Longrightarrow> length xs = length ys \<Longrightarrow> xs = ys"
  by (rule nth_equalityI) (auto simp: holds_at_def)

lemma holds_at_mono: "m \<subseteq>\<^sub>m m' \<Longrightarrow> holds_at m lo bs \<Longrightarrow> holds_at m' lo bs"
  by (fastforce simp: holds_at_def map_le_def dom_def)

lemma bytes_at_append: "bytes_at lo (xs @ ys) = bytes_at lo xs ++ bytes_at (lo + length xs) ys"
  by (rule ext) (auto simp: bytes_at_def map_add_def nth_append)

lemma bytes_at_Nil [simp]: "bytes_at lo [] = Map.empty"
  by (rule ext) (simp add: bytes_at_def)

lemma file_wf_chunk: "file_wf f \<Longrightarrow> bt_get (file_chunks f) b = Some c \<Longrightarrow> chunk_wf c"
  by (auto simp: file_wf_def bt_values_get)

lemma chunk_wf_default [simp]: "chunk_wf cached_chunk_default"
  by (simp add: chunk_wf_def cached_chunk_default_def)

lemma chunk_abs_default [simp]: "chunk_abs cached_chunk_default = Map.empty"
  by (simp add: chunk_abs_def cached_chunk_default_def)

lemma file_wf_default [simp]: "file_wf cached_file_default"
  by (simp add: file_wf_def cached_file_default_def bt_values_def)

text \<open>Within one chunk the file holds what the chunk holds.\<close>

lemma file_abs_chunk:
  assumes "0 < cs" and "unat cursor \<le> i" and "i < unat (chunk_limit (chunk_base cursor cs) cs)"
  shows "file_abs cs f i =
    (case bt_get (file_chunks f) (chunk_base cursor cs) of None \<Rightarrow> None | Some c \<Rightarrow> chunk_abs c i)"
proof -
  have i: "i < 2 ^ 64" by (rule less_trans [OF assms(3)]) simp
  then have u: "unat (of_nat i :: u64) = i" by (rule unat_of_nat_u64)
  have "chunk_base (of_nat i) cs = chunk_base cursor cs"
    using assms chunk_base_bounds(1) [OF assms(1), of cursor]
    by (intro chunk_base_same) (simp_all add: u unat_chunk_limit)
  with i show ?thesis by (simp add: file_abs_def)
qed

text \<open>The part of a range that lies in the chunk of its first byte.\<close>

lemma chunk_window:
  assumes "0 < cs" and "cursor < end"
  defines "re \<equiv> min end (chunk_limit (chunk_base cursor cs) cs)"
  shows "re \<le> end" and "unat (re - cursor) = unat re - unat cursor" and "unat cursor < unat re"
    and "unat re \<le> unat end" and "unat re \<le> unat (chunk_limit (chunk_base cursor cs) cs)"
    and "0 < re - cursor" and "unat cursor + unat (re - cursor) < 2 ^ 64"
    and "checked_sub re cursor = Some (re - cursor)"
proof -
  have "cursor < - 1" using assms(2) word_order.extremum [of "end"] by (rule order_less_le_trans)
  with assms(1,2) have re: "cursor < re" using chunk_limit_progress by (simp add: re_def)
  show le: "re \<le> end" by (simp add: re_def)
  have le2: "re \<le> chunk_limit (chunk_base cursor cs) cs" by (simp add: re_def)
  show len: "unat (re - cursor) = unat re - unat cursor" "unat cursor < unat re" "unat re \<le> unat end"
    "unat re \<le> unat (chunk_limit (chunk_base cursor cs) cs)"
    using re le le2 by (simp_all add: unat_sub word_less_nat_alt word_le_nat_alt)
  show "0 < re - cursor" and "unat cursor + unat (re - cursor) < 2 ^ 64"
    using len by (simp_all add: word_less_nat_alt)
  show "checked_sub re cursor = Some (re - cursor)" using re by (simp add: checked_sub_def)
qed

lemma file_read_loop_iff:
  assumes "file_wf f" and "0 < cs" and "cursor \<le> end"
  shows "file_read_loop f cs end cursor acc = Some r \<longleftrightarrow>
    (\<exists>bs. r = acc @ bs \<and> length bs = unat end - unat cursor \<and> holds_at (file_abs cs f) (unat cursor) bs)"
  using assms
proof (induction f cs "end" cursor acc rule: file_read_loop.induct)
  case (1 f cs "end" cursor acc)
  show ?case
  proof (cases "cursor < end")
    case False
    with "1.prems" show ?thesis by (subst file_read_loop.simps) auto
  next
    case True
    let ?abs = "file_abs cs f"
    define base where "base = chunk_base cursor cs"
    define re where "re = min end (chunk_limit base cs)"
    define len where "len = re - cursor"
    have cs: "cs \<noteq> 0" using "1.prems"(2) by auto
    note window = chunk_window [OF "1.prems"(2) True, folded base_def, folded re_def, folded len_def]
    note re_le = window(1) and len = window(2-5) and pos = window(6,7) and sub = window(8)
    have step: "file_read_loop f cs end cursor acc =
      (case bt_get (file_chunks f) base of None \<Rightarrow> None
       | Some chunk \<Rightarrow> (case chunk_read chunk cursor len of None \<Rightarrow> None
          | Some bs \<Rightarrow> file_read_loop f cs end re (acc @ bs)))"
      using cs True sub by (subst file_read_loop.simps) (simp only: Let_def base_def re_def if_False if_True option.case)
    have abs: "?abs i = (case bt_get (file_chunks f) base of None \<Rightarrow> None | Some c \<Rightarrow> chunk_abs c i)"
      if "unat cursor \<le> i" "i < unat re" for i
      unfolding base_def using that len(4) by (intro file_abs_chunk "1.prems"(2)) (simp_all add: base_def)
    show ?thesis
    proof (cases "bt_get (file_chunks f) base")
      case None
      have "?abs (unat cursor) = None" using abs [of "unat cursor"] None len by simp
      moreover have "0 < unat end - unat cursor" using True by (simp add: word_less_nat_alt)
      ultimately have "\<not> holds_at ?abs (unat cursor) bs" if "length bs = unat end - unat cursor" for bs
        using that unfolding holds_at_def by (metis add_0_right option.distinct(1))
      then show ?thesis using step None by auto
    next
      case (Some chunk)
      have in_chunk: "holds_at ?abs (unat cursor) bs \<longleftrightarrow> holds_at (chunk_abs chunk) (unat cursor) bs"
        if "length bs = unat len" for bs
        using that abs len Some by (intro holds_at_cong) simp
      have read: "chunk_read chunk cursor len = Some bs \<longleftrightarrow>
          length bs = unat len \<and> holds_at ?abs (unat cursor) bs" for bs
        using in_chunk [of bs]
        unfolding chunk_read_iff [OF file_wf_chunk [OF "1.prems"(1) Some] pos] holds_at_def by blast
      have IH: "file_read_loop f cs end re (acc @ bs) = Some r \<longleftrightarrow>
          (\<exists>bs'. r = (acc @ bs) @ bs' \<and> length bs' = unat end - unat re \<and> holds_at ?abs (unat re) bs')"
        if "chunk_read chunk cursor len = Some bs" for bs
        by (rule "1.IH" [OF True cs base_def re_def sub Some that "1.prems"(1,2) re_le(1)])
      have re_len: "unat re = unat cursor + unat len" using len by linarith
      have "(\<exists>bs. r = acc @ bs \<and> length bs = unat end - unat cursor \<and> holds_at ?abs (unat cursor) bs) \<longleftrightarrow>
        (\<exists>bs. chunk_read chunk cursor len = Some bs \<and> (\<exists>bs'. r = (acc @ bs) @ bs' \<and>
           length bs' = unat end - unat re \<and> holds_at ?abs (unat re) bs'))"
        unfolding read re_len diff_diff_left [symmetric] using len by (intro holds_at_split) simp
      also have "\<dots> \<longleftrightarrow> file_read_loop f cs end cursor acc = Some r"
        unfolding step Some option.case using IH by (cases "chunk_read chunk cursor len") simp_all
      finally show ?thesis by (rule sym)
    qed
  qed
qed

theorem file_read_iff:
  assumes "file_wf f" and "0 < cs"
  shows "file_read f offset len cs = Some bs \<longleftrightarrow>
    unat offset + unat len < 2 ^ 64 \<and> length bs = unat len \<and> holds_at (file_abs cs f) (unat offset) bs"
proof (cases "unat offset + unat len < 2 ^ 64")
  case True
  then have "unat (offset + len) = unat offset + unat len" by (simp add: unat_add_small)
  moreover from this have "offset \<le> offset + len" by (simp add: word_le_nat_alt)
  moreover have "file_read f offset len cs = file_read_loop f cs (offset + len) offset []"
    using True by (simp add: file_read_def checked_add_def usize_try_from_def)
  ultimately show ?thesis
    using file_read_loop_iff [OF assms, of offset "offset + len" "[]" bs] True by simp
qed (simp add: file_read_def checked_add_def)

text \<open>One round of the inserting loop.\<close>

lemma file_insert_step:
  assumes "file_wf f" and "0 < cs" and "bs \<noteq> []"
    and "unat cursor + length bs \<le> unat (chunk_limit (chunk_base cursor cs) cs)"
  defines "f' \<equiv> f\<lparr>file_chunks := bt_entry (chunk_base cursor cs) cached_chunk_default
      (\<lambda>c. chunk_insert c cursor bs) (file_chunks f)\<rparr>"
  shows "file_wf f'" and "file_abs cs f' = file_abs cs f ++ bytes_at (unat cursor) bs"
proof -
  define base where "base = chunk_base cursor cs"
  define c where "c = (case bt_get (file_chunks f) base of None \<Rightarrow> cached_chunk_default | Some c \<Rightarrow> c)"
  have "chunk_wf c"
    using file_wf_chunk [OF assms(1), of base] by (simp add: c_def split: option.split)
  moreover have "unat cursor + length bs < 2 ^ 64" by (rule le_less_trans [OF assms(4)]) simp
  ultimately have ins: "chunk_wf (chunk_insert c cursor bs)"
      "chunk_abs (chunk_insert c cursor bs) = chunk_abs c ++ bytes_at (unat cursor) bs"
    using chunk_insert_correct assms(3) by blast+
  have get: "bt_get (file_chunks f') b =
      (if b = base then Some (chunk_insert c cursor bs) else bt_get (file_chunks f) b)" for b
    by (simp add: f'_def base_def [symmetric] c_def)
  have "bt_wf (file_chunks f')" using assms(1) by (simp add: f'_def file_wf_def)
  with ins(1) assms(1) show "file_wf f'"
    by (auto simp: file_wf_def bt_values_get get split: if_splits)
  show "file_abs cs f' = file_abs cs f ++ bytes_at (unat cursor) bs"
  proof
    fix i
    consider (new) "unat cursor \<le> i" "i < unat cursor + length bs" | (old) "bytes_at (unat cursor) bs i = None"
      by (fastforce simp: bytes_at_def)
    then show "file_abs cs f' i = (file_abs cs f ++ bytes_at (unat cursor) bs) i"
    proof cases
      case new
      then have lim: "i < unat (chunk_limit (chunk_base cursor cs) cs)" using assms(4) by linarith
      have "file_abs cs f' i = chunk_abs (chunk_insert c cursor bs) i"
        using file_abs_chunk [OF assms(2) new(1) lim, of f'] get [of base] by (simp add: base_def)
      also have "\<dots> = bytes_at (unat cursor) bs i"
        using new by (simp add: ins(2) bytes_at_def map_add_def)
      finally show ?thesis using new by (simp add: bytes_at_def map_add_def)
    next
      case old
      have "chunk_abs (chunk_insert c cursor bs) i = chunk_abs c i"
        using old by (simp add: ins(2) map_add_def)
      then have "file_abs cs f' i = file_abs cs f i"
        by (simp add: file_abs_def get c_def split: option.split)
      with old show ?thesis by (simp add: map_add_def)
    qed
  qed
qed

lemma file_insert_loop_correct:
  assumes "file_wf f" and "0 < cs" and "unat cursor + length rest < 2 ^ 64"
  shows "file_wf (file_insert_loop cs f cursor rest) \<and>
    file_abs cs (file_insert_loop cs f cursor rest) = file_abs cs f ++ bytes_at (unat cursor) rest"
  using assms
proof (induction cs f cursor rest rule: file_insert_loop.induct)
  case (1 cs f cursor rest)
  show ?case
  proof (cases "rest = []")
    case True
    with "1.prems" show ?thesis by (subst (1 2) file_insert_loop.simps) simp
  next
    case False
    define base where "base = chunk_base cursor cs"
    define rem where "rem = saturating_sub (chunk_limit base cs) cursor"
    define n where "n = min (length rest) (unat rem)"
    define f' where "f' = f\<lparr>file_chunks := bt_entry base cached_chunk_default
      (\<lambda>c. chunk_insert c cursor (take n rest)) (file_chunks f)\<rparr>"
    have cs: "cs \<noteq> 0" using "1.prems"(2) by auto
    have "0 < length rest" using False by simp
    then have "cursor < - 1" using "1.prems"(3) by (cases rest) (simp_all add: word_less_nat_alt)
    then have "cursor < chunk_limit base cs" using chunk_limit_progress "1.prems"(2) by (simp add: base_def)
    then have rem: "0 < unat rem" "unat cursor + unat rem = unat (chunk_limit base cs)"
      by (simp_all add: rem_def unat_saturating_sub word_less_nat_alt)
    have n: "0 < n" "n \<le> length rest" "n \<le> unat rem" using False rem by (simp_all add: n_def)
    have "unat cursor + n < 2 ^ 64" using n(2) "1.prems"(3) by linarith
    moreover from this have un: "unat (of_nat n :: u64) = n" by (intro unat_of_nat_u64) linarith
    ultimately have add: "saturating_add cursor (of_nat n) = cursor + of_nat n"
      "unat (cursor + of_nat n) = unat cursor + n"
      by (simp_all add: saturating_add_def checked_add_def unat_add_small)
    have step: "file_insert_loop cs f cursor rest = file_insert_loop cs f' (cursor + of_nat n) (drop n rest)"
      using cs False n(1) add(1)
      by (subst file_insert_loop.simps)
        (simp only: Let_def f'_def n_def [symmetric] rem_def [symmetric] base_def [symmetric] de_Morgan_disj if_False
          neq0_conv less_imp_neq [symmetric] not_False_eq_True simp_thms)
    have f': "file_wf f'" "file_abs cs f' = file_abs cs f ++ bytes_at (unat cursor) (take n rest)"
      unfolding f'_def base_def using n rem False
      by (intro file_insert_step "1.prems"(1,2); simp add: base_def)+
    have "file_wf (file_insert_loop cs f' (cursor + of_nat n) (drop n rest)) \<and>
        file_abs cs (file_insert_loop cs f' (cursor + of_nat n) (drop n rest)) =
        file_abs cs f' ++ bytes_at (unat (cursor + of_nat n)) (drop n rest)"
      using "1.IH" [OF _ base_def rem_def n_def, folded f'_def] f'(1) cs False n(1,2) add "1.prems"(2,3) by simp
    moreover have "bytes_at (unat cursor) rest = bytes_at (unat cursor) (take n rest) ++ bytes_at (unat cursor + n) (drop n rest)"
      using bytes_at_append [of "unat cursor" "take n rest" "drop n rest"] n(2) by simp
    ultimately show ?thesis by (simp add: step f'(2) add(2))
  qed
qed

theorem file_insert_correct:
  assumes "file_wf f" and "0 < cs" and "unat offset + length bs < 2 ^ 64"
  shows "file_wf (file_insert f offset bs cs)"
    and "file_abs cs (file_insert f offset bs cs) = file_abs cs f ++ bytes_at (unat offset) bs"
  using file_insert_loop_correct [OF assms] by (simp_all add: file_insert_def)

section \<open>The cache\<close>

definition cache_wf :: "ReadCache \<Rightarrow> bool" where
  "cache_wf c \<longleftrightarrow> bt_wf (cache_files c) \<and> (\<forall>f\<in>set (bt_values (cache_files c)). file_wf f)"

text \<open>What the cache holds of each file, read with chunk size \<open>cs\<close>.\<close>

definition cache_abs :: "u32 \<Rightarrow> ReadCache \<Rightarrow> CacheKey \<Rightarrow> nat \<Rightarrow> u8 option" where
  "cache_abs cs c key =
     (case bt_get (cache_files c) key of None \<Rightarrow> Map.empty | Some f \<Rightarrow> file_abs cs f)"

lemma cache_wf_file: "cache_wf c \<Longrightarrow> bt_get (cache_files c) key = Some f \<Longrightarrow> file_wf f"
  unfolding cache_wf_def using bt_values_get by metis

lemma file_abs_default [simp]: "file_abs cs cached_file_default = Map.empty"
  by (rule ext) (simp add: file_abs_def cached_file_default_def)

lemma cache_wf_default [simp]: "cache_wf read_cache_default"
  by (simp add: cache_wf_def read_cache_default_def bt_values_def)

lemma cache_abs_default [simp]: "cache_abs cs read_cache_default key = Map.empty"
  by (simp add: cache_abs_def read_cache_default_def)

lemma cache_clear_default: "cache_clear c = read_cache_default"
  by (simp add: cache_clear_def read_cache_default_def)

text \<open>A read hits exactly when every byte of the range is cached, and returns those bytes.\<close>

theorem cache_read_iff:
  assumes "cache_wf c" and "0 < cs" and "0 < len"
  shows "cache_read c pid path offset len cs = Some bs \<longleftrightarrow>
    unat offset + unat len < 2 ^ 64 \<and> length bs = unat len \<and> holds_at (cache_abs cs c (CacheKey pid path)) (unat offset) bs"
proof (cases "bt_get (cache_files c) (CacheKey pid path)")
  case None
  have "0 < unat len" using assms(3) by (simp add: word_less_nat_alt)
  with None show ?thesis
    by (auto simp: cache_read_def cache_abs_def holds_at_def)
next
  case (Some f)
  then show ?thesis
    using file_read_iff [OF cache_wf_file [OF assms(1) Some] assms(2)]
    by (simp add: cache_read_def cache_abs_def)
qed

theorem cache_insert_correct:
  assumes "cache_wf c" and "0 < cs" and "unat offset + length bs < 2 ^ 64"
  shows "cache_wf (cache_insert c pid path offset bs cs)"
    and "cache_abs cs (cache_insert c pid path offset bs cs) key =
      (if key = CacheKey pid path then cache_abs cs c key ++ bytes_at (unat offset) bs else cache_abs cs c key)"
proof -
  define f where "f = (case bt_get (cache_files c) (CacheKey pid path) of None \<Rightarrow> cached_file_default | Some f \<Rightarrow> f)"
  have wf: "file_wf f"
    using cache_wf_file [OF assms(1), of "CacheKey pid path"] by (simp add: f_def split: option.split)
  note ins = file_insert_correct [OF wf assms(2,3)]
  have get: "bt_get (cache_files (cache_insert c pid path offset bs cs)) key =
      (if key = CacheKey pid path then Some (file_insert f offset bs cs) else bt_get (cache_files c) key)" for key
    by (simp add: cache_insert_def f_def)
  have "bt_wf (cache_files (cache_insert c pid path offset bs cs))"
    using assms(1) by (simp add: cache_insert_def cache_wf_def)
  with ins(1) assms(1) show "cache_wf (cache_insert c pid path offset bs cs)"
    by (auto simp: cache_wf_def bt_values_get get split: if_splits)
  show "cache_abs cs (cache_insert c pid path offset bs cs) key =
      (if key = CacheKey pid path then cache_abs cs c key ++ bytes_at (unat offset) bs else cache_abs cs c key)"
    unfolding cache_abs_def get using ins(2) by (simp add: f_def split: option.split)
qed

section \<open>Agreement with the files behind the cache\<close>

text \<open>The cache policy may change its chunk size without clearing the cache, so agreement
  is stated of the stored chunks and not of one chunk size: every cached byte is a byte of
  the file it was read from.\<close>

definition file_agrees :: "CachedFile \<Rightarrow> (nat \<Rightarrow> u8 option) \<Rightarrow> bool" where
  "file_agrees f content \<longleftrightarrow> (\<forall>b c. bt_get (file_chunks f) b = Some c \<longrightarrow> chunk_abs c \<subseteq>\<^sub>m content)"

definition cache_agrees :: "ReadCache \<Rightarrow> (CacheKey \<Rightarrow> nat \<Rightarrow> u8 option) \<Rightarrow> bool" where
  "cache_agrees c content \<longleftrightarrow> (\<forall>key f. bt_get (cache_files c) key = Some f \<longrightarrow> file_agrees f (content key))"

lemma file_agrees_default [simp]: "file_agrees cached_file_default content"
  by (simp add: file_agrees_def cached_file_default_def)

lemma cache_agrees_default [simp]: "cache_agrees read_cache_default content"
  by (simp add: cache_agrees_def read_cache_default_def)

lemma file_agrees_abs: "file_agrees f content \<Longrightarrow> file_abs cs f \<subseteq>\<^sub>m content"
  unfolding map_le_def file_agrees_def
  by (auto simp: file_abs_def dom_def split: option.splits if_splits)

lemma cache_agrees_abs: "cache_agrees c content \<Longrightarrow> cache_abs cs c key \<subseteq>\<^sub>m content key"
  using file_agrees_abs by (cases key; cases "bt_get (cache_files c) key") (auto simp: cache_agrees_def cache_abs_def)

lemma bytes_at_le: "holds_at m lo bs \<Longrightarrow> bytes_at lo bs \<subseteq>\<^sub>m m"
  unfolding map_le_def
proof (intro ballI)
  fix i assume h: "holds_at m lo bs" and "i \<in> dom (bytes_at lo bs)"
  then have "lo \<le> i" "i - lo < length bs" by (auto simp: bytes_at_def dom_def split: if_splits)
  with h have "m (lo + (i - lo)) = Some (bs ! (i - lo))" unfolding holds_at_def by blast
  with \<open>lo \<le> i\<close> \<open>i - lo < length bs\<close> show "bytes_at lo bs i = m i" by (simp add: bytes_at_def)
qed

lemma map_add_le: "m \<subseteq>\<^sub>m k \<Longrightarrow> m' \<subseteq>\<^sub>m k \<Longrightarrow> m ++ m' \<subseteq>\<^sub>m k"
  by (auto simp: map_le_def map_add_def dom_def split: option.splits)

lemma chunk_insert_agrees:
  assumes "chunk_wf c" and "chunk_abs c \<subseteq>\<^sub>m content" and "holds_at content (unat offset) bs"
  shows "chunk_wf (chunk_insert c offset bs)" and "chunk_abs (chunk_insert c offset bs) \<subseteq>\<^sub>m content"
proof -
  have "chunk_insert c offset bs = c" if "bs = [] \<or> \<not> unat offset + length bs < 2 ^ 64"
    using that by (auto simp: chunk_insert_def checked_range_end_Some split: option.split)
  moreover have "bytes_at (unat offset) bs \<subseteq>\<^sub>m content" using assms(3) by (simp add: bytes_at_le)
  ultimately show "chunk_wf (chunk_insert c offset bs)" "chunk_abs (chunk_insert c offset bs) \<subseteq>\<^sub>m content"
    using chunk_insert_correct [OF assms(1), of bs offset] assms(1,2) by (metis map_add_le)+
qed

text \<open>Inserting bytes of the file keeps the agreement, whatever the chunk size.\<close>

lemma file_insert_loop_agrees:
  assumes "file_wf f" and "file_agrees f content" and "holds_at content (unat cursor) rest"
    and "unat cursor + length rest < 2 ^ 64"
  shows "file_wf (file_insert_loop cs f cursor rest) \<and> file_agrees (file_insert_loop cs f cursor rest) content"
  using assms
proof (induction cs f cursor rest rule: file_insert_loop.induct)
  case (1 cs f cursor rest)
  define base where "base = chunk_base cursor cs"
  define rem where "rem = saturating_sub (chunk_limit base cs) cursor"
  define n where "n = min (length rest) (unat rem)"
  define f' where "f' = f\<lparr>file_chunks := bt_entry base cached_chunk_default
    (\<lambda>c. chunk_insert c cursor (take n rest)) (file_chunks f)\<rparr>"
  show ?case
  proof (cases "cs = 0 \<or> rest = [] \<or> n = 0")
    case True
    then have "file_insert_loop cs f cursor rest = f"
      unfolding n_def rem_def base_def by (subst file_insert_loop.simps) (auto simp only: Let_def if_True simp_thms split: if_split)
    with "1.prems" show ?thesis by simp
  next
    case False
    then have go: "\<not> (cs = 0 \<or> rest = [])" "n \<noteq> 0" by auto
    have n: "n \<le> length rest" by (simp add: n_def)
    have "unat cursor + n < 2 ^ 64" using n "1.prems"(4) by linarith
    moreover from this have un: "unat (of_nat n :: u64) = n" by (intro unat_of_nat_u64) linarith
    ultimately have add: "saturating_add cursor (of_nat n) = cursor + of_nat n"
      "unat (cursor + of_nat n) = unat cursor + n"
      by (simp_all add: saturating_add_def checked_add_def unat_add_small)
    have step: "file_insert_loop cs f cursor rest =
        file_insert_loop cs f' (saturating_add cursor (of_nat n)) (drop n rest)"
      using go by (subst file_insert_loop.simps) (simp only: Let_def f'_def n_def rem_def base_def if_False)
    have "holds_at content (unat cursor) (take n rest @ drop n rest)" using "1.prems"(3) by simp
    then have holds: "holds_at content (unat cursor) (take n rest)"
      "holds_at content (unat cursor + n) (drop n rest)"
      using n by (simp_all only: holds_at_append length_take min.absorb2)
    let ?c = "case bt_get (file_chunks f) base of None \<Rightarrow> cached_chunk_default | Some c \<Rightarrow> c"
    have "chunk_wf ?c" "chunk_abs ?c \<subseteq>\<^sub>m content"
      using file_wf_chunk [OF "1.prems"(1), of base] "1.prems"(2)
      by (auto simp: file_agrees_def split: option.split)
    note ins = chunk_insert_agrees [OF this holds(1)]
    have wf': "bt_wf (file_chunks f')" using "1.prems"(1) by (simp add: f'_def file_wf_def)
    have get: "bt_get (file_chunks f') b =
        (if b = base then Some (chunk_insert ?c cursor (take n rest)) else bt_get (file_chunks f) b)" for b
      by (simp add: f'_def)
    have "file_wf f'" using "1.prems"(1) wf' ins(1)
      by (auto simp: file_wf_def bt_values_get get split: if_splits)
    moreover have "file_agrees f' content" using "1.prems"(2) ins(2) by (simp add: file_agrees_def get)
    moreover have "unat (cursor + of_nat n) + length (drop n rest) < 2 ^ 64"
      using "1.prems"(4) n by (simp add: add(2))
    ultimately show ?thesis
      unfolding step using "1.IH" [OF go(1) base_def rem_def n_def go(2), folded f'_def] holds(2) add by simp
  qed
qed

theorem cache_insert_agrees:
  assumes "cache_wf c" and "cache_agrees c content"
    and "holds_at (content (CacheKey pid path)) (unat offset) bs" and "unat offset + length bs < 2 ^ 64"
  shows "cache_wf (cache_insert c pid path offset bs cs)"
    and "cache_agrees (cache_insert c pid path offset bs cs) content"
proof -
  define f where "f = (case bt_get (cache_files c) (CacheKey pid path) of None \<Rightarrow> cached_file_default | Some f \<Rightarrow> f)"
  have "file_wf f" "file_agrees f (content (CacheKey pid path))"
    using cache_wf_file [OF assms(1), of "CacheKey pid path"] assms(2)
    by (simp_all add: f_def cache_agrees_def split: option.split)
  note ins = file_insert_loop_agrees [OF this assms(3,4), of cs, folded file_insert_def]
  have get: "bt_get (cache_files (cache_insert c pid path offset bs cs)) key =
      (if key = CacheKey pid path then Some (file_insert f offset bs cs) else bt_get (cache_files c) key)" for key
    by (simp add: cache_insert_def f_def)
  have "bt_wf (cache_files (cache_insert c pid path offset bs cs))"
    using assms(1) by (simp add: cache_insert_def cache_wf_def)
  with ins assms(1) show "cache_wf (cache_insert c pid path offset bs cs)"
    by (auto simp: cache_wf_def bt_values_get get split: if_splits)
  show "cache_agrees (cache_insert c pid path offset bs cs) content"
    using ins assms(2) by (simp add: cache_agrees_def get)
qed

text \<open>So a hit returns bytes of the file.\<close>

theorem cache_read_agrees:
  assumes "cache_wf c" and "cache_agrees c content" and "0 < cs"
    and "cache_read c pid path offset len cs = Some bs"
  shows "length bs = unat len" and "holds_at (content (CacheKey pid path)) (unat offset) bs"
proof -
  from assms(4) obtain f where f: "bt_get (cache_files c) (CacheKey pid path) = Some f"
    "file_read f offset len cs = Some bs"
    by (auto simp: cache_read_def bind_eq_Some_conv)
  note rd = f(2) [unfolded file_read_iff [OF cache_wf_file [OF assms(1) f(1)] assms(3)]]
  from rd show "length bs = unat len" by simp
  have "file_abs cs f \<subseteq>\<^sub>m content (CacheKey pid path)"
    using assms(2) f(1) by (auto simp: cache_agrees_def intro: file_agrees_abs)
  with rd show "holds_at (content (CacheKey pid path)) (unat offset) bs" by (auto intro: holds_at_mono)
qed

end
