(* ===== verification/Runtime_State.thy ===== *)
theory Runtime_State
  imports Promise_Tree Read_Cache
begin

text \<open>
  The runtime of \<open>crates/fuse-promise-runtime/src/lib.rs\<close>: provider sessions, committed
  promises, identifier allocation, inode lookup and directory listing. A method that takes
  \<open>&mut self\<close> returns the new state with its result, because some of them change the state
  and then fail. The invariant \<open>rt_inv\<close> holds in every state reached from
  \<open>Runtime::new\<close>: promise trees are well formed, inodes and node ids are unique across all
  promises, and a promise is available exactly while its provider is live.
\<close>

section \<open>Data\<close>

record Runtime =
  rt_next_provider_id :: u64
  rt_next_promise_id :: u64
  rt_next_node_id :: u64
  rt_next_inode :: u64
  rt_providers :: "(ProviderId, ProviderSession) btree_map"
  rt_promises :: "(string, PromiseTree) btree_map"
  rt_cache_policy :: CachePolicy
  rt_read_cache :: ReadCache

datatype RuntimeEntry = MountRoot | PromiseNode string PromiseNode

fun entry_inode :: "RuntimeEntry \<Rightarrow> u64" where
  "entry_inode MountRoot = FUSE_ROOT_INODE"
| "entry_inode (PromiseNode _ node) = node_inode node"

fun entry_kind :: "RuntimeEntry \<Rightarrow> NodeKind" where
  "entry_kind MountRoot = Directory"
| "entry_kind (PromiseNode _ node) = node_kind node"

record DirectoryEntry =
  dirent_name :: string
  dirent_inode :: u64
  dirent_kind :: NodeKind

section \<open>Construction and cache policy\<close>

definition runtime_new :: Runtime where
  "runtime_new =
     \<lparr>rt_next_provider_id = 1, rt_next_promise_id = 1, rt_next_node_id = 1,
      rt_next_inode = FUSE_ROOT_INODE + 1, rt_providers = [], rt_promises = [],
      rt_cache_policy = NoCache, rt_read_cache = read_cache_default\<rparr>"

definition set_cache_policy :: "Runtime \<Rightarrow> CachePolicy \<Rightarrow> Runtime \<times> unit result" where
  "set_cache_policy rt cache_policy =
     (case cache_policy_validated cache_policy of
        Inl e \<Rightarrow> (rt, Inl e)
      | Inr policy \<Rightarrow>
          (let rt' = rt\<lparr>rt_cache_policy := policy\<rparr> in
           (if policy = NoCache then rt'\<lparr>rt_read_cache := cache_clear (rt_read_cache rt')\<rparr> else rt',
            Inr ())))"

definition runtime_with_cache_policy :: "CachePolicy \<Rightarrow> Runtime result" where
  "runtime_with_cache_policy cache_policy =
     (case set_cache_policy runtime_new cache_policy of
        (_, Inl e) \<Rightarrow> Inl e
      | (rt, Inr _) \<Rightarrow> Inr rt)"

section \<open>Providers\<close>

definition register_provider :: "Runtime \<Rightarrow> Runtime \<times> ProviderId" where
  "register_provider rt =
     (let provider_id = rt_next_provider_id rt in
      (rt\<lparr>rt_next_provider_id := rt_next_provider_id rt + 1,
          rt_providers := bt_insert provider_id
            \<lparr>session_id = provider_id, session_state = Live\<rparr> (rt_providers rt)\<rparr>,
       provider_id))"

definition disconnect_promise :: "ProviderId \<Rightarrow> PromiseTree \<Rightarrow> PromiseTree" where
  "disconnect_promise provider_id t =
     (if tree_provider_id t = provider_id \<and> tree_state t = Available
      then t\<lparr>tree_state := PromiseState.ProviderGone\<rparr> else t)"

definition unregister_provider :: "Runtime \<Rightarrow> ProviderId \<Rightarrow> Runtime \<times> unit result" where
  "unregister_provider rt provider_id =
     (case bt_get (rt_providers rt) provider_id of
        None \<Rightarrow> (rt, Inl Status.NotFound)
      | Some provider \<Rightarrow>
          (rt\<lparr>rt_providers := bt_insert provider_id (provider\<lparr>session_state := Disconnected\<rparr>) (rt_providers rt),
              rt_promises := bt_map_values (disconnect_promise provider_id) (rt_promises rt)\<rparr>,
           Inr ()))"

definition has_provider :: "Runtime \<Rightarrow> ProviderId \<Rightarrow> bool" where
  "has_provider rt provider_id \<longleftrightarrow>
     (case bt_get (rt_providers rt) provider_id of
        None \<Rightarrow> False
      | Some provider \<Rightarrow> session_state provider = Live)"

definition provider_count :: "Runtime \<Rightarrow> nat" where
  "provider_count rt = length (rt_providers rt)"

definition promise_count :: "Runtime \<Rightarrow> nat" where
  "promise_count rt = length (rt_promises rt)"

section \<open>Committing a promise\<close>

definition allocate_node_id :: "Runtime \<Rightarrow> Runtime \<times> NodeId result" where
  "allocate_node_id rt =
     (case checked_add (rt_next_node_id rt) 1 of
        None \<Rightarrow> (rt, Inl Status.InvalidArgument)
      | Some next \<Rightarrow> (rt\<lparr>rt_next_node_id := next\<rparr>, Inr (rt_next_node_id rt)))"

definition allocate_inode :: "Runtime \<Rightarrow> Runtime \<times> u64 result" where
  "allocate_inode rt =
     (case checked_add (rt_next_inode rt) 1 of
        None \<Rightarrow> (rt, Inl Status.InvalidArgument)
      | Some next \<Rightarrow> (rt\<lparr>rt_next_inode := next\<rparr>, Inr (rt_next_inode rt)))"

text \<open>The loop of \<open>assign_runtime_ids\<close> over the entries of the node map.\<close>

fun assign_runtime_ids ::
    "Runtime \<Rightarrow> (string \<times> PromiseNode) list \<Rightarrow> Runtime \<times> (string \<times> PromiseNode) list result" where
  "assign_runtime_ids rt [] = (rt, Inr [])"
| "assign_runtime_ids rt ((path, node) # rest) =
     (case allocate_node_id rt of
        (rt1, Inl e) \<Rightarrow> (rt1, Inl e)
      | (rt1, Inr nid) \<Rightarrow>
          (case allocate_inode rt1 of
             (rt2, Inl e) \<Rightarrow> (rt2, Inl e)
           | (rt2, Inr inode) \<Rightarrow>
               (case assign_runtime_ids rt2 rest of
                  (rt3, Inl e) \<Rightarrow> (rt3, Inl e)
                | (rt3, Inr rest') \<Rightarrow>
                    (rt3, Inr ((path, node\<lparr>node_id := nid, node_inode := inode\<rparr>) # rest')))))"

definition promise_name :: "u64 \<Rightarrow> string" where
  "promise_name n = ''promise-'' @ decimal (unat n)"

definition commit_promise :: "Runtime \<Rightarrow> PromiseBuilder \<Rightarrow> Runtime \<times> PromiseTree result" where
  "commit_promise rt builder =
     (if \<not> has_provider rt (builder_provider_id builder) then (rt, Inl Status.ProviderGone)
      else
        (let promise_id = promise_name (rt_next_promise_id rt);
             rt1 = rt\<lparr>rt_next_promise_id := rt_next_promise_id rt + 1\<rparr>;
             tree = builder_finish builder promise_id in
         case assign_runtime_ids rt1 (tree_nodes tree) of
           (rt2, Inl e) \<Rightarrow> (rt2, Inl e)
         | (rt2, Inr nodes) \<Rightarrow>
             (let tree' = tree\<lparr>tree_nodes := nodes\<rparr> in
              (rt2\<lparr>rt_promises := bt_insert promise_id tree' (rt_promises rt2)\<rparr>, Inr tree'))))"

definition promise :: "Runtime \<Rightarrow> string \<Rightarrow> PromiseTree option" where
  "promise rt promise_id = bt_get (rt_promises rt) promise_id"

section \<open>Lookup and listing\<close>

definition lookup_inode :: "Runtime \<Rightarrow> u64 \<Rightarrow> RuntimeEntry result" where
  "lookup_inode rt inode =
     (if inode = FUSE_ROOT_INODE then Inr MountRoot
      else ok_or
        (find_map (\<lambda>tree. find_map (\<lambda>node.
             if node_inode node = inode then Some (PromiseNode (tree_promise_id tree) node) else None)
           (bt_values (tree_nodes tree)))
         (bt_values (rt_promises rt)))
        Status.NotFound)"

text \<open>The \<open>MountRoot\<close> result of the inner lookup is \<open>unreachable!\<close> in the source, since
  the root inode is handled first; the branch is kept as the same error as a missing entry.\<close>

definition lookup_child :: "Runtime \<Rightarrow> u64 \<Rightarrow> string \<Rightarrow> RuntimeEntry result" where
  "lookup_child rt parent_inode name =
     res_bind (validate_child_name name) (\<lambda>_.
     if parent_inode = FUSE_ROOT_INODE then
       res_bind (ok_or (promise rt name) Status.NotFound) (\<lambda>tree.
       res_bind (ok_or (bt_get (tree_nodes tree) []) Status.NotFound) (\<lambda>node.
       Inr (PromiseNode (tree_promise_id tree) node)))
     else
       res_bind (lookup_inode rt parent_inode) (\<lambda>entry.
       case entry of
         MountRoot \<Rightarrow> Inl Status.NotFound
       | PromiseNode promise_id parent \<Rightarrow>
           res_bind (fail_if (node_kind parent \<noteq> Directory) Status.InvalidArgument) (\<lambda>_.
           res_bind (ok_or (promise rt promise_id) Status.NotFound) (\<lambda>tree.
           let child_relative_path = child_path (node_relative_path parent) name in
           res_bind (fail_if (\<not> (case bt_get (tree_children tree) (node_relative_path parent) of
               None \<Rightarrow> False | Some children \<Rightarrow> child_relative_path \<in> set children)) Status.NotFound) (\<lambda>_.
           res_bind (ok_or (bt_get (tree_nodes tree) child_relative_path) Status.NotFound) (\<lambda>child.
           Inr (PromiseNode promise_id child)))))))"

definition read_dir :: "Runtime \<Rightarrow> u64 \<Rightarrow> DirectoryEntry list result" where
  "read_dir rt inode =
     (if inode = FUSE_ROOT_INODE then
        collect_results (map (\<lambda>tree.
          res_bind (ok_or (bt_get (tree_nodes tree) []) Status.NotFound) (\<lambda>root.
          Inr \<lparr>dirent_name = tree_promise_id tree, dirent_inode = node_inode root,
               dirent_kind = Directory\<rparr>)) (bt_values (rt_promises rt)))
      else
        res_bind (lookup_inode rt inode) (\<lambda>entry.
        case entry of
          MountRoot \<Rightarrow> Inl Status.NotFound
        | PromiseNode promise_id node \<Rightarrow>
            res_bind (fail_if (node_kind node \<noteq> Directory) Status.InvalidArgument) (\<lambda>_.
            res_bind (ok_or (promise rt promise_id) Status.NotFound) (\<lambda>tree.
            res_bind (ok_or (bt_get (tree_children tree) (node_relative_path node)) Status.NotFound) (\<lambda>children.
            collect_results (map (\<lambda>child_path.
              res_bind (ok_or (bt_get (tree_nodes tree) child_path) Status.NotFound) (\<lambda>child.
              Inr \<lparr>dirent_name = node_name child, dirent_inode = node_inode child,
                   dirent_kind = node_kind child\<rparr>)) children))))))"

section \<open>Materialisation and the read cache\<close>

definition mark_node_materialized :: "Runtime \<Rightarrow> string \<Rightarrow> string \<Rightarrow> path \<Rightarrow> Runtime \<times> unit result" where
  "mark_node_materialized rt promise_id relative_path materialized_path =
     (case
        res_bind (normalize_relative_path relative_path) (\<lambda>normalized_path.
        res_bind (ok_or (bt_get (rt_promises rt) promise_id) Status.NotFound) (\<lambda>tree.
        res_bind (ok_or (bt_get (tree_nodes tree) normalized_path) Status.NotFound) (\<lambda>node.
        res_bind (fail_if (\<not> utf8_valid materialized_path) Status.InvalidArgument) (\<lambda>_.
        Inr (rt\<lparr>rt_promises := bt_insert promise_id
               (tree\<lparr>tree_nodes := bt_insert normalized_path
                  (node\<lparr>node_materialized_path := Some materialized_path\<rparr>) (tree_nodes tree)\<rparr>)
               (rt_promises rt)\<rparr>)))))
      of Inl e \<Rightarrow> (rt, Inl e) | Inr rt' \<Rightarrow> (rt', Inr ()))"

definition record_cached_read :: "Runtime \<Rightarrow> string \<Rightarrow> string \<Rightarrow> u64 \<Rightarrow> bytes \<Rightarrow> Runtime \<times> unit result" where
  "record_cached_read rt promise_id relative_path offset bytes =
     (case cache_policy_chunk_size (rt_cache_policy rt) of
        None \<Rightarrow> (rt, Inr ())
      | Some chunk_size \<Rightarrow>
          if bytes = [] then (rt, Inr ())
          else
            (case
               res_bind (ok_or (promise rt promise_id) Status.NotFound) (\<lambda>tree.
               res_bind (ok_or (tree_get tree relative_path) Status.NotFound) (\<lambda>node.
               res_bind (fail_if (node_kind node \<noteq> File) Status.InvalidArgument) (\<lambda>_.
               res_bind (ok_or (u64_try_from (length bytes)) Status.InvalidArgument) (\<lambda>len.
               res_bind (ok_or (checked_add offset len) Status.InvalidArgument) (\<lambda>end.
               res_bind (fail_if (end > attr_size (node_attr node)) Status.InvalidArgument) (\<lambda>_.
               Inr (node_relative_path node)))))))
             of Inl e \<Rightarrow> (rt, Inl e)
              | Inr path \<Rightarrow>
                  (rt\<lparr>rt_read_cache := cache_insert (rt_read_cache rt) promise_id path offset bytes chunk_size\<rparr>,
                   Inr ())))"

section \<open>The invariant\<close>

definition node_at :: "Runtime \<Rightarrow> string \<Rightarrow> string \<Rightarrow> PromiseNode option" where
  "node_at rt promise_id path = Option.bind (promise rt promise_id) (\<lambda>t. bt_get (tree_nodes t) path)"

definition provider_ok :: "Runtime \<Rightarrow> ProviderId \<Rightarrow> ProviderSession \<Rightarrow> bool" where
  "provider_ok rt pid s \<longleftrightarrow> session_id s = pid \<and> 0 < pid \<and> pid < rt_next_provider_id rt"

definition promise_ok :: "Runtime \<Rightarrow> string \<Rightarrow> PromiseTree \<Rightarrow> bool" where
  "promise_ok rt pid t \<longleftrightarrow>
     tree_promise_id t = pid \<and>
     (\<exists>n. 0 < n \<and> n < rt_next_promise_id rt \<and> pid = promise_name n) \<and>
     tree_wf t \<and> bt_get (rt_providers rt) (tree_provider_id t) \<noteq> None \<and>
     tree_state t = (if has_provider rt (tree_provider_id t) then Available else PromiseState.ProviderGone)"

text \<open>\<open>sel\<close> numbers the nodes of all promises without repetition, between \<open>lo\<close> and \<open>hi\<close>.\<close>

definition numbering :: "Runtime \<Rightarrow> (PromiseNode \<Rightarrow> u64) \<Rightarrow> u64 \<Rightarrow> u64 \<Rightarrow> bool" where
  "numbering rt sel lo hi \<longleftrightarrow>
     (\<forall>pid p n. node_at rt pid p = Some n \<longrightarrow> lo \<le> sel n \<and> sel n < hi) \<and>
     (\<forall>pid p n pid' p' n'. node_at rt pid p = Some n \<longrightarrow> node_at rt pid' p' = Some n' \<longrightarrow>
        sel n = sel n' \<longrightarrow> pid = pid' \<and> p = p')"

definition rt_inv :: "Runtime \<Rightarrow> bool" where
  "rt_inv rt \<longleftrightarrow>
     bt_wf (rt_providers rt) \<and> bt_wf (rt_promises rt) \<and>
     (\<forall>pid s. bt_get (rt_providers rt) pid = Some s \<longrightarrow> provider_ok rt pid s) \<and>
     (\<forall>pid t. promise rt pid = Some t \<longrightarrow> promise_ok rt pid t) \<and>
     numbering rt node_inode 2 (rt_next_inode rt) \<and>
     numbering rt node_id 1 (rt_next_node_id rt) \<and>
     0 < rt_next_provider_id rt \<and> 0 < rt_next_promise_id rt \<and>
     1 < rt_next_inode rt \<and> 0 < rt_next_node_id rt \<and>
     cache_policy_validated (rt_cache_policy rt) = Inr (rt_cache_policy rt) \<and>
     cache_wf (rt_read_cache rt)"

lemma rt_invD:
  assumes "rt_inv rt"
  shows "bt_wf (rt_providers rt)" and "bt_wf (rt_promises rt)"
    and "\<And>pid s. bt_get (rt_providers rt) pid = Some s \<Longrightarrow> provider_ok rt pid s"
    and "\<And>pid t. promise rt pid = Some t \<Longrightarrow> promise_ok rt pid t"
    and "numbering rt node_inode 2 (rt_next_inode rt)" and "numbering rt node_id 1 (rt_next_node_id rt)"
    and "0 < rt_next_provider_id rt" and "0 < rt_next_promise_id rt"
    and "1 < rt_next_inode rt" and "0 < rt_next_node_id rt"
    and "cache_policy_validated (rt_cache_policy rt) = Inr (rt_cache_policy rt)"
    and "cache_wf (rt_read_cache rt)"
  using assms by (auto simp: rt_inv_def)

lemma rt_inv_new: "rt_inv runtime_new"
  by (simp add: rt_inv_def runtime_new_def promise_def node_at_def numbering_def FUSE_ROOT_INODE_def
      cache_policy_validated_def)

lemma promise_name_inj [simp]: "promise_name m = promise_name n \<longleftrightarrow> m = n"
  by (simp add: promise_name_def word_unat_eq_iff)

lemma rt_inv_node:
  assumes "rt_inv rt" and "node_at rt pid p = Some n"
  obtains t where "promise rt pid = Some t" "bt_get (tree_nodes t) p = Some n" "promise_ok rt pid t"
    "node_relative_path n = p" "normal_path p"
proof -
  from assms(2) obtain t where t: "promise rt pid = Some t" "bt_get (tree_nodes t) p = Some n"
    by (auto simp: node_at_def bind_eq_Some_conv)
  moreover from t(1) have ok: "promise_ok rt pid t" by (rule rt_invD(4) [OF assms(1)])
  moreover from this t(2) have "node_ok (tree_nodes t) p n"
    using shape_wfD(4) by (auto simp: promise_ok_def tree_wf_def)
  ultimately show ?thesis using that by (auto simp: node_ok_def)
qed

section \<open>Operations keep the invariant\<close>

lemma promise_update [simp]:
  "promise (rt\<lparr>rt_cache_policy := cp\<rparr>) = promise rt" "promise (rt\<lparr>rt_read_cache := rc\<rparr>) = promise rt"
  "promise (rt\<lparr>rt_next_provider_id := a\<rparr>) = promise rt" "promise (rt\<lparr>rt_next_promise_id := a\<rparr>) = promise rt"
  "promise (rt\<lparr>rt_next_node_id := a\<rparr>) = promise rt" "promise (rt\<lparr>rt_next_inode := a\<rparr>) = promise rt"
  "promise (rt\<lparr>rt_providers := ps\<rparr>) = promise rt"
  by (simp_all add: promise_def fun_eq_iff)

lemma node_at_update [simp]:
  "node_at (rt\<lparr>rt_cache_policy := cp\<rparr>) = node_at rt" "node_at (rt\<lparr>rt_read_cache := rc\<rparr>) = node_at rt"
  "node_at (rt\<lparr>rt_next_provider_id := a\<rparr>) = node_at rt" "node_at (rt\<lparr>rt_next_promise_id := a\<rparr>) = node_at rt"
  "node_at (rt\<lparr>rt_next_node_id := a\<rparr>) = node_at rt" "node_at (rt\<lparr>rt_next_inode := a\<rparr>) = node_at rt"
  "node_at (rt\<lparr>rt_providers := ps\<rparr>) = node_at rt"
  by (simp_all add: node_at_def fun_eq_iff)

lemma numbering_cong: "node_at rt = node_at rt' \<Longrightarrow> numbering rt = numbering rt'"
  by (simp add: numbering_def fun_eq_iff)

lemma has_provider_cong: "rt_providers rt = rt_providers rt' \<Longrightarrow> has_provider rt = has_provider rt'"
  by (simp add: has_provider_def fun_eq_iff)

lemma provider_ok_cong: "rt_next_provider_id rt = rt_next_provider_id rt' \<Longrightarrow> provider_ok rt = provider_ok rt'"
  by (simp add: provider_ok_def fun_eq_iff)

lemma promise_ok_cong:
  "rt_providers rt = rt_providers rt' \<Longrightarrow> rt_next_promise_id rt = rt_next_promise_id rt' \<Longrightarrow>
     promise_ok rt = promise_ok rt'"
  using has_provider_cong [of rt rt'] by (simp add: promise_ok_def fun_eq_iff)

text \<open>The cache is independent of the rest of the invariant.\<close>

lemma rt_inv_cache:
  "rt_inv rt \<Longrightarrow> cache_policy_validated cp = Inr cp \<Longrightarrow> cache_wf rc \<Longrightarrow>
     rt_inv (rt\<lparr>rt_cache_policy := cp, rt_read_cache := rc\<rparr>)"
  using numbering_cong [of "rt\<lparr>rt_cache_policy := cp, rt_read_cache := rc\<rparr>" rt]
    provider_ok_cong [of "rt\<lparr>rt_cache_policy := cp, rt_read_cache := rc\<rparr>" rt]
    promise_ok_cong [of "rt\<lparr>rt_cache_policy := cp, rt_read_cache := rc\<rparr>" rt]
  by (simp add: rt_inv_def)

lemma set_cache_policy_inv:
  assumes "rt_inv rt"
  shows "rt_inv (fst (set_cache_policy rt policy))"
proof (cases "cache_policy_validated policy")
  case (Inr q)
  then have "cache_policy_validated q = Inr q" by (auto simp: cache_policy_validated_Inr)
  then show ?thesis
    using rt_inv_cache [OF assms, of q read_cache_default] rt_inv_cache [OF assms, of q "rt_read_cache rt"]
      rt_invD(12) [OF assms] Inr
    by (auto simp: set_cache_policy_def Let_def cache_clear_default)
qed (simp add: set_cache_policy_def assms)

lemma unat_plus_one: "b \<noteq> - 1 \<Longrightarrow> unat (b + 1) = unat b + 1" for b :: u64
proof -
  assume "b \<noteq> - 1"
  then have "unat b \<noteq> 18446744073709551615" using unat_u64_max by (metis word_unat_eq_iff)
  moreover have "unat b < 18446744073709551616" by simp
  ultimately have "unat b + 1 < 18446744073709551616" by linarith
  then show ?thesis using unat_add_small [of b 1] by simp
qed

lemma less_plus_one: "b \<noteq> - 1 \<Longrightarrow> a \<le> b \<Longrightarrow> a < b + 1" for a b :: u64
  by (simp add: word_less_nat_alt word_le_nat_alt unat_plus_one)

lemma register_provider_inv:
  assumes "rt_inv rt" and "rt_next_provider_id rt \<noteq> - 1"
  shows "rt_inv (fst (register_provider rt))"
proof -
  note d = rt_invD [OF assms(1)] and up = less_plus_one [OF assms(2)]
  let ?rt = "fst (register_provider rt)" and ?new = "rt_next_provider_id rt"
  have fresh: "bt_get (rt_providers rt) ?new = None"
    using d(3) [of ?new] by (cases "bt_get (rt_providers rt) ?new") (auto simp: provider_ok_def)
  have simps: "rt_providers ?rt = bt_insert ?new \<lparr>session_id = ?new, session_state = Live\<rparr> (rt_providers rt)"
    "promise ?rt = promise rt" "rt_promises ?rt = rt_promises rt" "node_at ?rt = node_at rt"
    "rt_next_provider_id ?rt = ?new + 1" "rt_next_promise_id ?rt = rt_next_promise_id rt"
    "rt_next_inode ?rt = rt_next_inode rt" "rt_next_node_id ?rt = rt_next_node_id rt"
    "rt_cache_policy ?rt = rt_cache_policy rt" "rt_read_cache ?rt = rt_read_cache rt"
    by (simp_all add: register_provider_def Let_def promise_def node_at_def fun_eq_iff)
  have "provider_ok ?rt pid s" if "bt_get (rt_providers ?rt) pid = Some s" for pid s
    using that d(3) [of pid s] d(7) up [of pid] up [of ?new]
    by (cases "pid = ?new") (auto simp: provider_ok_def simps)
  moreover have "promise_ok ?rt pid t" if "promise ?rt pid = Some t" for pid t
  proof -
    from that have ok: "promise_ok rt pid t" using d(4) by (simp add: simps)
    then have "tree_provider_id t \<noteq> ?new" using fresh by (auto simp: promise_ok_def)
    with ok show ?thesis by (simp add: promise_ok_def simps has_provider_def)
  qed
  moreover have "0 < rt_next_provider_id ?rt" unfolding simps by (rule up) simp
  ultimately show ?thesis using d by (simp add: rt_inv_def simps numbering_def)
qed

lemma unregister_provider_inv:
  assumes "rt_inv rt"
  shows "rt_inv (fst (unregister_provider rt gone))"
proof (cases "bt_get (rt_providers rt) gone")
  case None
  then show ?thesis using assms by (simp add: unregister_provider_def)
next
  case (Some s)
  note d = rt_invD [OF assms]
  let ?rt = "fst (unregister_provider rt gone)"
  have simps: "rt_providers ?rt = bt_insert gone (s\<lparr>session_state := Disconnected\<rparr>) (rt_providers rt)"
    "rt_promises ?rt = bt_map_values (disconnect_promise gone) (rt_promises rt)"
    "rt_next_provider_id ?rt = rt_next_provider_id rt" "rt_next_promise_id ?rt = rt_next_promise_id rt"
    "rt_next_inode ?rt = rt_next_inode rt" "rt_next_node_id ?rt = rt_next_node_id rt"
    "rt_cache_policy ?rt = rt_cache_policy rt" "rt_read_cache ?rt = rt_read_cache rt"
    by (simp_all add: unregister_provider_def Some)
  have pr: "promise ?rt pid = map_option (disconnect_promise gone) (promise rt pid)" for pid
    by (simp add: promise_def simps)
  have fields: "tree_nodes (disconnect_promise gone t) = tree_nodes t" "tree_children (disconnect_promise gone t) = tree_children t"
    "tree_promise_id (disconnect_promise gone t) = tree_promise_id t" "tree_provider_id (disconnect_promise gone t) = tree_provider_id t" for t
    by (simp_all add: disconnect_promise_def)
  have at: "node_at ?rt pid p = node_at rt pid p" for pid p
    by (cases "promise rt pid") (simp_all add: node_at_def pr fields)
  have has: "has_provider ?rt q \<longleftrightarrow> q \<noteq> gone \<and> has_provider rt q" for q
    by (auto simp: has_provider_def simps Some split: option.splits)
  have "provider_ok ?rt pid s'" if "bt_get (rt_providers ?rt) pid = Some s'" for pid s'
    using that d(3) [of pid] Some by (auto simp: provider_ok_def simps split: if_splits)
  moreover have "promise_ok ?rt pid t" if "promise ?rt pid = Some t" for pid t
  proof -
    from that obtain t0 where t0: "promise rt pid = Some t0" "t = disconnect_promise gone t0" by (auto simp: pr)
    have "tree_state t = (if has_provider ?rt (tree_provider_id t) then Available else PromiseState.ProviderGone)"
      using d(4) [OF t0(1)] t0(2) has by (auto simp: promise_ok_def disconnect_promise_def)
    then show ?thesis using d(4) [OF t0(1)] by (simp add: promise_ok_def t0(2) fields tree_wf_def simps)
  qed
  ultimately show ?thesis using d by (simp add: rt_inv_def simps numbering_def at)
qed

text \<open>What \<open>assign_runtime_ids\<close> computes: consecutive ids in key order.\<close>

fun number_nodes :: "u64 \<Rightarrow> u64 \<Rightarrow> (string \<times> PromiseNode) list \<Rightarrow> (string \<times> PromiseNode) list" where
  "number_nodes a b [] = []"
| "number_nodes a b ((path, node) # rest) =
     (path, node\<lparr>node_id := a, node_inode := b\<rparr>) # number_nodes (a + 1) (b + 1) rest"

lemma unat_plus_one_small: "unat b + 1 < 2 ^ 64 \<Longrightarrow> unat (b + 1) = Suc (unat b)" for b :: u64
  using unat_add_small [of b 1] by simp

lemma checked_add_one: "checked_add b 1 = (if b = - 1 then None else Some (b + 1))" for b :: u64
proof -
  have "unat b + 1 < 18446744073709551616" if "b \<noteq> - 1"
    using unat_plus_one [OF that] unat_less_2p64 [of "b + 1"] by simp
  then show ?thesis by (auto simp: checked_add_def)
qed

lemma assign_runtime_ids_result:
  "assign_runtime_ids rt es = (rt', r) \<Longrightarrow>
    (\<exists>a b. rt' = rt\<lparr>rt_next_node_id := a, rt_next_inode := b\<rparr> \<and> rt_next_node_id rt \<le> a \<and> rt_next_inode rt \<le> b \<and>
      (r = Inl Status.InvalidArgument \<or>
       r = Inr (number_nodes (rt_next_node_id rt) (rt_next_inode rt) es) \<and>
       unat a = unat (rt_next_node_id rt) + length es \<and> unat b = unat (rt_next_inode rt) + length es))"
proof (induction rt es arbitrary: rt' r rule: assign_runtime_ids.induct)
  case (1 rt)
  then show ?case by (intro exI [of _ "rt_next_node_id rt"] exI [of _ "rt_next_inode rt"]) auto
next
  case (2 rt path node rest)
  show ?case
  proof (cases "rt_next_node_id rt = - 1 \<or> rt_next_inode rt = - 1")
    case True
    then consider "rt_next_node_id rt = - 1" | "rt_next_node_id rt \<noteq> - 1" "rt_next_inode rt = - 1" by blast
    then show ?thesis
    proof cases
      case 1
      with "2.prems" have "rt' = rt" "r = Inl Status.InvalidArgument"
        by (auto simp: allocate_node_id_def checked_add_one)
      then show ?thesis by (intro exI [of _ "rt_next_node_id rt"] exI [of _ "rt_next_inode rt"]) simp
    next
      case 2
      with "2.prems" have "rt' = rt\<lparr>rt_next_node_id := rt_next_node_id rt + 1\<rparr>" "r = Inl Status.InvalidArgument"
        by (auto simp: allocate_node_id_def allocate_inode_def checked_add_one)
      with less_plus_one [OF 2(1) order_refl] show ?thesis
        by (intro exI [of _ "rt_next_node_id rt + 1"] exI [of _ "rt_next_inode rt"]) simp
    qed
  next
    case False
    let ?rt = "rt\<lparr>rt_next_node_id := rt_next_node_id rt + 1, rt_next_inode := rt_next_inode rt + 1\<rparr>"
    have alloc: "allocate_node_id rt = (rt\<lparr>rt_next_node_id := rt_next_node_id rt + 1\<rparr>, Inr (rt_next_node_id rt))"
      "allocate_inode (rt\<lparr>rt_next_node_id := rt_next_node_id rt + 1\<rparr>) = (?rt, Inr (rt_next_inode rt))"
      using False by (simp_all add: allocate_node_id_def allocate_inode_def checked_add_one)
    obtain rt3 r3 where r3: "assign_runtime_ids ?rt rest = (rt3, r3)" by fastforce
    from "2.IH" [OF alloc(1) [symmetric] refl alloc(2) [symmetric] refl r3] obtain a b where
      ab: "rt3 = ?rt\<lparr>rt_next_node_id := a, rt_next_inode := b\<rparr>" "rt_next_node_id rt + 1 \<le> a" "rt_next_inode rt + 1 \<le> b"
        "r3 = Inl Status.InvalidArgument \<or>
          r3 = Inr (number_nodes (rt_next_node_id rt + 1) (rt_next_inode rt + 1) rest) \<and>
          unat a = unat (rt_next_node_id rt + 1) + length rest \<and> unat b = unat (rt_next_inode rt + 1) + length rest"
      by auto
    have u: "unat (rt_next_node_id rt + 1) = unat (rt_next_node_id rt) + 1"
      "unat (rt_next_inode rt + 1) = unat (rt_next_inode rt) + 1"
      using False unat_plus_one [of "rt_next_node_id rt"] unat_plus_one [of "rt_next_inode rt"] by blast+
    from ab(2,3) have "rt_next_node_id rt \<le> a" "rt_next_inode rt \<le> b"
      using u by (auto simp: word_le_nat_alt)
    with "2.prems" r3 alloc ab u show ?thesis
      by (intro exI [of _ a] exI [of _ b]) (auto split: sum.splits)
  qed
qed

definition same_node :: "PromiseNode \<Rightarrow> PromiseNode \<Rightarrow> bool" where
  "same_node m n \<longleftrightarrow>
     node_relative_path m = node_relative_path n \<and> node_parent_path m = node_parent_path n \<and>
     node_name m = node_name n \<and> node_provider_node_id m = node_provider_node_id n \<and>
     node_kind m = node_kind n \<and> node_attr m = node_attr n"

lemma number_nodes_keys [simp]: "map fst (number_nodes a b es) = map fst es"
  by (induction a b es rule: number_nodes.induct) auto

lemma number_nodes_get:
  "rel_option (\<lambda>m n. same_node m n \<and> node_materialized_path m = node_materialized_path n)
     (bt_get es p) (bt_get (number_nodes a b es) p)"
  by (induction a b es rule: number_nodes.induct) (auto simp: same_node_def)

lemma number_nodes_ids:
  assumes "unat a + length es < 2 ^ 64" and "unat b + length es < 2 ^ 64"
    and "bt_get (number_nodes a b es) p = Some n"
  shows "a \<le> node_id n \<and> unat (node_id n) < unat a + length es \<and>
    b \<le> node_inode n \<and> unat (node_inode n) < unat b + length es"
  using assms
proof (induction a b es rule: number_nodes.induct)
  case (2 a b path node rest)
  have u: "unat (a + 1) = unat a + 1" "unat (b + 1) = unat b + 1"
    using "2.prems"(1,2) by (simp_all add: unat_plus_one_small)
  show ?case
  proof (cases "p = path")
    case True
    with "2.prems"(3) show ?thesis by auto
  next
    case False
    then show ?thesis using "2.IH" "2.prems" u by (auto simp: word_le_nat_alt)
  qed
qed simp

lemma number_nodes_unique:
  assumes "unat a + length es < 2 ^ 64" and "unat b + length es < 2 ^ 64"
    and "bt_get (number_nodes a b es) p = Some n" and "bt_get (number_nodes a b es) q = Some m"
    and "node_id n = node_id m \<or> node_inode n = node_inode m"
  shows "p = q"
  using assms
proof (induction a b es rule: number_nodes.induct)
  case (2 a b path node rest)
  have u: "unat (a + 1) = unat a + 1" "unat (b + 1) = unat b + 1"
    using "2.prems"(1,2) by (simp_all add: unat_plus_one_small)
  then have len: "unat (a + 1) + length rest < 2 ^ 64" "unat (b + 1) + length rest < 2 ^ 64"
    using "2.prems"(1,2) by simp_all
  have tail: "a < node_id n'" "b < node_inode n'" if "bt_get (number_nodes (a + 1) (b + 1) rest) p' = Some n'" for p' n'
    using number_nodes_ids [OF len that] u by (auto simp: word_le_nat_alt word_less_nat_alt)
  show ?case
    using "2.IH" [OF len] "2.prems"(3-5) tail [of p n] tail [of q m] by (auto split: if_splits)
qed simp

lemma shape_wf_cong:
  assumes "shape_wf nodes children" and "bt_wf nodes'" and "\<And>p. rel_option same_node (bt_get nodes p) (bt_get nodes' p)"
  shows "shape_wf nodes' children"
proof -
  note d = shape_wfD [OF assms(1)]
  have dir: "is_dir nodes' p = is_dir nodes p" for p
    using assms(3) [of p] by (auto simp: is_dir_def same_node_def split: option.splits)
  have "set (bt_keys nodes') = set (bt_keys nodes)"
    using assms(2,3) d(1) by (auto simp: bt_keys_get) (metis option.rel_distinct option.exhaust)+
  then have "bt_keys nodes' = bt_keys nodes"
    using assms(2) d(1) by (intro strict_sorted_unique) (simp_all add: bt_wf_keys)
  then have kids: "child_keys nodes' = child_keys nodes" by (simp add: child_keys_def fun_eq_iff)
  have "node_ok nodes' p n" if n: "bt_get nodes' p = Some n" for p n
  proof -
    from assms(3) [of p] n obtain m where "bt_get nodes p = Some m" "same_node m n"
      by (cases "bt_get nodes p") auto
    then show ?thesis using d(4) [of p m] unfolding node_ok_def same_node_def dir by metis
  qed
  then show ?thesis using d assms(2) dir kids by (simp add: shape_wf_iff)
qed

lemma number_nodes_wf: "shape_wf nodes children \<Longrightarrow> shape_wf (number_nodes a b nodes) children"
proof (rule shape_wf_cong)
  assume "shape_wf nodes children"
  then show "bt_wf (number_nodes a b nodes)" using shape_wfD(1) by (auto simp: bt_wf_def)
  show "rel_option same_node (bt_get nodes p) (bt_get (number_nodes a b nodes) p)" for p
    using number_nodes_get by (rule option.rel_mono_strong) simp
qed

text \<open>The three outcomes of \<open>commit_promise\<close>.\<close>

lemma commit_promise_cases:
  obtains (gone) "\<not> has_provider rt (builder_provider_id b)" "commit_promise rt b = (rt, Inl Status.ProviderGone)"
  | (exhausted) na nb where "has_provider rt (builder_provider_id b)"
      "commit_promise rt b = (rt\<lparr>rt_next_promise_id := rt_next_promise_id rt + 1, rt_next_node_id := na,
         rt_next_inode := nb\<rparr>, Inl Status.InvalidArgument)"
      "rt_next_node_id rt \<le> na" "rt_next_inode rt \<le> nb"
  | (committed) na nb t where "has_provider rt (builder_provider_id b)"
      "t = (builder_finish b (promise_name (rt_next_promise_id rt)))
         \<lparr>tree_nodes := number_nodes (rt_next_node_id rt) (rt_next_inode rt) (builder_nodes b)\<rparr>"
      "commit_promise rt b = (rt\<lparr>rt_next_promise_id := rt_next_promise_id rt + 1, rt_next_node_id := na,
         rt_next_inode := nb, rt_promises := bt_insert (promise_name (rt_next_promise_id rt)) t (rt_promises rt)\<rparr>, Inr t)"
      "unat na = unat (rt_next_node_id rt) + length (builder_nodes b)"
      "unat nb = unat (rt_next_inode rt) + length (builder_nodes b)"
proof (cases "has_provider rt (builder_provider_id b)")
  case False
  then show ?thesis using gone by (simp add: commit_promise_def)
next
  case True
  let ?rt1 = "rt\<lparr>rt_next_promise_id := rt_next_promise_id rt + 1\<rparr>"
  obtain rt2 r where as: "assign_runtime_ids ?rt1 (builder_nodes b) = (rt2, r)" by fastforce
  have nodes: "tree_nodes (builder_finish b q) = builder_nodes b" for q by (simp add: builder_finish_def)
  from assign_runtime_ids_result [OF as] obtain na nb where
    "rt2 = ?rt1\<lparr>rt_next_node_id := na, rt_next_inode := nb\<rparr>" "rt_next_node_id rt \<le> na" "rt_next_inode rt \<le> nb"
    "r = Inl Status.InvalidArgument \<or>
       r = Inr (number_nodes (rt_next_node_id rt) (rt_next_inode rt) (builder_nodes b)) \<and>
       unat na = unat (rt_next_node_id rt) + length (builder_nodes b) \<and>
       unat nb = unat (rt_next_inode rt) + length (builder_nodes b)" by auto
  note r = this
  from r(4) show ?thesis
  proof (elim disjE conjE)
    assume "r = Inl Status.InvalidArgument"
    then show ?thesis using r(1-3) True as
      by (intro exhausted) (auto simp: commit_promise_def Let_def nodes)
  next
    assume "r = Inr (number_nodes (rt_next_node_id rt) (rt_next_inode rt) (builder_nodes b))"
      "unat na = unat (rt_next_node_id rt) + length (builder_nodes b)"
      "unat nb = unat (rt_next_inode rt) + length (builder_nodes b)"
    then show ?thesis using r(1) True as
      by (intro committed [OF True refl]) (auto simp: commit_promise_def Let_def nodes)
  qed
qed

lemma numbering_mono: "numbering rt sel lo hi \<Longrightarrow> hi \<le> hi' \<Longrightarrow> numbering rt sel lo hi'"
  by (fastforce simp: numbering_def)

lemma numbering_extend:
  assumes "numbering rt sel lo hi"
    and at: "\<And>q p. node_at rt' q p = (if q = pid then bt_get nodes p else node_at rt q p)"
    and new: "\<And>p n. bt_get nodes p = Some n \<Longrightarrow> hi \<le> sel n \<and> sel n < hi'"
    and uniq: "\<And>p n q m. bt_get nodes p = Some n \<Longrightarrow> bt_get nodes q = Some m \<Longrightarrow> sel n = sel m \<Longrightarrow> p = q"
    and "lo \<le> hi" and "hi \<le> hi'"
  shows "numbering rt' sel lo hi'"
proof -
  have old: "lo \<le> sel n \<and> sel n < hi" if "node_at rt q p = Some n" for q p n
    using assms(1) that by (simp add: numbering_def)
  have "lo \<le> sel n \<and> sel n < hi'" if "node_at rt' q p = Some n" for q p n
    using that old [of q p n] new [of p n] assms(5,6) by (auto simp: at split: if_splits)
  moreover have "q = q' \<and> p = p'"
    if n: "node_at rt' q p = Some n" "node_at rt' q' p' = Some m" "sel n = sel m" for q p n q' p' m
  proof -
    consider "q = pid" "q' = pid" | "q = pid" "q' \<noteq> pid" | "q \<noteq> pid" "q' = pid" | "q \<noteq> pid" "q' \<noteq> pid" by blast
    then show ?thesis
    proof cases
      case 1
      with n uniq show ?thesis by (simp add: at)
    next
      case 2
      with n new [of p n] old [of q' p' m] show ?thesis by (auto simp: at dest: leD)
    next
      case 3
      with n new [of p' m] old [of q p n] show ?thesis by (auto simp: at dest: leD)
    next
      case 4
      with n assms(1) show ?thesis unfolding numbering_def by (metis at)
    qed
  qed
  ultimately show ?thesis unfolding numbering_def by blast
qed

lemma promise_ok_bump:
  assumes "promise_ok rt pid t" and "rt_next_promise_id rt \<noteq> - 1" and "rt_providers rt' = rt_providers rt"
    and "rt_next_promise_id rt' = rt_next_promise_id rt + 1"
  shows "promise_ok rt' pid t"
  using assms(1) less_plus_one [OF assms(2)] has_provider_cong [OF assms(3)] assms(3,4)
  unfolding promise_ok_def by (metis less_imp_le)

lemma commit_promise_inv:
  assumes "rt_inv rt" and "builder_wf b" and "rt_next_promise_id rt \<noteq> - 1"
  shows "rt_inv (fst (commit_promise rt b))"
proof (rule commit_promise_cases [where rt = rt and b = b], goal_cases gone exhausted committed)
  case gone
  with assms(1) show ?thesis by simp
next
  case (exhausted na nb)
  note d = rt_invD [OF assms(1)]
  let ?rt = "rt\<lparr>rt_next_promise_id := rt_next_promise_id rt + 1, rt_next_node_id := na, rt_next_inode := nb\<rparr>"
  have "promise_ok ?rt pid t" if "promise rt pid = Some t" for pid t
    by (rule promise_ok_bump [OF d(4) [OF that] assms(3)]) simp_all
  moreover have "numbering ?rt node_inode 2 nb" "numbering ?rt node_id 1 na"
    using numbering_mono [OF d(5) exhausted(4)] numbering_mono [OF d(6) exhausted(3)] numbering_cong [of ?rt rt] by simp_all
  moreover have "0 < rt_next_promise_id rt + 1" by (rule less_plus_one [OF assms(3)]) simp
  moreover have "1 < nb" "0 < na" using d(9,10) exhausted(3,4) by (auto intro: order_less_le_trans)
  ultimately show ?thesis
    using d exhausted(2) provider_ok_cong [of ?rt rt] by (simp add: rt_inv_def)
next
  case (committed na nb t)
  note d = rt_invD [OF assms(1)]
  let ?pid = "promise_name (rt_next_promise_id rt)"
  let ?rt = "fst (commit_promise rt b)"
  let ?nodes = "number_nodes (rt_next_node_id rt) (rt_next_inode rt) (builder_nodes b)"
  have upd: "rt_providers ?rt = rt_providers rt" "rt_next_promise_id ?rt = rt_next_promise_id rt + 1"
    "rt_next_provider_id ?rt = rt_next_provider_id rt" "rt_next_node_id ?rt = na" "rt_next_inode ?rt = nb"
    "rt_cache_policy ?rt = rt_cache_policy rt" "rt_read_cache ?rt = rt_read_cache rt"
    "rt_promises ?rt = bt_insert ?pid t (rt_promises rt)"
    using committed(3) by simp_all
  then have pr: "promise ?rt q = (if q = ?pid then Some t else promise rt q)" for q
    by (simp add: promise_def)
  have at: "node_at ?rt q p = (if q = ?pid then bt_get ?nodes p else node_at rt q p)" for q p
    using committed(2) by (simp add: node_at_def pr)
  have fit: "unat (rt_next_node_id rt) + length (builder_nodes b) < 2 ^ 64"
    "unat (rt_next_inode rt) + length (builder_nodes b) < 2 ^ 64"
    using committed(4,5) unat_less_2p64 [of na] unat_less_2p64 [of nb] by simp_all
  have le: "rt_next_node_id rt \<le> na" "rt_next_inode rt \<le> nb"
    using committed(4,5) by (simp_all add: word_le_nat_alt)
  have "numbering ?rt node_inode 2 nb"
  proof (rule numbering_extend [OF d(5) at])
    show "2 \<le> rt_next_inode rt" using d(9) by (simp add: word_le_nat_alt word_less_nat_alt)
  qed (use number_nodes_ids [OF fit] number_nodes_unique [OF fit] le committed(5) in \<open>auto simp: word_less_nat_alt\<close>)
  moreover have "numbering ?rt node_id 1 na"
  proof (rule numbering_extend [OF d(6) at])
    show "1 \<le> rt_next_node_id rt" using d(10) by (simp add: word_le_nat_alt word_less_nat_alt)
  qed (use number_nodes_ids [OF fit] number_nodes_unique [OF fit] le committed(4) in \<open>auto simp: word_less_nat_alt\<close>)
  moreover have "promise_ok ?rt q u" if "promise ?rt q = Some u" for q u
  proof (cases "q = ?pid")
    case True
    then have u: "u = t" using that by (simp add: pr)
    have "tree_wf t"
      using number_nodes_wf assms(2) committed(2) by (simp add: tree_wf_def builder_wf_def builder_finish_def)
    moreover have "has_provider ?rt (tree_provider_id t)" "bt_get (rt_providers rt) (tree_provider_id t) \<noteq> None"
      using committed(1,2) has_provider_cong [OF upd(1)] by (auto simp: builder_finish_def has_provider_def split: option.splits)
    ultimately show ?thesis
      using committed(2) d(8) less_plus_one [OF assms(3)] unfolding u True promise_ok_def upd
      by (auto simp: builder_finish_def)
  next
    case False
    with that have "promise rt q = Some u" by (simp add: pr)
    from promise_ok_bump [OF d(4) [OF this] assms(3) upd(1,2)] show ?thesis .
  qed
  moreover have "0 < rt_next_promise_id rt + 1" by (rule less_plus_one [OF assms(3)]) simp
  moreover have "1 < nb" "0 < na" using d(9,10) le by (auto intro: order_less_le_trans)
  moreover have "bt_wf (rt_promises ?rt)" using d(2) by (simp only: upd bt_wf_insert)
  ultimately show ?thesis
    using d provider_ok_cong [OF upd(3)] by (simp add: rt_inv_def upd(1-7))
qed

lemma mark_node_materialized_inv:
  assumes "rt_inv rt"
  shows "rt_inv (fst (mark_node_materialized rt pid path target))"
proof (cases "snd (mark_node_materialized rt pid path target)")
  case (Inl e)
  then have "fst (mark_node_materialized rt pid path target) = rt"
    by (auto simp: mark_node_materialized_def split: sum.splits)
  with assms show ?thesis by simp
next
  case (Inr u)
  note d = rt_invD [OF assms]
  from Inr obtain p t n where m: "normalize_relative_path path = Inr p" "promise rt pid = Some t"
    "bt_get (tree_nodes t) p = Some n" "utf8_valid target"
    by (auto simp: mark_node_materialized_def promise_def outcome_simps split: sum.splits)
  define nodes where "nodes = bt_insert p (n\<lparr>node_materialized_path := Some target\<rparr>) (tree_nodes t)"
  let ?rt = "rt\<lparr>rt_promises := bt_insert pid (t\<lparr>tree_nodes := nodes\<rparr>) (rt_promises rt)\<rparr>"
  have fst: "fst (mark_node_materialized rt pid path target) = ?rt"
    using m by (simp add: mark_node_materialized_def promise_def nodes_def)
  have ok: "promise_ok rt pid t" by (rule d(4) [OF m(2)])
  then have wf: "shape_wf (tree_nodes t) (tree_children t)" by (simp add: promise_ok_def tree_wf_def)
  have "bt_wf nodes" using shape_wfD(1) [OF wf] by (simp add: nodes_def)
  then have wf': "shape_wf nodes (tree_children t)"
  proof (rule shape_wf_cong [OF wf])
    show "rel_option same_node (bt_get (tree_nodes t) q) (bt_get nodes q)" for q
      using m(3) by (auto simp: nodes_def same_node_def option.rel_refl)
  qed
  have pr: "promise ?rt q = (if q = pid then Some (t\<lparr>tree_nodes := nodes\<rparr>) else promise rt q)" for q
    by (simp add: promise_def)
  have at: "node_at ?rt q r = (if q = pid \<and> r = p then Some (n\<lparr>node_materialized_path := Some target\<rparr>) else node_at rt q r)" for q r
    using m(2) by (simp add: node_at_def pr) (simp add: nodes_def)
  have at': "\<exists>m. node_at rt q r = Some m \<and> node_inode m = node_inode k \<and> node_id m = node_id k"
    if "node_at ?rt q r = Some k" for q r k
    using that m(2,3) unfolding at by (auto simp: node_at_def split: if_splits)
  have num: "numbering ?rt sel lo hi" if "numbering rt sel lo hi" "sel = node_inode \<or> sel = node_id" for sel lo hi
  proof -
    have sel: "\<exists>m. node_at rt q r = Some m \<and> sel m = sel k" if "node_at ?rt q r = Some k" for q r k
      using at' [OF that] \<open>sel = node_inode \<or> sel = node_id\<close> by blast
    show ?thesis
      unfolding numbering_def
    proof (intro conjI allI impI)
      fix q r k assume "node_at ?rt q r = Some k"
      from sel [OF this] that(1) show "lo \<le> sel k" "sel k < hi"
        unfolding numbering_def by metis+
    next
      fix q r k q' r' k' assume k: "node_at ?rt q r = Some k" "node_at ?rt q' r' = Some k'" "sel k = sel k'"
      from sel [OF k(1)] sel [OF k(2)] k(3) obtain m m' where
        "node_at rt q r = Some m" "node_at rt q' r' = Some m'" "sel m = sel m'" by auto
      with that(1) show "q = q'" "r = r'" unfolding numbering_def by blast+
    qed
  qed
  have "promise_ok ?rt q u" if "promise ?rt q = Some u" for q u
  proof (cases "q = pid")
    case True
    from ok wf' have "promise_ok rt pid (t\<lparr>tree_nodes := nodes\<rparr>)" by (simp add: promise_ok_def tree_wf_def)
    with that True show ?thesis using promise_ok_cong [of ?rt rt] by (auto simp: pr)
  next
    case False
    with that d(4) promise_ok_cong [of ?rt rt] show ?thesis by (simp add: pr)
  qed
  then show ?thesis
    unfolding fst using d num provider_ok_cong [of ?rt rt] by (simp add: rt_inv_def)
qed

text \<open>What \<open>record_cached_read\<close> does when it changes the state.\<close>

lemma record_cached_read_cases:
  obtains (same) "fst (record_cached_read rt pid path offset bs) = rt"
  | (cached) t n cs where "cache_policy_chunk_size (rt_cache_policy rt) = Some cs" "bs \<noteq> []"
      "promise rt pid = Some t" "tree_get t path = Some n" "node_kind n = File"
      "unat offset + length bs \<le> unat (attr_size (node_attr n))"
      "record_cached_read rt pid path offset bs =
        (rt\<lparr>rt_read_cache := cache_insert (rt_read_cache rt) pid (node_relative_path n) offset bs cs\<rparr>, Inr ())"
proof -
  show ?thesis
  proof (cases "fst (record_cached_read rt pid path offset bs) = rt")
    case False
    then obtain t n cs len e where r: "cache_policy_chunk_size (rt_cache_policy rt) = Some cs" "bs \<noteq> []"
      "promise rt pid = Some t" "tree_get t path = Some n" "node_kind n = File"
      "u64_try_from (length bs) = Some len" "checked_add offset len = Some e" "\<not> e > attr_size (node_attr n)"
      by (auto simp: record_cached_read_def outcome_simps split: option.splits if_splits sum.splits)
    then have "unat e = unat offset + length bs" by (auto dest!: unat_checked_add unat_u64_try_from)
    then have "unat offset + length bs \<le> unat (attr_size (node_attr n))"
      using r(8) by (simp add: not_less word_le_nat_alt)
    moreover have "record_cached_read rt pid path offset bs =
        (rt\<lparr>rt_read_cache := cache_insert (rt_read_cache rt) pid (node_relative_path n) offset bs cs\<rparr>, Inr ())"
      using r by (simp add: record_cached_read_def)
    ultimately show ?thesis using cached r by blast
  qed (rule same)
qed

lemma record_cached_read_inv:
  assumes "rt_inv rt"
  shows "rt_inv (fst (record_cached_read rt pid path offset bs))"
proof (rule record_cached_read_cases [where rt = rt and pid = pid and path = path and offset = offset and bs = bs],
    goal_cases same cached)
  case (cached t n cs)
  have "unat offset + length bs < 2 ^ 64" by (rule le_less_trans [OF cached(6)]) simp
  then have "cache_wf (cache_insert (rt_read_cache rt) pid (node_relative_path n) offset bs cs)"
    by (rule cache_insert_correct(1) [OF rt_invD(12) [OF assms] chunk_size_positive [OF cached(1)]])
  from rt_inv_cache [OF assms rt_invD(11) [OF assms] this] show ?case by (simp add: cached(7))
qed (simp add: assms)

section \<open>Reachable states\<close>

text \<open>Builders made by the public interface, and the states a runtime passes through; the
  index counts the operations.\<close>

inductive builder_reachable :: "PromiseBuilder \<Rightarrow> bool" where
  new: "builder_reachable (builder_new provider_id)"
| add: "builder_reachable b \<Longrightarrow> builder_reachable (fst (builder_add_node b path attr provider_node_id kind))"

inductive runtime_step :: "Runtime \<Rightarrow> Runtime \<Rightarrow> bool" where
  set_policy: "runtime_step rt (fst (set_cache_policy rt policy))"
| register: "runtime_step rt (fst (register_provider rt))"
| unregister: "runtime_step rt (fst (unregister_provider rt provider_id))"
| commit: "builder_reachable b \<Longrightarrow> runtime_step rt (fst (commit_promise rt b))"
| materialized: "runtime_step rt (fst (mark_node_materialized rt promise_id path target))"
| cached: "runtime_step rt (fst (record_cached_read rt promise_id path offset bytes))"

inductive runtime_reachable :: "nat \<Rightarrow> Runtime \<Rightarrow> bool" where
  init: "runtime_reachable 0 runtime_new"
| step: "runtime_reachable k rt \<Longrightarrow> runtime_step rt rt' \<Longrightarrow> runtime_reachable (Suc k) rt'"

inductive_cases runtime_stepE: "runtime_step rt rt'"

lemma builder_reachable_wf: "builder_reachable b \<Longrightarrow> builder_wf b"
  by (induction rule: builder_reachable.induct) (simp_all add: builder_new_wf builder_add_node_wf)

lemma step_counters:
  assumes "runtime_step rt rt'"
  shows "rt_next_provider_id rt' = rt_next_provider_id rt \<or> rt_next_provider_id rt' = rt_next_provider_id rt + 1"
    and "rt_next_promise_id rt' = rt_next_promise_id rt \<or> rt_next_promise_id rt' = rt_next_promise_id rt + 1"
  using assms
proof (induction rule: runtime_step.induct)
  case (commit b rt)
  {
    case 1
    then show ?case by (rule commit_promise_cases [where rt = rt and b = b]) auto
  next
    case 2
    then show ?case by (rule commit_promise_cases [where rt = rt and b = b]) auto
  }
qed (auto simp: set_cache_policy_def Let_def register_provider_def unregister_provider_def
    mark_node_materialized_def record_cached_read_def outcome_simps split: sum.splits option.splits)

lemma runtime_step_cache_wf:
  assumes "runtime_step rt rt'" and "cache_wf (rt_read_cache rt)"
  shows "cache_wf (rt_read_cache rt')"
  using assms
proof (induction rule: runtime_step.induct)
  case (set_policy rt policy)
  then show ?case by (auto simp: set_cache_policy_def Let_def cache_clear_default split: sum.split)
next
  case (register rt)
  then show ?case by (simp add: register_provider_def Let_def)
next
  case (unregister rt provider_id)
  then show ?case by (auto simp: unregister_provider_def Let_def split: option.split)
next
  case (commit b rt)
  show ?case by (rule commit_promise_cases [where rt = rt and b = b]) (simp_all add: commit.prems)
next
  case (materialized rt promise_id path target)
  then show ?case by (auto simp: mark_node_materialized_def outcome_simps split: sum.splits)
next
  case (cached rt promise_id path offset bytes)
  show ?case
  proof (rule record_cached_read_cases [where rt = rt and pid = promise_id and path = path and offset = offset and bs = bytes],
      goal_cases same cached)
    case (cached t n cs)
    have "unat offset + length bytes < 2 ^ 64" by (rule le_less_trans [OF cached(6)]) simp
    from cache_insert_correct(1) [OF \<open>cache_wf (rt_read_cache rt)\<close> chunk_size_positive [OF cached(1)] this] cached(7)
    show ?case by simp
  qed (simp add: \<open>cache_wf (rt_read_cache rt)\<close>)
qed

lemma step_inv:
  assumes "runtime_step rt rt'" and "rt_inv rt" and "rt_next_provider_id rt \<noteq> - 1" and "rt_next_promise_id rt \<noteq> - 1"
  shows "rt_inv rt'"
  using assms
  by (induction rule: runtime_step.induct)
    (simp_all add: set_cache_policy_inv register_provider_inv unregister_provider_inv commit_promise_inv
      builder_reachable_wf mark_node_materialized_inv record_cached_read_inv)

theorem runtime_reachable_inv:
  assumes "runtime_reachable k rt" and "k < 2 ^ 64 - 1"
  shows "rt_inv rt"
proof -
  have "rt_inv rt \<and> unat (rt_next_provider_id rt) \<le> Suc k \<and> unat (rt_next_promise_id rt) \<le> Suc k"
    using assms
  proof (induction rule: runtime_reachable.induct)
    case init
    show ?case by (simp add: rt_inv_new, simp add: runtime_new_def)
  next
    case (step k rt rt')
    then have inv: "rt_inv rt" and le: "unat (rt_next_provider_id rt) \<le> Suc k" "unat (rt_next_promise_id rt) \<le> Suc k"
      by simp_all
    have ne: "rt_next_provider_id rt \<noteq> - 1" "rt_next_promise_id rt \<noteq> - 1"
      using le step.prems by (auto simp: word_unat_eq_iff)
    from step_inv [OF step.hyps(2) inv ne] show ?case
      using step_counters [OF step.hyps(2)] unat_plus_one [OF ne(1)] unat_plus_one [OF ne(2)] le by auto
  qed
  then show ?thesis ..
qed

section \<open>Lookup\<close>

lemma option_eq_unique: "x = Some a \<Longrightarrow> x = Some b \<Longrightarrow> a = b"
  by simp

lemma rt_inv_path: "rt_inv rt \<Longrightarrow> node_at rt pid p = Some n \<Longrightarrow> node_relative_path n = p"
  by (erule rt_inv_node)

lemma node_at_inode_not_root: "rt_inv rt \<Longrightarrow> node_at rt pid p = Some n \<Longrightarrow> node_inode n \<noteq> FUSE_ROOT_INODE"
proof -
  assume "rt_inv rt" "node_at rt pid p = Some n"
  then have "2 \<le> node_inode n" using rt_invD(5) [of rt] unfolding numbering_def by blast
  then show ?thesis by (auto simp: FUSE_ROOT_INODE_def word_le_nat_alt)
qed

lemma inode_unique:
  assumes "rt_inv rt" and "node_at rt pid p = Some n" and "node_at rt pid' p' = Some n'"
    and "node_inode n = node_inode n'"
  shows "pid = pid' \<and> p = p'"
  using rt_invD(5) [OF assms(1)] assms(2-4) unfolding numbering_def by blast

theorem lookup_inode_iff:
  assumes "rt_inv rt"
  shows "lookup_inode rt inode = Inr (PromiseNode pid n) \<longleftrightarrow>
    node_at rt pid (node_relative_path n) = Some n \<and> node_inode n = inode"
proof -
  note d = rt_invD [OF assms]
  let ?in = "\<lambda>t :: PromiseTree. find_map (\<lambda>n :: PromiseNode. if node_inode n = inode then Some (PromiseNode (tree_promise_id t) n) else None)
    (bt_values (tree_nodes t))"
  have found: "node_at rt pid (node_relative_path n) = Some n \<and> node_inode n = inode"
    if t: "t \<in> set (bt_values (rt_promises rt))" and n: "?in t = Some (PromiseNode pid n)" for t pid n
  proof -
    from t d(2) obtain q where q: "promise rt q = Some t" by (auto simp: bt_values_get promise_def)
    from d(4) [OF q] have ok: "promise_ok rt q t" .
    from find_map_Some [OF n] have m: "n \<in> set (bt_values (tree_nodes t))" "node_inode n = inode" "pid = tree_promise_id t"
      by (auto split: if_splits)
    from ok have wf: "shape_wf (tree_nodes t) (tree_children t)" by (simp add: promise_ok_def tree_wf_def)
    from m(1) obtain p where p: "bt_get (tree_nodes t) p = Some n" using shape_wfD(1) [OF wf] by (auto simp: bt_values_get)
    have "node_relative_path n = p" using shape_wfD(4) [OF wf p] by (simp add: node_ok_def)
    with p q m ok show ?thesis by (auto simp: node_at_def promise_ok_def)
  qed
  have in_node: "\<exists>pid n. e = PromiseNode pid n" if "?in t = Some e" for t e
    using find_map_Some [OF that] by (auto split: if_splits)
  show ?thesis
  proof
    assume l: "lookup_inode rt inode = Inr (PromiseNode pid n)"
    then have "find_map ?in (bt_values (rt_promises rt)) = Some (PromiseNode pid n)"
      by (auto simp: lookup_inode_def outcome_simps split: if_splits)
    from find_map_Some [OF this] obtain t where
      "t \<in> set (bt_values (rt_promises rt))" "?in t = Some (PromiseNode pid n)" by blast
    then show "node_at rt pid (node_relative_path n) = Some n \<and> node_inode n = inode" by (rule found)
  next
    assume r: "node_at rt pid (node_relative_path n) = Some n \<and> node_inode n = inode"
    from rt_inv_node [OF assms conjunct1 [OF r]] obtain t where
      t: "promise rt pid = Some t" "bt_get (tree_nodes t) (node_relative_path n) = Some n" "promise_ok rt pid t" by blast
    then have wf: "bt_wf (tree_nodes t)" using shape_wfD(1) by (auto simp: promise_ok_def tree_wf_def)
    have uniq: "e = PromiseNode pid n" if "t' \<in> set (bt_values (rt_promises rt))" "?in t' = Some e" for t' e
    proof -
      from in_node [OF that(2)] obtain pid' n' where e: "e = PromiseNode pid' n'" by blast
      from found [OF that(1) that(2) [unfolded e]]
      have n': "node_at rt pid' (node_relative_path n') = Some n'" "node_inode n' = inode" by simp_all
      then have same: "pid' = pid \<and> node_relative_path n' = node_relative_path n"
        by (intro inode_unique [OF assms _ conjunct1 [OF r]]) (simp_all add: r)
      have "n' = n" using n'(1) conjunct1 [OF r] unfolding conjunct1 [OF same] conjunct2 [OF same] by (rule option_eq_unique)
      then show ?thesis using e same by blast
    qed
    have mem: "t \<in> set (bt_values (rt_promises rt))" using t(1) d(2) by (auto simp: bt_values_get promise_def)
    have "n \<in> set (bt_values (tree_nodes t))" using bt_values_get [OF wf] t(2) by blast
    then have "?in t \<noteq> None" using r by (auto simp: find_map_None)
    with uniq [OF mem] have "?in t = Some (PromiseNode pid n)" by auto
    then have "find_map ?in (bt_values (rt_promises rt)) = Some (PromiseNode pid n)"
      using uniq by (intro find_map_unique [of t, OF mem]) blast+
    then show "lookup_inode rt inode = Inr (PromiseNode pid n)"
      using conjunct2 [OF r] node_at_inode_not_root [OF assms conjunct1 [OF r]] by (simp add: lookup_inode_def)
  qed
qed

lemma lookup_inode_node:
  "rt_inv rt \<Longrightarrow> node_at rt pid p = Some n \<Longrightarrow> lookup_inode rt (node_inode n) = Inr (PromiseNode pid n)"
  using lookup_inode_iff [of rt "node_inode n" pid n] rt_inv_path [of rt pid p n] by simp

text \<open>Every entry is the mount root or a node, so the panicking branches are dead.\<close>

lemma lookup_inode_root_iff: "lookup_inode rt inode = Inr MountRoot \<longleftrightarrow> inode = FUSE_ROOT_INODE"
proof -
  let ?in = "\<lambda>t :: PromiseTree. find_map (\<lambda>n :: PromiseNode. if node_inode n = inode then Some (PromiseNode (tree_promise_id t) n) else None)
    (bt_values (tree_nodes t))"
  have "find_map ?in ts \<noteq> Some MountRoot" for ts
  proof
    assume "find_map ?in ts = Some MountRoot"
    from find_map_Some [OF this] obtain t where "?in t = Some MountRoot" by blast
    from find_map_Some [OF this] show False by (auto split: if_splits)
  qed
  then show ?thesis by (auto simp: lookup_inode_def outcome_simps)
qed

lemma validate_normal_part: "normal_part name \<Longrightarrow> validate_child_name name = Inr ()"
  by (simp add: validate_child_name_Inr normal_part_def)

lemma validate_promise_name: "validate_child_name (promise_name n) = Inr ()"
  using decimal_digits [of _ "unat n"]
  by (auto simp: validate_child_name_Inr promise_name_def) fastforce+

text \<open>Looking up a child of a directory is looking up its path.\<close>

theorem lookup_child_iff:
  assumes "rt_inv rt" and "node_at rt pid p = Some d" and "node_kind d = Directory"
  shows "lookup_child rt (node_inode d) name = Inr e \<longleftrightarrow>
    validate_child_name name = Inr () \<and>
    (\<exists>n. node_at rt pid (child_path p name) = Some n \<and> e = PromiseNode pid n)"
proof -
  from rt_inv_node [OF assms(1,2)] obtain t where t: "promise rt pid = Some t" "bt_get (tree_nodes t) p = Some d"
    "promise_ok rt pid t" "node_relative_path d = p" "normal_path p" by blast
  then have wf: "shape_wf (tree_nodes t) (tree_children t)" by (simp add: promise_ok_def tree_wf_def)
  have "is_dir (tree_nodes t) p" using t(2) assms(3) by (simp add: is_dir_def)
  then have kids: "bt_get (tree_children t) p = Some (child_keys (tree_nodes t) p)" using shape_wfD(5) [OF wf] by simp
  have mem: "child_path p name \<in> set (child_keys (tree_nodes t) p)"
    if n: "bt_get (tree_nodes t) (child_path p name) = Some n" and v: "validate_child_name name = Inr ()" for n
  proof -
    have "normal_path (child_path p name)" using shape_wfD(4) [OF wf n] by (simp add: node_ok_def)
    moreover have "CHR ''/'' \<notin> set name" "name \<noteq> []" using v by (simp_all add: validate_child_name_Inr)
    then have "parent_path (child_path p name) = p" "child_path p name \<noteq> []"
      by (auto simp: child_path_def parent_path_def rsplit_once_None rsplit_once_append)
    ultimately show ?thesis using n shape_wfD(1) [OF wf] by (simp add: child_keys_set)
  qed
  have "lookup_child rt (node_inode d) name =
    res_bind (validate_child_name name) (\<lambda>_.
      res_bind (fail_if (child_path p name \<notin> set (child_keys (tree_nodes t) p)) Status.NotFound) (\<lambda>_.
      res_bind (ok_or (bt_get (tree_nodes t) (child_path p name)) Status.NotFound) (\<lambda>child. Inr (PromiseNode pid child))))"
    using node_at_inode_not_root [OF assms(1,2)] lookup_inode_node [OF assms(1,2)] t kids assms(3)
    by (simp add: lookup_child_def Let_def)
  then show ?thesis
    using mem t(1) by (auto simp: outcome_simps node_at_def)
qed

theorem lookup_child_root:
  assumes "rt_inv rt"
  shows "lookup_child rt FUSE_ROOT_INODE name = Inr e \<longleftrightarrow>
    validate_child_name name = Inr () \<and> (\<exists>n. node_at rt name [] = Some n \<and> e = PromiseNode name n)"
  using rt_invD(4) [OF assms]
  by (auto simp: lookup_child_def outcome_simps node_at_def promise_ok_def bind_eq_Some_conv)

text \<open>Listing a directory returns its children in path order.\<close>

theorem read_dir_children:
  assumes "rt_inv rt" and "node_at rt pid p = Some d" and "node_kind d = Directory"
  shows "\<exists>es. read_dir rt (node_inode d) = Inr es \<and> distinct (map dirent_name es) \<and>
    (\<forall>name inode kind. \<lparr>dirent_name = name, dirent_inode = inode, dirent_kind = kind\<rparr> \<in> set es \<longleftrightarrow>
       (\<exists>n. lookup_child rt (node_inode d) name = Inr (PromiseNode pid n) \<and> node_inode n = inode \<and> node_kind n = kind))"
proof -
  from rt_inv_node [OF assms(1,2)] obtain t where t: "promise rt pid = Some t" "bt_get (tree_nodes t) p = Some d"
    "promise_ok rt pid t" "node_relative_path d = p" "normal_path p" by blast
  then have wf: "shape_wf (tree_nodes t) (tree_children t)" by (simp add: promise_ok_def tree_wf_def)
  let ?cs = "child_keys (tree_nodes t) p"
  have "is_dir (tree_nodes t) p" using t(2) assms(3) by (simp add: is_dir_def)
  then have kids: "bt_get (tree_children t) p = Some ?cs" using shape_wfD(5) [OF wf] by simp
  define entry where "entry = (\<lambda>c. let n = the (bt_get (tree_nodes t) c) in
    \<lparr>dirent_name = node_name n, dirent_inode = node_inode n, dirent_kind = node_kind n\<rparr>)"
  have get: "\<exists>n. bt_get (tree_nodes t) c = Some n \<and> c \<noteq> [] \<and> parent_path c = p \<and> normal_path c \<and> node_name n = leaf_name c"
    if "c \<in> set ?cs" for c
    using that shape_wfD(1,4) [OF wf] by (fastforce simp: child_keys_set node_ok_def)
  have rd: "read_dir rt (node_inode d) = Inr (map entry ?cs)"
  proof -
    have "collect_results (map (\<lambda>c. res_bind (ok_or (bt_get (tree_nodes t) c) Status.NotFound) (\<lambda>child.
        Inr \<lparr>dirent_name = node_name child, dirent_inode = node_inode child, dirent_kind = node_kind child\<rparr>)) ?cs)
        = Inr (map entry ?cs)"
    proof (rule collect_results_all_Inr)
      fix c assume "c \<in> set ?cs"
      from get [OF this] obtain n where "bt_get (tree_nodes t) c = Some n" by blast
      then show "res_bind (ok_or (bt_get (tree_nodes t) c) Status.NotFound) (\<lambda>child.
        Inr \<lparr>dirent_name = node_name child, dirent_inode = node_inode child, dirent_kind = node_kind child\<rparr>) = Inr (entry c)"
        by (simp add: entry_def)
    qed
    then show ?thesis
      using node_at_inode_not_root [OF assms(1,2)] lookup_inode_node [OF assms(1,2)] t kids assms(3)
      by (simp add: read_dir_def)
  qed
  have leaf: "dirent_name (entry c) = leaf_name c" "child_path p (leaf_name c) = c" "normal_part (leaf_name c)" if "c \<in> set ?cs" for c
    using get [OF that] child_of_parent_leaf [of c] leaf_name_normal [of c] by (auto simp: entry_def)
  have "distinct ?cs" using shape_wfD(1) [OF wf] by (simp add: child_keys_def bt_keys_def bt.entries_distinct)
  moreover have "inj_on (dirent_name \<circ> entry) (set ?cs)"
    by (rule inj_onI) (metis comp_apply leaf(1,2))
  ultimately have dist: "distinct (map dirent_name (map entry ?cs))" by (simp add: distinct_map)
  have mem: "\<lparr>dirent_name = name, dirent_inode = inode, dirent_kind = kind\<rparr> \<in> set (map entry ?cs) \<longleftrightarrow>
     (\<exists>n. lookup_child rt (node_inode d) name = Inr (PromiseNode pid n) \<and> node_inode n = inode \<and> node_kind n = kind)" for name inode kind
  proof
    assume "\<lparr>dirent_name = name, dirent_inode = inode, dirent_kind = kind\<rparr> \<in> set (map entry ?cs)"
    then obtain c where c: "c \<in> set ?cs" "entry c = \<lparr>dirent_name = name, dirent_inode = inode, dirent_kind = kind\<rparr>" by auto
    from get [OF c(1)] obtain n where n: "bt_get (tree_nodes t) c = Some n" by blast
    have "name = leaf_name c" using leaf(1) [OF c(1)] c(2) by simp
    then have "node_at rt pid (child_path p name) = Some n" "validate_child_name name = Inr ()"
      using leaf(2,3) [OF c(1)] n t(1) by (simp_all add: node_at_def validate_normal_part)
    then have "lookup_child rt (node_inode d) name = Inr (PromiseNode pid n)" by (simp add: lookup_child_iff [OF assms])
    moreover have "node_inode n = inode" "node_kind n = kind" using c(2) n by (simp_all add: entry_def Let_def)
    ultimately show "\<exists>n. lookup_child rt (node_inode d) name = Inr (PromiseNode pid n) \<and> node_inode n = inode \<and> node_kind n = kind" by blast
  next
    assume "\<exists>n. lookup_child rt (node_inode d) name = Inr (PromiseNode pid n) \<and> node_inode n = inode \<and> node_kind n = kind"
    then obtain n where n: "bt_get (tree_nodes t) (child_path p name) = Some n" "validate_child_name name = Inr ()"
      "node_inode n = inode" "node_kind n = kind"
      using t(1) by (auto simp: lookup_child_iff [OF assms] node_at_def)
    have "CHR ''/'' \<notin> set name" "name \<noteq> []" using n(2) by (simp_all add: validate_child_name_Inr)
    then have c: "parent_path (child_path p name) = p" "child_path p name \<noteq> []" "leaf_name (child_path p name) = name"
      by (auto simp: child_path_def parent_path_def leaf_name_def rsplit_once_None rsplit_once_append)
    then have "child_path p name \<in> set ?cs" using n(1) shape_wfD(1) [OF wf] by (simp add: child_keys_set)
    moreover have "node_name n = name" using shape_wfD(4) [OF wf n(1)] c(3) by (simp add: node_ok_def)
    then have "entry (child_path p name) = \<lparr>dirent_name = name, dirent_inode = inode, dirent_kind = kind\<rparr>"
      using n by (simp add: entry_def)
    ultimately show "\<lparr>dirent_name = name, dirent_inode = inode, dirent_kind = kind\<rparr> \<in> set (map entry ?cs)"
      by (metis image_eqI set_map)
  qed
  from rd dist mem show ?thesis by blast
qed

theorem read_dir_root:
  assumes "rt_inv rt"
  shows "\<exists>es. read_dir rt FUSE_ROOT_INODE = Inr es \<and> map dirent_name es = bt_keys (rt_promises rt) \<and>
    (\<forall>e\<in>set es. \<exists>n. lookup_child rt FUSE_ROOT_INODE (dirent_name e) = Inr (PromiseNode (dirent_name e) n) \<and>
       node_inode n = dirent_inode e \<and> dirent_kind e = Directory)"
proof -
  note d = rt_invD [OF assms]
  define entry where "entry = (\<lambda>t :: PromiseTree. \<lparr>dirent_name = tree_promise_id t,
    dirent_inode = node_inode (the (bt_get (tree_nodes t) [])), dirent_kind = Directory\<rparr>)"
  have ok: "promise_ok rt (tree_promise_id t) t \<and> promise rt (tree_promise_id t) = Some t"
    if "t \<in> set (bt_values (rt_promises rt))" for t
    using that d(2,4) by (fastforce simp: bt_values_get promise_def promise_ok_def)
  have root: "\<exists>n. bt_get (tree_nodes t) [] = Some n" if "t \<in> set (bt_values (rt_promises rt))" for t
    using ok [OF that] shape_wfD(3) is_dir_key by (auto simp: promise_ok_def tree_wf_def)
  have rd: "read_dir rt FUSE_ROOT_INODE = Inr (map entry (bt_values (rt_promises rt)))"
  proof -
    have "collect_results (map (\<lambda>t. res_bind (ok_or (bt_get (tree_nodes t) []) Status.NotFound) (\<lambda>root.
        Inr \<lparr>dirent_name = tree_promise_id t, dirent_inode = node_inode root, dirent_kind = Directory\<rparr>))
        (bt_values (rt_promises rt))) = Inr (map entry (bt_values (rt_promises rt)))"
    proof (rule collect_results_all_Inr)
      fix t assume "t \<in> set (bt_values (rt_promises rt))"
      from root [OF this] obtain n where "bt_get (tree_nodes t) [] = Some n" by blast
      then show "res_bind (ok_or (bt_get (tree_nodes t) []) Status.NotFound) (\<lambda>root.
        Inr \<lparr>dirent_name = tree_promise_id t, dirent_inode = node_inode root, dirent_kind = Directory\<rparr>) = Inr (entry t)"
        by (simp add: entry_def)
    qed
    then show ?thesis by (simp add: read_dir_def)
  qed
  have "tree_promise_id (snd x) = fst x" if "x \<in> set (rt_promises rt)" for x
    using that d(2,4) bt_entries_get [OF d(2), of "fst x" "snd x"] by (simp add: promise_def promise_ok_def)
  then have names: "map dirent_name (map entry (bt_values (rt_promises rt))) = bt_keys (rt_promises rt)"
    by (simp add: entry_def bt_values_def bt_keys_def)
  have name_ok: "validate_child_name (tree_promise_id t) = Inr ()" if "t \<in> set (bt_values (rt_promises rt))" for t
    using ok [OF that] by (auto simp: promise_ok_def intro: validate_promise_name)
  have "\<exists>n. lookup_child rt FUSE_ROOT_INODE (dirent_name e) = Inr (PromiseNode (dirent_name e) n) \<and>
       node_inode n = dirent_inode e \<and> dirent_kind e = Directory" if e: "e \<in> set (map entry (bt_values (rt_promises rt)))" for e
  proof -
    from e obtain t where t: "t \<in> set (bt_values (rt_promises rt))" "e = entry t" by auto
    from root [OF t(1)] obtain n where n: "bt_get (tree_nodes t) [] = Some n" by blast
    then have "node_at rt (tree_promise_id t) [] = Some n" using ok [OF t(1)] by (simp add: node_at_def)
    then show ?thesis
      using n name_ok [OF t(1)] by (simp add: t(2) entry_def lookup_child_root [OF assms])
  qed
  with rd names show ?thesis by blast
qed

end
