(* ===== verification/Read_Planning.thy ===== *)
theory Read_Planning
  imports Runtime_State
begin

text \<open>
  Read planning of \<open>crates/fuse-promise-runtime/src/lib.rs\<close>: \<open>plan_read\<close> decides
  between end of file, a materialised copy, the cache and a provider request;
  \<open>plan_coalesced_provider_read\<close> widens a request to its cache chunk, and
  \<open>plan_sequential_prefetch\<close> plans the read ahead. The lemmas give the outcome of each on
  every branch, the bounds of what is requested, and that cached bytes are bytes of the file.
\<close>

section \<open>Plans\<close>

record ProviderReadPlan =
  plan_provider_id :: ProviderId
  plan_promise_id :: string
  plan_relative_path :: string
  plan_provider_node_id :: string
  plan_offset :: u64
  plan_length :: u32

record CoalescedProviderReadPlan =
  coalesced_provider :: ProviderReadPlan
  coalesced_response_offset :: u32
  coalesced_response_length :: u32

record MaterializedReadPlan =
  materialized_path :: path
  materialized_offset :: u64
  materialized_length :: u32

record CachedReadPlan =
  cached_bytes :: bytes

datatype ReadPlan =
    Request ProviderReadPlan
  | Materialized MaterializedReadPlan
  | Cached CachedReadPlan
  | Eof

section \<open>Planning\<close>

definition plan_provider_read ::
    "Runtime \<Rightarrow> string \<Rightarrow> string \<Rightarrow> u64 \<Rightarrow> u32 \<Rightarrow> ProviderReadPlan result" where
  "plan_provider_read rt promise_id relative_path offset len =
     res_bind (ok_or (promise rt promise_id) Status.NotFound) (\<lambda>tree.
     res_bind (ok_or (tree_get tree relative_path) Status.NotFound) (\<lambda>node.
     res_bind (fail_if (node_kind node \<noteq> File) Status.InvalidArgument) (\<lambda>_.
     res_bind (fail_if (len = 0 \<or> offset \<ge> attr_size (node_attr node)) Status.InvalidArgument) (\<lambda>_.
     let remaining = attr_size (node_attr node) - offset in
     res_bind (ok_or (u32_try_from (min (u64_of_u32 len) remaining)) Status.InvalidArgument) (\<lambda>len.
     res_bind (fail_if (checked_add offset (u64_of_u32 len) = None) Status.InvalidArgument) (\<lambda>_.
     res_bind (fail_if (tree_state tree \<noteq> Available) Status.ProviderGone) (\<lambda>_.
     res_bind (fail_if (\<not> has_provider rt (tree_provider_id tree)) Status.ProviderGone) (\<lambda>_.
     Inr \<lparr>plan_provider_id = tree_provider_id tree, plan_promise_id = tree_promise_id tree,
          plan_relative_path = node_relative_path node,
          plan_provider_node_id = node_provider_node_id node,
          plan_offset = offset, plan_length = len\<rparr>))))))))"

definition plan_read :: "Runtime \<Rightarrow> string \<Rightarrow> string \<Rightarrow> u64 \<Rightarrow> u32 \<Rightarrow> ReadPlan result" where
  "plan_read rt promise_id relative_path offset len =
     res_bind (ok_or (promise rt promise_id) Status.NotFound) (\<lambda>tree.
     res_bind (ok_or (tree_get tree relative_path) Status.NotFound) (\<lambda>node.
     res_bind (fail_if (node_kind node \<noteq> File) Status.InvalidArgument) (\<lambda>_.
     if len = 0 \<or> offset \<ge> attr_size (node_attr node) then Inr Eof
     else
       let remaining = attr_size (node_attr node) - offset in
       res_bind (ok_or (u32_try_from (min (u64_of_u32 len) remaining)) Status.InvalidArgument) (\<lambda>len.
       res_bind (fail_if (checked_add offset (u64_of_u32 len) = None) Status.InvalidArgument) (\<lambda>_.
       case node_materialized_path node of
         Some path \<Rightarrow>
           Inr (ReadPlan.Materialized
             \<lparr>materialized_path = path, materialized_offset = offset, materialized_length = len\<rparr>)
       | None \<Rightarrow>
           (case Option.bind (cache_policy_chunk_size (rt_cache_policy rt)) (\<lambda>chunk_size.
                   cache_read (rt_read_cache rt) promise_id (node_relative_path node) offset
                     (u64_of_u32 len) chunk_size) of
              Some bytes \<Rightarrow> Inr (Cached \<lparr>cached_bytes = bytes\<rparr>)
            | None \<Rightarrow>
                map_ok Request (plan_provider_read rt promise_id (node_relative_path node) offset len)))))))"

definition plan_sequential_prefetch ::
    "Runtime \<Rightarrow> string \<Rightarrow> string \<Rightarrow> u64 \<Rightarrow> u32 \<Rightarrow> ProviderReadPlan option result" where
  "plan_sequential_prefetch rt promise_id relative_path completed_offset completed_length =
     (case cache_policy_chunk_size (rt_cache_policy rt) of
        None \<Rightarrow> Inr None
      | Some chunk_size \<Rightarrow>
          if completed_length = 0 then Inr None
          else
            res_bind (ok_or (promise rt promise_id) Status.NotFound) (\<lambda>tree.
            res_bind (ok_or (tree_get tree relative_path) Status.NotFound) (\<lambda>node.
            res_bind (fail_if (node_kind node \<noteq> File) Status.InvalidArgument) (\<lambda>_.
            if node_materialized_path node \<noteq> None then Inr None
            else
              res_bind (fail_if (tree_state tree \<noteq> Available) Status.ProviderGone) (\<lambda>_.
              res_bind (fail_if (\<not> has_provider rt (tree_provider_id tree)) Status.ProviderGone) (\<lambda>_.
              res_bind (ok_or (checked_add completed_offset (u64_of_u32 completed_length)) Status.InvalidArgument) (\<lambda>offset.
              if offset \<ge> attr_size (node_attr node) then Inr None
              else
                let remaining = attr_size (node_attr node) - offset in
                res_bind (ok_or (u32_try_from (min (u64_of_u32 chunk_size) remaining)) Status.InvalidArgument) (\<lambda>len.
                if cache_read (rt_read_cache rt) promise_id (node_relative_path node) offset
                     (u64_of_u32 len) chunk_size \<noteq> None
                then Inr None
                else Inr (Some
                  \<lparr>plan_provider_id = tree_provider_id tree, plan_promise_id = tree_promise_id tree,
                   plan_relative_path = node_relative_path node,
                   plan_provider_node_id = node_provider_node_id node,
                   plan_offset = offset, plan_length = len\<rparr>)))))))))"

definition plan_coalesced_provider_read ::
    "Runtime \<Rightarrow> ProviderReadPlan \<Rightarrow> CoalescedProviderReadPlan result" where
  "plan_coalesced_provider_read rt plan =
     (case cache_policy_chunk_size (rt_cache_policy rt) of
        None \<Rightarrow> Inr \<lparr>coalesced_provider = plan, coalesced_response_offset = 0,
                     coalesced_response_length = plan_length plan\<rparr>
      | Some chunk_size \<Rightarrow>
          res_bind (ok_or (promise rt (plan_promise_id plan)) Status.NotFound) (\<lambda>tree.
          res_bind (ok_or (tree_get tree (plan_relative_path plan)) Status.NotFound) (\<lambda>node.
          res_bind (fail_if (node_kind node \<noteq> File) Status.InvalidArgument) (\<lambda>_.
          let chunk_start = chunk_base (plan_offset plan) chunk_size in
          res_bind (ok_or (checked_add chunk_start (u64_of_u32 chunk_size)) Status.InvalidArgument) (\<lambda>chunk_end.
          res_bind (ok_or (checked_add (plan_offset plan) (u64_of_u32 (plan_length plan))) Status.InvalidArgument) (\<lambda>request_end.
          if request_end > chunk_end
          then Inr \<lparr>coalesced_provider = plan, coalesced_response_offset = 0,
                    coalesced_response_length = plan_length plan\<rparr>
          else
            let remaining = saturating_sub (attr_size (node_attr node)) chunk_start in
            res_bind (ok_or (u32_try_from (min (u64_of_u32 chunk_size) remaining)) Status.InvalidArgument) (\<lambda>len.
            res_bind (ok_or (u32_try_from (plan_offset plan - chunk_start)) Status.InvalidArgument) (\<lambda>response_offset.
            Inr \<lparr>coalesced_provider = plan\<lparr>plan_offset := chunk_start, plan_length := len\<rparr>,
                 coalesced_response_offset = response_offset,
                 coalesced_response_length = plan_length plan\<rparr>))))))))"

section \<open>The length of a read\<close>

text \<open>A request is cut at the end of the file; the result always fits \<open>u32\<close> and its end
  always fits \<open>u64\<close>, so the conversions of the planners cannot fail.\<close>

definition clip_length :: "u64 \<Rightarrow> u64 \<Rightarrow> u32 \<Rightarrow> u32" where
  "clip_length sz offset len = ucast (min (u64_of_u32 len) (sz - offset))"

lemma u32_try_from_min: "u32_try_from (min (u64_of_u32 len) r) = Some (ucast (min (u64_of_u32 len) r))"
proof -
  have "unat (min (u64_of_u32 len) r) \<le> unat len" by (simp add: min_def word_le_nat_alt)
  then have "unat (min (u64_of_u32 len) r) < 2 ^ 32" by (rule le_less_trans) simp
  then show ?thesis by (simp only: u32_try_from_def if_True)
qed

lemma unat_ucast_min: "unat (ucast (min (u64_of_u32 len) r) :: u32) = min (unat len) (unat r)"
  using unat_u32_try_from [OF u32_try_from_min [of len r]] by (simp add: min_def word_le_nat_alt)

lemma clip_length_try: "u32_try_from (min (u64_of_u32 len) (sz - offset)) = Some (clip_length sz offset len)"
  by (simp add: u32_try_from_min clip_length_def)

lemma unat_clip_length:
  "offset \<le> sz \<Longrightarrow> unat (clip_length sz offset len) = min (unat len) (unat sz - unat offset)"
  by (simp add: clip_length_def unat_ucast_min unat_sub)

lemma clip_length_end:
  assumes "offset \<le> sz"
  shows "unat offset + unat (clip_length sz offset len) \<le> unat sz"
  using assms by (simp add: unat_clip_length word_le_nat_alt)

lemma clip_length_no_overflow:
  assumes "offset \<le> sz"
  shows "checked_add offset (u64_of_u32 (clip_length sz offset len)) = Some (offset + u64_of_u32 (clip_length sz offset len))"
proof -
  have "unat offset + unat (clip_length sz offset len) < 2 ^ 64"
    by (rule le_less_trans [OF clip_length_end [OF assms]]) simp
  then show ?thesis by (simp add: checked_add_def)
qed

lemma clip_length_pos: "offset < sz \<Longrightarrow> 0 < len \<Longrightarrow> 0 < clip_length sz offset len"
  by (simp add: word_less_nat_alt unat_clip_length word_le_nat_alt)

lemma clip_length_idem:
  assumes "offset \<le> sz"
  shows "clip_length sz offset (clip_length sz offset len) = clip_length sz offset len"
  using assms by (simp add: word_unat_eq_iff unat_clip_length)

section \<open>Outcomes\<close>

lemma tree_get_node:
  assumes "rt_inv rt" and "promise rt pid = Some t" and "tree_get t path = Some n"
  shows "node_at rt pid (node_relative_path n) = Some n" and "normal_path (node_relative_path n)"
    and "tree_get t (node_relative_path n) = Some n"
proof -
  from assms(3) obtain p where p: "bt_get (tree_nodes t) p = Some n"
    by (auto simp: tree_get_def split: sum.splits)
  then have "node_at rt pid p = Some n" using assms(2) by (simp add: node_at_def)
  from rt_inv_node [OF assms(1) this] have "node_relative_path n = p" "normal_path p" by blast+
  with p \<open>node_at rt pid p = Some n\<close>
  show "node_at rt pid (node_relative_path n) = Some n" "normal_path (node_relative_path n)"
    "tree_get t (node_relative_path n) = Some n"
    by (simp_all add: tree_get_def normal_path_def)
qed

text \<open>What the cache answers for a read of \<open>len\<close> bytes.\<close>

definition cache_answer :: "Runtime \<Rightarrow> string \<Rightarrow> string \<Rightarrow> u64 \<Rightarrow> u32 \<Rightarrow> bytes option" where
  "cache_answer rt pid path offset len =
     Option.bind (cache_policy_chunk_size (rt_cache_policy rt)) (\<lambda>chunk_size.
       cache_read (rt_read_cache rt) pid path offset (u64_of_u32 len) chunk_size)"

definition request_of :: "PromiseTree \<Rightarrow> PromiseNode \<Rightarrow> u64 \<Rightarrow> u32 \<Rightarrow> ProviderReadPlan" where
  "request_of t n offset len =
     \<lparr>plan_provider_id = tree_provider_id t, plan_promise_id = tree_promise_id t,
      plan_relative_path = node_relative_path n, plan_provider_node_id = node_provider_node_id n,
      plan_offset = offset, plan_length = len\<rparr>"

lemma plan_provider_read_file:
  assumes "rt_inv rt" and "promise rt pid = Some t" and "tree_get t path = Some n" and "node_kind n = File"
    and "0 < len" and "offset < attr_size (node_attr n)"
  shows "plan_provider_read rt pid path offset len =
    (if has_provider rt (tree_provider_id t)
     then Inr (request_of t n offset (clip_length (attr_size (node_attr n)) offset len))
     else Inl Status.ProviderGone)"
proof -
  have "\<not> (len = 0 \<or> attr_size (node_attr n) \<le> offset)" and le: "offset \<le> attr_size (node_attr n)"
    using assms(5,6) by auto
  then show ?thesis
    using assms(2-4) rt_invD(4) [OF assms(1,2)] clip_length_no_overflow [OF le, of len]
    by (simp add: plan_provider_read_def clip_length_try promise_ok_def request_of_def)
qed

lemma plan_read_file:
  assumes "rt_inv rt" and "promise rt pid = Some t" and "tree_get t path = Some n" and "node_kind n = File"
    and "0 < len" and "offset < attr_size (node_attr n)"
  defines "l \<equiv> clip_length (attr_size (node_attr n)) offset len"
  shows "plan_read rt pid path offset len =
    (case node_materialized_path n of
       Some file \<Rightarrow> Inr (ReadPlan.Materialized
         \<lparr>materialized_path = file, materialized_offset = offset, materialized_length = l\<rparr>)
     | None \<Rightarrow>
         (case cache_answer rt pid (node_relative_path n) offset l of
            Some bs \<Rightarrow> Inr (Cached \<lparr>cached_bytes = bs\<rparr>)
          | None \<Rightarrow>
              if has_provider rt (tree_provider_id t) then Inr (Request (request_of t n offset l))
              else Inl Status.ProviderGone))"
proof -
  have le: "offset \<le> attr_size (node_attr n)" and "0 < l"
    using assms(5,6) clip_length_pos by (simp_all add: l_def)
  then have prov: "plan_provider_read rt pid (node_relative_path n) offset l =
    (if has_provider rt (tree_provider_id t) then Inr (request_of t n offset l) else Inl Status.ProviderGone)"
    using plan_provider_read_file [OF assms(1,2) tree_get_node(3) [OF assms(1-3)] assms(4) _ assms(6), of l]
      clip_length_idem [OF le] by (simp add: l_def)
  have "\<not> (len = 0 \<or> attr_size (node_attr n) \<le> offset)" using assms(5,6) by auto
  then show ?thesis
    using assms(2-4) clip_length_no_overflow [OF le, of len]
    by (simp add: plan_read_def clip_length_try l_def [symmetric] cache_answer_def [symmetric] prov split: option.split)
qed

lemma plan_provider_read_length: "plan_provider_read rt pid p offset len = Inr plan \<Longrightarrow> unat (plan_length plan) \<le> unat len"
  by (auto simp: plan_provider_read_def outcome_simps Let_def u32_try_from_min unat_ucast_min)

lemma plan_read_lengths:
  assumes "plan_read rt pid p offset len = Inr plan" and "cache_wf (rt_read_cache rt)"
  shows "\<And>q. plan = ReadPlan.Request q \<Longrightarrow> unat (plan_length q) \<le> unat len"
    and "\<And>q. plan = ReadPlan.Materialized q \<Longrightarrow> unat (materialized_length q) \<le> unat len"
    and "\<And>q. plan = ReadPlan.Cached q \<Longrightarrow> length (cached_bytes q) \<le> unat len"
proof -
  show "unat (plan_length q) \<le> unat len" if "plan = ReadPlan.Request q" for q
    using assms(1) that
    by (auto simp: plan_read_def outcome_simps Let_def u32_try_from_min unat_ucast_min
        split: if_splits option.splits dest!: plan_provider_read_length)
  show "unat (materialized_length q) \<le> unat len" if "plan = ReadPlan.Materialized q" for q
    using assms(1) that
    by (auto simp: plan_read_def outcome_simps Let_def u32_try_from_min unat_ucast_min split: if_splits option.splits)
  show "length (cached_bytes q) \<le> unat len" if "plan = ReadPlan.Cached q" for q
  proof -
    from assms(1) that obtain n :: PromiseNode and cs where r: "cache_policy_chunk_size (rt_cache_policy rt) = Some cs"
      "cache_read (rt_read_cache rt) pid (node_relative_path n) offset
         (u64_of_u32 (clip_length (attr_size (node_attr n)) offset len)) cs = Some (cached_bytes q)"
      "len \<noteq> 0" "\<not> attr_size (node_attr n) \<le> offset"
      by (auto simp: plan_read_def outcome_simps Let_def clip_length_try bind_eq_Some_conv
          split: if_splits option.splits)
    have "0 < clip_length (attr_size (node_attr n)) offset len"
      by (rule clip_length_pos) (use r(3,4) in \<open>simp_all add: word_gt_0 not_le\<close>)
    then have "0 < u64_of_u32 (clip_length (attr_size (node_attr n)) offset len)" by (simp add: word_less_nat_alt)
    from r(2) [unfolded cache_read_iff [OF assms(2) chunk_size_positive [OF r(1)] this]] show ?thesis
      by (simp add: clip_length_def unat_ucast_min)
  qed
qed

lemma plan_read_Inr_file:
  assumes "plan_read rt pid path offset len = Inr plan"
  obtains t n where "promise rt pid = Some t" "tree_get t path = Some n" "node_kind n = File"
    "plan = Eof \<longleftrightarrow> len = 0 \<or> attr_size (node_attr n) \<le> offset"
proof -
  from assms obtain t n where t: "promise rt pid = Some t" "tree_get t path = Some n" "node_kind n = File"
    by (auto simp: plan_read_def outcome_simps)
  moreover have "plan = Eof \<longleftrightarrow> len = 0 \<or> attr_size (node_attr n) \<le> offset"
    using assms t by (auto simp: plan_read_def outcome_simps Let_def split: if_splits option.splits)
  ultimately show ?thesis using that by blast
qed

section \<open>Coalescing\<close>

text \<open>The widened request contains the original one at the recorded offset, stays within the
  file, and keeps the identity of the plan.\<close>

definition coalesced_ok :: "u64 \<Rightarrow> ProviderReadPlan \<Rightarrow> CoalescedProviderReadPlan \<Rightarrow> bool" where
  "coalesced_ok sz plan c \<longleftrightarrow>
     coalesced_response_length c = plan_length plan \<and>
     coalesced_provider c = plan\<lparr>plan_offset := plan_offset (coalesced_provider c),
                                  plan_length := plan_length (coalesced_provider c)\<rparr> \<and>
     unat (plan_offset plan) = unat (plan_offset (coalesced_provider c)) + unat (coalesced_response_offset c) \<and>
     unat (coalesced_response_offset c) + unat (coalesced_response_length c) \<le> unat (plan_length (coalesced_provider c)) \<and>
     unat (plan_offset (coalesced_provider c)) + unat (plan_length (coalesced_provider c)) \<le> unat sz"

lemma coalesced_ok_self:
  "unat (plan_offset plan) + unat (plan_length plan) \<le> unat sz \<Longrightarrow>
     coalesced_ok sz plan \<lparr>coalesced_provider = plan, coalesced_response_offset = 0,
       coalesced_response_length = plan_length plan\<rparr>"
  by (simp add: coalesced_ok_def)

theorem plan_coalesced_ok:
  assumes "promise rt (plan_promise_id plan) = Some t" and "tree_get t (plan_relative_path plan) = Some n"
    and "node_kind n = File"
    and len: "unat (plan_offset plan) + unat (plan_length plan) \<le> unat (attr_size (node_attr n))"
    and room: "\<And>cs. cache_policy_chunk_size (rt_cache_policy rt) = Some cs \<Longrightarrow>
      unat (chunk_base (plan_offset plan) cs) + unat cs < 2 ^ 64"
  shows "\<exists>c. plan_coalesced_provider_read rt plan = Inr c \<and> coalesced_ok (attr_size (node_attr n)) plan c"
proof (cases "cache_policy_chunk_size (rt_cache_policy rt)")
  case None
  then show ?thesis using coalesced_ok_self [OF len] by (simp add: plan_coalesced_provider_read_def)
next
  case (Some cs)
  define sz where "sz = attr_size (node_attr n)"
  define base where "base = chunk_base (plan_offset plan) cs"
  define l where "l = (ucast (min (u64_of_u32 cs) (saturating_sub sz base)) :: u32)"
  have pos: "0 < cs" by (rule chunk_size_positive [OF Some])
  have b: "unat base \<le> unat (plan_offset plan)" "unat (plan_offset plan) < unat base + unat cs"
    using chunk_base_bounds [OF pos, of "plan_offset plan"] by (simp_all add: base_def)
  have "unat (plan_offset plan) + unat (plan_length plan) < 2 ^ 64" by (rule le_less_trans [OF len]) simp
  then have re: "checked_add (plan_offset plan) (u64_of_u32 (plan_length plan)) =
      Some (plan_offset plan + u64_of_u32 (plan_length plan))"
    "unat (plan_offset plan + u64_of_u32 (plan_length plan)) = unat (plan_offset plan) + unat (plan_length plan)"
    by (simp_all add: checked_add_def unat_add_small)
  from room [OF Some] have ce: "checked_add base (u64_of_u32 cs) = Some (base + u64_of_u32 cs)"
    "unat (base + u64_of_u32 cs) = unat base + unat cs"
    by (simp_all add: base_def checked_add_def unat_add_small)
  have l: "unat l = min (unat cs) (unat sz - unat base)"
    by (simp add: l_def unat_ucast_min unat_saturating_sub)
  have ro: "unat (plan_offset plan - base) = unat (plan_offset plan) - unat base"
    using b(1) by (simp add: unat_sub word_le_nat_alt)
  then have "unat (plan_offset plan - base) < unat cs" using b by linarith
  then have "unat (plan_offset plan - base) < 2 ^ 32" by (rule less_trans) simp
  then have ro': "u32_try_from (plan_offset plan - base) = Some (ucast (plan_offset plan - base))"
    by (simp only: u32_try_from_def if_True)
  have step: "plan_coalesced_provider_read rt plan =
    (if base + u64_of_u32 cs < plan_offset plan + u64_of_u32 (plan_length plan)
     then Inr \<lparr>coalesced_provider = plan, coalesced_response_offset = 0, coalesced_response_length = plan_length plan\<rparr>
     else Inr \<lparr>coalesced_provider = plan\<lparr>plan_offset := base, plan_length := l\<rparr>,
       coalesced_response_offset = ucast (plan_offset plan - base), coalesced_response_length = plan_length plan\<rparr>)"
    using assms(1-3) Some re(1) ce(1) ro'
    by (simp add: plan_coalesced_provider_read_def base_def [symmetric] sz_def [symmetric] u32_try_from_min l_def [symmetric])
  show ?thesis
  proof (cases "base + u64_of_u32 cs < plan_offset plan + u64_of_u32 (plan_length plan)")
    case True
    then show ?thesis using step coalesced_ok_self [OF len] by simp
  next
    case False
    then have "unat (plan_offset plan) + unat (plan_length plan) \<le> unat base + unat cs"
      using re(2) ce(2) by (simp add: not_less word_le_nat_alt)
    then have "unat (plan_offset plan) - unat base + unat (plan_length plan) \<le> unat l"
      using len b unfolding l sz_def by (intro min.boundedI) linarith+
    moreover have "unat base + unat l \<le> unat sz" using l len b by (simp add: sz_def)
    moreover have "unat (ucast (plan_offset plan - base) :: u32) = unat (plan_offset plan) - unat base"
      using unat_u32_try_from [OF ro'] ro by simp
    ultimately have "coalesced_ok sz plan \<lparr>coalesced_provider = plan\<lparr>plan_offset := base, plan_length := l\<rparr>,
       coalesced_response_offset = ucast (plan_offset plan - base), coalesced_response_length = plan_length plan\<rparr>"
      using b by (simp add: coalesced_ok_def)
    then show ?thesis using False step by (simp add: sz_def)
  qed
qed

text \<open>In the last chunk of the 64-bit offset range the widening fails, although the read
  itself is in range: the end of the chunk is not representable.\<close>

theorem plan_coalesced_last_chunk:
  assumes "promise rt (plan_promise_id plan) = Some t" and "tree_get t (plan_relative_path plan) = Some n"
    and "node_kind n = File" and "cache_policy_chunk_size (rt_cache_policy rt) = Some cs"
    and "2 ^ 64 \<le> unat (chunk_base (plan_offset plan) cs) + unat cs"
  shows "plan_coalesced_provider_read rt plan = Inl Status.InvalidArgument"
  using assms by (simp add: plan_coalesced_provider_read_def checked_add_def)

section \<open>Prefetch\<close>

theorem plan_sequential_prefetch_Some:
  assumes "rt_inv rt" and "plan_sequential_prefetch rt pid path offset len = Inr (Some plan)"
  obtains t n cs where "cache_policy_chunk_size (rt_cache_policy rt) = Some cs"
    and "promise rt pid = Some t" and "tree_get t path = Some n"
    and "plan = request_of t n (plan_offset plan) (plan_length plan)"
    and "unat (plan_offset plan) = unat offset + unat len"
    and "0 < plan_length plan" and "plan_length plan \<le> cs"
    and "unat (plan_offset plan) + unat (plan_length plan) \<le> unat (attr_size (node_attr n))"
    and "has_provider rt (tree_provider_id t)" and "node_materialized_path n = None"
    and "cache_answer rt pid (node_relative_path n) (plan_offset plan) (plan_length plan) = None"
proof -
  from assms(2) obtain cs t n e where
    r: "cache_policy_chunk_size (rt_cache_policy rt) = Some cs" "promise rt pid = Some t" "tree_get t path = Some n"
      "has_provider rt (tree_provider_id t)" "node_materialized_path n = None"
      "checked_add offset (u64_of_u32 len) = Some e" "\<not> attr_size (node_attr n) \<le> e"
      "cache_read (rt_read_cache rt) pid (node_relative_path n) e (u64_of_u32 (clip_length (attr_size (node_attr n)) e cs)) cs = None"
      "plan = request_of t n e (clip_length (attr_size (node_attr n)) e cs)"
    by (auto simp: plan_sequential_prefetch_def outcome_simps Let_def clip_length_try request_of_def
        simp del: u32_try_from_Some split: option.splits if_splits)
  have e: "e < attr_size (node_attr n)" "e \<le> attr_size (node_attr n)" using r(7) by auto
  have pos: "0 < cs" by (rule chunk_size_positive [OF r(1)])
  show ?thesis
  proof (rule that [OF r(1,2,3)])
    show "plan = request_of t n (plan_offset plan) (plan_length plan)" by (simp add: r(9) request_of_def)
    show "unat (plan_offset plan) = unat offset + unat len"
      using unat_checked_add [OF r(6)] by (simp add: r(9) request_of_def)
    show "0 < plan_length plan" using clip_length_pos [OF e(1) pos] by (simp add: r(9) request_of_def)
    show "plan_length plan \<le> cs"
      using unat_clip_length [OF e(2)] by (simp add: r(9) request_of_def word_le_nat_alt)
    show "unat (plan_offset plan) + unat (plan_length plan) \<le> unat (attr_size (node_attr n))"
      using clip_length_end [OF e(2)] by (simp add: r(9) request_of_def)
    show "cache_answer rt pid (node_relative_path n) (plan_offset plan) (plan_length plan) = None"
      using r(1,8) by (simp add: cache_answer_def r(9) request_of_def)
  qed (use r in simp_all)
qed

section \<open>The cache and the files behind it\<close>

text \<open>A run in which everything recorded in the cache is what the provider's file holds;
  \<open>content\<close> gives the bytes of each file by promise and path.\<close>

inductive honest_reachable :: "(CacheKey \<Rightarrow> nat \<Rightarrow> u8 option) \<Rightarrow> nat \<Rightarrow> Runtime \<Rightarrow> bool"
  for content :: "CacheKey \<Rightarrow> nat \<Rightarrow> u8 option" where
  init: "honest_reachable content 0 runtime_new"
| step: "honest_reachable content k rt \<Longrightarrow> runtime_step rt rt' \<Longrightarrow> rt_read_cache rt' = rt_read_cache rt \<Longrightarrow>
    honest_reachable content (Suc k) rt'"
| policy: "honest_reachable content k rt \<Longrightarrow> honest_reachable content (Suc k) (fst (set_cache_policy rt policy))"
| cached: "honest_reachable content k rt \<Longrightarrow>
    (\<And>t n. promise rt pid = Some t \<Longrightarrow> tree_get t path = Some n \<Longrightarrow>
       holds_at (content (CacheKey pid (node_relative_path n))) (unat offset) bs) \<Longrightarrow>
    honest_reachable content (Suc k) (fst (record_cached_read rt pid path offset bs))"

lemma honest_reachable_reachable: "honest_reachable content k rt \<Longrightarrow> runtime_reachable k rt"
  by (induction rule: honest_reachable.induct) (auto intro: runtime_reachable.intros runtime_step.intros)

lemma honest_reachable_agrees:
  assumes "honest_reachable content k rt" and "k < 2 ^ 64 - 1"
  shows "cache_agrees (rt_read_cache rt) content"
  using assms
proof (induction rule: honest_reachable.induct)
  case init
  show ?case by (simp add: runtime_new_def)
next
  case (step k rt rt')
  then show ?case by simp
next
  case (policy k rt policy)
  then show ?case
    by (auto simp: set_cache_policy_def Let_def cache_clear_default split: sum.split)
next
  case (cached k rt pid path offset bs)
  have wf: "cache_wf (rt_read_cache rt)"
    using runtime_reachable_inv [OF honest_reachable_reachable [OF cached.hyps(1)]] cached.prems
    by (simp add: rt_inv_def)
  have agrees: "cache_agrees (rt_read_cache rt) content" using cached.IH cached.prems by simp
  note holds = cached.hyps(2)
  show ?case
  proof (rule record_cached_read_cases [where rt = rt and pid = pid and path = path and offset = offset and bs = bs],
      goal_cases same cached)
    case same
    with agrees show ?case by simp
  next
    case (cached t n cs)
    have "unat offset + length bs < 2 ^ 64" by (rule le_less_trans [OF cached(6)]) simp
    from cache_insert_agrees(2) [OF wf agrees holds [OF cached(3,4)] this] cached(7)
    show ?case by simp
  qed
qed

text \<open>A cached answer to a read is the file's bytes, over exactly the requested range cut at
  the end of the file.\<close>

lemma cached_plan_agrees:
  assumes inv: "rt_inv rt" and "cache_agrees (rt_read_cache rt) content"
    and "plan_read rt pid path offset len = Inr (Cached c)"
  shows "\<exists>t n. promise rt pid = Some t \<and> tree_get t path = Some n \<and>
    length (cached_bytes c) = min (unat len) (unat (attr_size (node_attr n)) - unat offset) \<and>
    holds_at (content (CacheKey pid (node_relative_path n))) (unat offset) (cached_bytes c)"
proof -
  from plan_read_Inr_file [OF assms(3)] obtain t n where
    t: "promise rt pid = Some t" "tree_get t path = Some n" "node_kind n = File"
      "\<not> (len = 0 \<or> attr_size (node_attr n) \<le> offset)" by auto
  define l where "l = clip_length (attr_size (node_attr n)) offset len"
  have pos: "0 < len" "offset < attr_size (node_attr n)" using t(4) by (auto simp: not_le word_neq_0_conv [symmetric])
  have "cache_answer rt pid (node_relative_path n) offset l = Some (cached_bytes c)"
    using plan_read_file [OF inv t(1-3) pos] assms(3)
    by (auto simp: l_def [symmetric] split: option.splits if_splits)
  then obtain cs where cs: "cache_policy_chunk_size (rt_cache_policy rt) = Some cs"
    "cache_read (rt_read_cache rt) pid (node_relative_path n) offset (u64_of_u32 l) cs = Some (cached_bytes c)"
    by (auto simp: cache_answer_def bind_eq_Some_conv)
  from cache_read_agrees [OF rt_invD(12) [OF inv] assms(2) chunk_size_positive [OF cs(1)] cs(2)]
  have "length (cached_bytes c) = unat l" "holds_at (content (CacheKey pid (node_relative_path n))) (unat offset) (cached_bytes c)"
    by simp_all
  with t(1,2) pos(2) show ?thesis by (auto simp: l_def unat_clip_length)
qed

theorem cached_plan_transparent:
  assumes "honest_reachable content k rt" and "k < 2 ^ 64 - 1"
    and "plan_read rt pid path offset len = Inr (Cached c)"
  shows "\<exists>t n. promise rt pid = Some t \<and> tree_get t path = Some n \<and>
    length (cached_bytes c) = min (unat len) (unat (attr_size (node_attr n)) - unat offset) \<and>
    holds_at (content (CacheKey pid (node_relative_path n))) (unat offset) (cached_bytes c)"
  by (rule cached_plan_agrees [OF runtime_reachable_inv [OF honest_reachable_reachable [OF assms(1)] assms(2)]
        honest_reachable_agrees [OF assms(1,2)] assms(3)])

text \<open>Bytes that were recorded are served from the cache afterwards, also once the provider
  is gone.\<close>

lemma holds_at_subslice:
  assumes "holds_at m lo bs" and "s \<le> e" and "e \<le> length bs"
  shows "holds_at m (lo + s) (subslice bs s e)"
  using assms by (auto simp: holds_at_def nth_subslice add.assoc less_diff_conv)

lemma map_add_bytes_at: "holds_at (m ++ bytes_at lo bs) lo bs"
  by (simp add: holds_at_def bytes_at_def map_add_def)

theorem recorded_read_hits:
  assumes inv: "rt_inv rt" and rec: "record_cached_read rt pid path offset bs = (rt', Inr ())"
    and cs: "cache_policy_chunk_size (rt_cache_policy rt) = Some cs"
    and t: "promise rt pid = Some t" "tree_get t path = Some n" and nm: "node_materialized_path n = None"
    and len: "0 < len" and within: "unat offset \<le> unat o'" "unat o' + unat len \<le> unat offset + length bs"
  shows "plan_read rt' pid path o' len = Inr (Cached \<lparr>cached_bytes =
    subslice bs (unat o' - unat offset) (unat o' - unat offset + unat len)\<rparr>)"
proof -
  have len': "0 < unat len" using len by (simp add: word_less_nat_alt)
  then have "bs \<noteq> []" using within by auto
  with rec cs t obtain l e where r: "node_kind n = File" "u64_try_from (length bs) = Some l"
    "checked_add offset l = Some e" "\<not> e > attr_size (node_attr n)"
    "rt' = rt\<lparr>rt_read_cache := cache_insert (rt_read_cache rt) pid (node_relative_path n) offset bs cs\<rparr>"
    by (auto simp: record_cached_read_def outcome_simps split: sum.splits)
  have sz: "unat offset + length bs \<le> unat (attr_size (node_attr n))"
    using unat_checked_add [OF r(3)] unat_u64_try_from [OF r(2)] r(4) by (simp add: not_less word_le_nat_alt)
  have fit: "unat offset + length bs < 2 ^ 64" by (rule le_less_trans [OF sz]) simp
  note pos = chunk_size_positive [OF cs]
  note ins = cache_insert_correct [OF rt_invD(12) [OF inv] pos fit, of pid "node_relative_path n"]
  have inv': "rt_inv rt'" using record_cached_read_inv [OF inv, of pid path offset bs] rec by simp
  have lt: "o' < attr_size (node_attr n)" using within sz len' by (simp add: word_less_nat_alt)
  have l: "clip_length (attr_size (node_attr n)) o' len = len"
    using lt within sz by (simp add: word_unat_eq_iff unat_clip_length)
  let ?out = "subslice bs (unat o' - unat offset) (unat o' - unat offset + unat len)"
  have "holds_at (cache_abs cs (rt_read_cache rt') (CacheKey pid (node_relative_path n))) (unat offset) bs"
    using ins(2) [of "CacheKey pid (node_relative_path n)"] map_add_bytes_at r(5) by simp
  then have "holds_at (cache_abs cs (rt_read_cache rt') (CacheKey pid (node_relative_path n))) (unat o') ?out"
    using holds_at_subslice [of _ "unat offset" bs "unat o' - unat offset" "unat o' - unat offset + unat len"] within
    by simp
  moreover have "length ?out = unat len" using within by simp
  moreover have "unat o' + unat len < 2 ^ 64" using within(2) fit by linarith
  moreover have "0 < u64_of_u32 len" using len' by (simp add: word_less_nat_alt)
  ultimately have "cache_read (rt_read_cache rt') pid (node_relative_path n) o' (u64_of_u32 len) cs = Some ?out"
    by (simp add: cache_read_iff [OF rt_invD(12) [OF inv'] pos])
  then have "cache_answer rt' pid (node_relative_path n) o' len = Some ?out"
    using cs r(5) by (simp add: cache_answer_def)
  then show ?thesis
    using plan_read_file [OF inv' _ t(2) r(1) len lt] t(1) nm r(5) by (simp add: l)
qed

text \<open>Disconnecting the provider keeps materialised and cached answers and turns every other
  read of its files into an error.\<close>

theorem unregister_provider_reads:
  assumes "rt_inv rt" and "promise rt pid = Some t" and "tree_get t path = Some n" and "node_kind n = File"
    and "0 < len" and "offset < attr_size (node_attr n)"
    and "unregister_provider rt (tree_provider_id t) = (rt', Inr ())"
  shows "plan_read rt' pid path offset len =
    (case plan_read rt pid path offset len of Inr (Request _) \<Rightarrow> Inl Status.ProviderGone | r \<Rightarrow> r)"
proof -
  from assms(7) obtain s where s: "bt_get (rt_providers rt) (tree_provider_id t) = Some s"
    "rt' = rt\<lparr>rt_providers := bt_insert (tree_provider_id t) (s\<lparr>session_state := Disconnected\<rparr>) (rt_providers rt),
       rt_promises := bt_map_values (disconnect_promise (tree_provider_id t)) (rt_promises rt)\<rparr>"
    by (auto simp: unregister_provider_def split: option.splits)
  have inv': "rt_inv rt'" using unregister_provider_inv [OF assms(1), of "tree_provider_id t"] assms(7) by simp
  let ?t = "disconnect_promise (tree_provider_id t) t"
  have t': "promise rt' pid = Some ?t" using assms(2) s(2) by (simp add: promise_def)
  have n': "tree_get ?t path = Some n" using assms(3) by (auto simp: tree_get_def disconnect_promise_def split: sum.splits)
  have "\<not> has_provider rt' (tree_provider_id ?t)" using s(2) by (simp add: has_provider_def disconnect_promise_def)
  moreover have "cache_answer rt' = cache_answer rt" using s(2) by (simp add: cache_answer_def fun_eq_iff)
  ultimately show ?thesis
    using plan_read_file [OF inv' t' n' assms(4-6)] plan_read_file [OF assms(1-6)]
    by (simp split: option.splits)
qed

end
