(* ===== verification/Samples.thy ===== *)
theory Samples
  imports Read_Planning
begin

text \<open>
  Concrete states for the witnesses: a provider that commits a promise with a directory
  \<open>d\<close> holding a ten-byte file \<open>f\<close>, under a read-through policy with four-byte chunks.
\<close>

definition sample_builder :: PromiseBuilder where
  "sample_builder =
     fst (builder_add_node
       (fst (builder_add_node (builder_new 1) ''d'' (node_attr_new 493 0 0) ''dir'' Directory))
       ''d/f'' (node_attr_new 420 10 0) ''file'' File)"

definition sample_runtime :: Runtime where
  "sample_runtime =
     fst (commit_promise (fst (register_provider (fst (set_cache_policy runtime_new (ReadThrough 4)))))
       sample_builder)"

lemma sample_builder_reachable: "builder_reachable sample_builder"
  unfolding sample_builder_def by (intro builder_reachable.intros)

lemma sample_honest: "honest_reachable content 3 sample_runtime"
proof -
  let ?a = "fst (set_cache_policy runtime_new (ReadThrough 4))"
  have 1: "honest_reachable content (Suc 0) ?a" by (intro honest_reachable.intros)
  have "honest_reachable content (Suc (Suc 0)) (fst (register_provider ?a))"
    by (rule honest_reachable.step [OF 1 runtime_step.register]) (simp add: register_provider_def Let_def)
  then have "honest_reachable content (Suc (Suc (Suc 0))) sample_runtime"
    unfolding sample_runtime_def
    by (rule honest_reachable.step [OF _ runtime_step.commit [OF sample_builder_reachable]]) code_simp
  then show ?thesis by (simp add: numeral_3_eq_3)
qed

lemma sample_reachable: "runtime_reachable 3 sample_runtime"
  by (rule honest_reachable_reachable [OF sample_honest])

lemma sample_inv: "rt_inv sample_runtime"
  by (rule runtime_reachable_inv [OF sample_reachable]) simp

definition sample_file :: PromiseNode where
  "sample_file =
     \<lparr>node_id = 3, node_inode = 4, node_relative_path = ''d/f'', node_parent_path = Some ''d'',
      node_name = ''f'', node_provider_node_id = ''file'', node_materialized_path = None,
      node_kind = File, node_attr = node_attr_new 420 10 0\<rparr>"

definition sample_dir :: PromiseNode where
  "sample_dir =
     \<lparr>node_id = 2, node_inode = 3, node_relative_path = ''d'', node_parent_path = Some [],
      node_name = ''d'', node_provider_node_id = ''dir'', node_materialized_path = None,
      node_kind = Directory, node_attr = node_attr_new 493 0 0\<rparr>"

definition sample_tree :: PromiseTree where
  "sample_tree =
     \<lparr>tree_promise_id = ''promise-1'', tree_provider_id = 1, tree_state = Available,
      tree_nodes =
        [([], \<lparr>node_id = 1, node_inode = 2, node_relative_path = [], node_parent_path = None,
           node_name = [], node_provider_node_id = [], node_materialized_path = None,
           node_kind = Directory, node_attr = node_attr_new 493 0 0\<rparr>),
         (''d'', sample_dir), (''d/f'', sample_file)],
      tree_children = [([], [''d'']), (''d'', [''d/f''])]\<rparr>"

lemma sample_runtime_eq:
  "sample_runtime =
     \<lparr>rt_next_provider_id = 2, rt_next_promise_id = 2, rt_next_node_id = 4, rt_next_inode = 5,
      rt_providers = [(1, \<lparr>session_id = 1, session_state = Live\<rparr>)],
      rt_promises = [(''promise-1'', sample_tree)],
      rt_cache_policy = ReadThrough 4, rt_read_cache = read_cache_default\<rparr>"
  by code_simp

lemma sample_lookups:
  "promise sample_runtime ''promise-1'' = Some sample_tree"
  "tree_get sample_tree ''d/f'' = Some sample_file" "tree_get sample_tree ''d'' = Some sample_dir"
  by code_simp+

lemma sample_chunk_size: "cache_policy_chunk_size (rt_cache_policy sample_runtime) = Some 4"
  by (simp add: sample_runtime_eq cache_policy_chunk_size_def)

text \<open>The same state with four bytes of the file recorded in the cache, and the file's bytes.\<close>

definition sample_cached :: Runtime where
  "sample_cached = fst (record_cached_read sample_runtime ''promise-1'' ''d/f'' 2 [12, 13, 14, 15])"

definition sample_content :: "CacheKey \<Rightarrow> nat \<Rightarrow> u8 option" where
  "sample_content key i = (if i < 10 then Some (of_nat (10 + i)) else None)"

lemma sample_recorded:
  "record_cached_read sample_runtime ''promise-1'' ''d/f'' 2 [12, 13, 14, 15] = (sample_cached, Inr ())"
proof -
  have "snd (record_cached_read sample_runtime ''promise-1'' ''d/f'' 2 [12, 13, 14, 15]) = Inr ()"
    by (simp add: record_cached_read_def sample_chunk_size sample_lookups u64_try_from_def checked_add_def)
      (simp add: sample_file_def node_attr_new_def)
  then show ?thesis unfolding sample_cached_def by (metis prod.collapse)
qed

lemma sample_cached_honest: "honest_reachable sample_content 4 sample_cached"
proof -
  have "honest_reachable sample_content (Suc 3) sample_cached"
    unfolding sample_cached_def
  proof (rule honest_reachable.cached [OF sample_honest])
    show "holds_at (sample_content (CacheKey ''promise-1'' (node_relative_path n))) (unat (2 :: u64)) [12, 13, 14, 15]"
      for n :: PromiseNode
      by (simp add: holds_at_Cons sample_content_def)
  qed
  moreover have "Suc 3 = 4" by simp
  ultimately show ?thesis by (simp only:)
qed

lemma sample_cached_plan:
  "plan_read sample_cached ''promise-1'' ''d/f'' 3 2 = Inr (Cached \<lparr>cached_bytes = [13, 14]\<rparr>)"
  using recorded_read_hits [OF sample_inv sample_recorded sample_chunk_size sample_lookups(1,2), of 2 3]
  by (simp add: sample_file_def subslice_def)

lemma sample_cached_lookups: "promise sample_cached ''promise-1'' = Some sample_tree"
proof -
  have "promise (fst (record_cached_read rt pid path offset bs)) = promise rt" for rt pid path offset bs
    by (rule record_cached_read_cases [where rt = rt and pid = pid and path = path and offset = offset and bs = bs]) simp_all
  then show ?thesis by (simp add: sample_cached_def sample_lookups)
qed

definition sample_cache :: ReadCache where
  "sample_cache =
     cache_insert (cache_insert read_cache_default ''p'' ''f'' 2 [1, 2, 3] 4) ''p'' ''f'' 4 [9, 8, 7, 6, 5] 4"

lemma sample_cache_wf: "cache_wf sample_cache"
  unfolding sample_cache_def by (intro cache_insert_correct(1) cache_wf_default) simp_all

lemma sample_cache_abs:
  "cache_abs 4 sample_cache (CacheKey ''p'' ''f'') = Map.empty ++ bytes_at 2 [1, 2, 3] ++ bytes_at 4 [9, 8, 7, 6, 5]"
proof -
  have "cache_wf (cache_insert read_cache_default ''p'' ''f'' 2 [1, 2, 3] 4)"
    by (intro cache_insert_correct(1) cache_wf_default) simp_all
  then show ?thesis by (simp add: sample_cache_def cache_insert_correct(2))
qed

end
