(* ===== verification/Runtime_Properties.thy ===== *)
theory Runtime_Properties
  imports Samples
begin

text \<open>
  The properties of the runtime crate, stated of the states a runtime reaches from
  \<open>Runtime::new\<close> by its public operations, each with a witness on a concrete state. The
  bound on the number of operations is the point where the unchecked counters of
  \<open>register_provider\<close> and \<open>commit_promise\<close> would wrap around.
\<close>

section \<open>The read cache\<close>

text \<open>C1. Caching is transparent: when everything recorded in the cache was a part of the file it
  was recorded for, a read that is planned from the cache returns exactly the bytes of the file
  over the requested range, cut at the end of the file, whatever sequence of operations and
  policy changes led to the state.\<close>

theorem cached_reads_are_file_bytes:
  assumes "honest_reachable content k rt" and "k < 2 ^ 64 - 1"
    and "plan_read rt promise_id path offset len = Inr (Cached c)"
  shows "\<exists>t n. promise rt promise_id = Some t \<and> tree_get t path = Some n \<and>
    length (cached_bytes c) = min (unat len) (unat (attr_size (node_attr n)) - unat offset) \<and>
    holds_at (content (CacheKey promise_id (node_relative_path n))) (unat offset) (cached_bytes c)"
  using assms by (rule cached_plan_transparent)

theorem cached_reads_are_file_bytes_witness:
  "plan_read sample_cached ''promise-1'' ''d/f'' 3 2 = Inr (Cached \<lparr>cached_bytes = [13, 14]\<rparr>) \<and>
   holds_at (sample_content (CacheKey ''promise-1'' ''d/f'')) 3 [13, 14]"
proof -
  from cached_reads_are_file_bytes [OF sample_cached_honest _ sample_cached_plan] obtain t n where
    "promise sample_cached ''promise-1'' = Some t" "tree_get t ''d/f'' = Some n"
    "holds_at (sample_content (CacheKey ''promise-1'' (node_relative_path n))) 3 [13, 14]" by auto
  then show ?thesis
    using sample_cached_plan sample_cached_lookups sample_lookups(2) by (auto simp: sample_file_def)
qed

text \<open>C8. Reading through the chunked cache is exact: a hit happens if and only if every byte of
  the range is held, and it returns those bytes.\<close>

theorem cache_read_exact:
  assumes "cache_wf c" and "0 < chunk_size" and "0 < len"
  shows "cache_read c promise_id path offset len chunk_size = Some bs \<longleftrightarrow>
    unat offset + unat len < 2 ^ 64 \<and> length bs = unat len \<and>
    holds_at (cache_abs chunk_size c (CacheKey promise_id path)) (unat offset) bs"
  using assms by (rule cache_read_iff)

text \<open>C9. Inserting bytes, across any number of chunks and merging with any ranges already held,
  overrides the held bytes on exactly the inserted range of that file.\<close>

theorem cache_insert_overrides:
  assumes "cache_wf c" and "0 < chunk_size" and "unat offset + length bs < 2 ^ 64"
  shows "cache_wf (cache_insert c promise_id path offset bs chunk_size) \<and>
    cache_abs chunk_size (cache_insert c promise_id path offset bs chunk_size) key =
      (if key = CacheKey promise_id path then cache_abs chunk_size c key ++ bytes_at (unat offset) bs
       else cache_abs chunk_size c key)"
  using cache_insert_correct [OF assms] by blast

theorem cache_read_exact_witness:
  "cache_read sample_cache ''p'' ''f'' 3 5 4 = Some [2, 9, 8, 7, 6]"
  using cache_read_exact [OF sample_cache_wf, of 4 5 "''p''" "''f''" 3 "[2, 9, 8, 7, 6]"]
  by (simp add: sample_cache_abs holds_at_Cons bytes_at_def map_add_def)

theorem cache_insert_overrides_witness:
  "cache_abs 4 (cache_insert sample_cache ''p'' ''f'' 5 [42] 4) (CacheKey ''p'' ''f'') 5 = Some 42"
  using cache_insert_overrides [OF sample_cache_wf, of 4 5 "[42]" "''p''" "''f''" "CacheKey ''p'' ''f''"]
  by (simp add: bytes_at_def map_add_def)

text \<open>C25. A successfully recorded read is served from the cache afterwards: every read inside the
  recorded range of a file that is not materialised plans to the recorded bytes.\<close>

theorem recorded_bytes_are_served:
  assumes "runtime_reachable k rt" and "k < 2 ^ 64 - 1"
    and "record_cached_read rt promise_id path offset bs = (rt', Inr ())"
    and "cache_policy_chunk_size (rt_cache_policy rt) = Some chunk_size"
    and "promise rt promise_id = Some t" and "tree_get t path = Some n" and "node_materialized_path n = None"
    and "0 < len" and "unat offset \<le> unat o'" and "unat o' + unat len \<le> unat offset + length bs"
  shows "plan_read rt' promise_id path o' len = Inr (Cached \<lparr>cached_bytes =
    subslice bs (unat o' - unat offset) (unat o' - unat offset + unat len)\<rparr>)"
  by (rule recorded_read_hits [OF runtime_reachable_inv [OF assms(1,2)] assms(3-10)])

theorem recorded_bytes_are_served_witness:
  "plan_read sample_cached ''promise-1'' ''d/f'' 4 2 = Inr (Cached \<lparr>cached_bytes = [14, 15]\<rparr>)"
  using recorded_bytes_are_served [OF sample_reachable _ sample_recorded sample_chunk_size sample_lookups(1,2), of 2 4]
  by (simp add: sample_file_def subslice_def)

section \<open>Identifiers, trees and lookup\<close>

text \<open>C16. In every reachable state, looking up an inode finds a node exactly when that node is
  committed under that inode; in particular the result does not depend on the order of promises.\<close>

theorem inode_lookup_exact:
  assumes "runtime_reachable k rt" and "k < 2 ^ 64 - 1"
  shows "lookup_inode rt inode = Inr (PromiseNode promise_id n) \<longleftrightarrow>
    node_at rt promise_id (node_relative_path n) = Some n \<and> node_inode n = inode"
  using runtime_reachable_inv [OF assms] by (rule lookup_inode_iff)

theorem inode_lookup_exact_witness:
  "lookup_inode sample_runtime 4 = Inr (PromiseNode ''promise-1'' sample_file)"
  using inode_lookup_exact [OF sample_reachable, of 4 "''promise-1''" sample_file]
  by (simp add: node_at_def sample_lookups sample_tree_def sample_file_def)

text \<open>C14. Inodes and node ids are never shared: two nodes of any promises with the same inode or
  the same node id are the same node.\<close>

theorem identifiers_unique:
  assumes "runtime_reachable k rt" and "k < 2 ^ 64 - 1"
    and "node_at rt promise_id p = Some n" and "node_at rt promise_id' p' = Some n'"
    and "node_inode n = node_inode n' \<or> node_id n = node_id n'"
  shows "promise_id = promise_id' \<and> p = p'"
  using rt_invD(5,6) [OF runtime_reachable_inv [OF assms(1,2)]] assms(3-5) unfolding numbering_def by blast

theorem identifiers_unique_witness:
  "{(pid, p). node_at sample_runtime pid p = Some sample_file} = {(''promise-1'', ''d/f'')}"
proof -
  have f: "node_at sample_runtime ''promise-1'' ''d/f'' = Some sample_file"
    by (simp add: node_at_def sample_lookups sample_tree_def)
  have "pid = ''promise-1'' \<and> p = ''d/f''" if "node_at sample_runtime pid p = Some sample_file" for pid p
    using identifiers_unique [OF sample_reachable _ that f] by simp
  with f show ?thesis by blast
qed

text \<open>C15. Every committed promise is a well-formed directory tree, filed under its own id, and is
  available exactly while its provider is live.\<close>

theorem promises_well_formed:
  assumes "runtime_reachable k rt" and "k < 2 ^ 64 - 1" and "promise rt promise_id = Some t"
  shows "tree_wf t \<and> tree_promise_id t = promise_id \<and>
    tree_state t = (if has_provider rt (tree_provider_id t) then Available else PromiseState.ProviderGone)"
  using rt_invD(4) [OF runtime_reachable_inv [OF assms(1,2)] assms(3)] by (simp add: promise_ok_def)

theorem promises_well_formed_witness: "tree_wf sample_tree"
  using promises_well_formed [OF sample_reachable _ sample_lookups(1)] by simp



text \<open>C29. Every builder made through the public interface holds a well-formed directory tree.\<close>

theorem builders_well_formed:
  assumes "builder_reachable b"
  shows "tree_wf (builder_finish b promise_id)"
  using builder_reachable_wf [OF assms] by (simp add: builder_finish_wf)

theorem builders_well_formed_witness: "tree_wf (builder_finish sample_builder ''p'')"
  by (rule builders_well_formed [OF sample_builder_reachable])

text \<open>C30. Listing a subtree of a committed promise terminates and returns every node at or below
  its root exactly once, each directory before its contents.\<close>

theorem subtree_nodes_total:
  assumes "runtime_reachable k rt" and "k < 2 ^ 64 - 1" and "promise rt promise_id = Some t"
    and "tree_get t relative_path = Some n" and "subtree_fuel t \<le> fuel"
  shows "\<exists>ns. subtree_nodes fuel t relative_path = Some (Inr ns) \<and>
    subtree_listing t [node_relative_path n] ns"
proof -
  have "tree_wf t" using rt_invD(4) [OF runtime_reachable_inv [OF assms(1,2)] assms(3)] by (simp add: promise_ok_def)
  from subtree_nodes_complete [OF this assms(5,4)] show ?thesis .
qed

theorem subtree_nodes_total_witness:
  "\<exists>ns. subtree_nodes (subtree_fuel sample_tree) sample_tree ''d'' = Some (Inr ns) \<and> subtree_listing sample_tree [''d''] ns"
  using subtree_nodes_total [OF sample_reachable _ sample_lookups(1,3), of "subtree_fuel sample_tree"]
  by (simp add: sample_dir_def)

text \<open>C31. Listing a directory and looking names up in it agree: the listing succeeds, names each
  child once, and contains an entry exactly when looking its name up finds that inode and kind.\<close>

theorem read_dir_agrees_with_lookup:
  assumes "runtime_reachable k rt" and "k < 2 ^ 64 - 1" and "node_at rt promise_id p = Some d"
    and "node_kind d = Directory"
  shows "\<exists>es. read_dir rt (node_inode d) = Inr es \<and> distinct (map dirent_name es) \<and>
    (\<forall>name inode kind. \<lparr>dirent_name = name, dirent_inode = inode, dirent_kind = kind\<rparr> \<in> set es \<longleftrightarrow>
       (\<exists>n. lookup_child rt (node_inode d) name = Inr (PromiseNode promise_id n) \<and> node_inode n = inode \<and> node_kind n = kind))"
  by (rule read_dir_children [OF runtime_reachable_inv [OF assms(1,2)] assms(3,4)])

theorem read_dir_agrees_with_lookup_witness:
  "\<exists>es. read_dir sample_runtime 3 = Inr es \<and> distinct (map dirent_name es)"
  using read_dir_agrees_with_lookup [OF sample_reachable, of "''promise-1''" "''d''" sample_dir]
  by (auto simp: node_at_def sample_lookups sample_tree_def sample_dir_def)

section \<open>Read planning\<close>



text \<open>C26. Unregistering a provider keeps every materialised and every cached read of its files
  working unchanged, and turns exactly the reads that would have gone to it into errors.\<close>

theorem reads_after_unregister:
  assumes "runtime_reachable k rt" and "k < 2 ^ 64 - 1" and "promise rt promise_id = Some t"
    and "tree_get t path = Some n" and "node_kind n = File" and "0 < len" and "offset < attr_size (node_attr n)"
    and "unregister_provider rt (tree_provider_id t) = (rt', Inr ())"
  shows "plan_read rt' promise_id path offset len =
    (case plan_read rt promise_id path offset len of Inr (Request _) \<Rightarrow> Inl Status.ProviderGone | r \<Rightarrow> r)"
  by (rule unregister_provider_reads [OF runtime_reachable_inv [OF assms(1,2)] assms(3-8)])

theorem reads_after_unregister_witness:
  "plan_read (fst (unregister_provider sample_cached 1)) ''promise-1'' ''d/f'' 3 2 = Inr (Cached \<lparr>cached_bytes = [13, 14]\<rparr>)"
proof -
  have reach: "runtime_reachable 4 sample_cached" by (rule honest_reachable_reachable [OF sample_cached_honest])
  have "rt_providers sample_cached = [(1, \<lparr>session_id = 1, session_state = Live\<rparr>)]"
    unfolding sample_cached_def
    by (rule record_cached_read_cases [where rt = sample_runtime and pid = "''promise-1''" and path = "''d/f''"
        and offset = 2 and bs = "[12, 13, 14, 15]"]) (simp_all add: sample_runtime_eq)
  then have "unregister_provider sample_cached (tree_provider_id sample_tree) = (fst (unregister_provider sample_cached 1), Inr ())"
    by (simp add: unregister_provider_def sample_tree_def)
  from reads_after_unregister [OF reach _ sample_cached_lookups sample_lookups(2) _ _ _ this, of 2 3] show ?thesis
    by (simp add: sample_file_def node_attr_new_def sample_cached_plan)
qed

text \<open>C34. Widening a provider request to its cache chunk keeps the promise, file and provider of
  the request, stays within the file, and contains the requested bytes at the returned response
  offset, so that a full provider response always contains them.\<close>

theorem coalesced_request_covers:
  assumes "promise rt (plan_promise_id plan) = Some t" and "tree_get t (plan_relative_path plan) = Some n"
    and "node_kind n = File"
    and "unat (plan_offset plan) + unat (plan_length plan) \<le> unat (attr_size (node_attr n))"
    and "\<And>chunk_size. cache_policy_chunk_size (rt_cache_policy rt) = Some chunk_size \<Longrightarrow>
      unat (chunk_base (plan_offset plan) chunk_size) + unat chunk_size < 2 ^ 64"
  shows "\<exists>c. plan_coalesced_provider_read rt plan = Inr c \<and>
    coalesced_response_length c = plan_length plan \<and>
    coalesced_provider c = plan\<lparr>plan_offset := plan_offset (coalesced_provider c),
                                 plan_length := plan_length (coalesced_provider c)\<rparr> \<and>
    unat (plan_offset plan) = unat (plan_offset (coalesced_provider c)) + unat (coalesced_response_offset c) \<and>
    unat (coalesced_response_offset c) + unat (plan_length plan) \<le> unat (plan_length (coalesced_provider c)) \<and>
    unat (plan_offset (coalesced_provider c)) + unat (plan_length (coalesced_provider c)) \<le> unat (attr_size (node_attr n))"
  using plan_coalesced_ok [OF assms] unfolding coalesced_ok_def by metis

definition sample_plan :: ProviderReadPlan where
  "sample_plan = request_of sample_tree sample_file 5 2"

lemma sample_plan_simps:
  "promise sample_runtime (plan_promise_id sample_plan) = Some sample_tree"
  "tree_get sample_tree (plan_relative_path sample_plan) = Some sample_file"
  "node_kind sample_file = File" "plan_offset sample_plan = 5" "plan_length sample_plan = 2"
  "attr_size (node_attr sample_file) = 10"
  using sample_lookups by (simp_all add: sample_plan_def request_of_def sample_tree_def sample_file_def node_attr_new_def)

theorem coalesced_request_covers_witness:
  "\<exists>c. plan_coalesced_provider_read sample_runtime sample_plan = Inr c \<and> coalesced_response_length c = 2"
  using coalesced_request_covers [OF sample_plan_simps(1-3)]
  by (auto simp: sample_plan_simps sample_chunk_size unat_chunk_base)



text \<open>C37. A planned read-ahead starts where the completed read ended, stays within the file and
  one chunk, is not empty, goes to a live provider for a file that is not materialised, and asks
  for bytes that are not all cached.\<close>

theorem prefetch_plan_sound:
  assumes "runtime_reachable k rt" and "k < 2 ^ 64 - 1"
    and "plan_sequential_prefetch rt promise_id path offset len = Inr (Some plan)"
  shows "\<exists>t n chunk_size. cache_policy_chunk_size (rt_cache_policy rt) = Some chunk_size \<and>
    promise rt promise_id = Some t \<and> tree_get t path = Some n \<and>
    plan = request_of t n (plan_offset plan) (plan_length plan) \<and>
    unat (plan_offset plan) = unat offset + unat len \<and> 0 < plan_length plan \<and> plan_length plan \<le> chunk_size \<and>
    unat (plan_offset plan) + unat (plan_length plan) \<le> unat (attr_size (node_attr n)) \<and>
    has_provider rt (tree_provider_id t) \<and> node_materialized_path n = None \<and>
    cache_answer rt promise_id (node_relative_path n) (plan_offset plan) (plan_length plan) = None"
  by (rule plan_sequential_prefetch_Some [OF runtime_reachable_inv [OF assms(1,2)] assms(3)]) blast

theorem prefetch_plan_sound_witness:
  "has_provider sample_runtime 1 \<and>
   plan_sequential_prefetch sample_runtime ''promise-1'' ''d/f'' 0 4 = Inr (Some (request_of sample_tree sample_file 4 4))"
proof -
  have p: "plan_sequential_prefetch sample_runtime ''promise-1'' ''d/f'' 0 4 = Inr (Some (request_of sample_tree sample_file 4 4))"
    by (simp add: plan_sequential_prefetch_def sample_chunk_size sample_lookups)
      (simp add: sample_file_def sample_tree_def node_attr_new_def has_provider_def sample_runtime_eq checked_add_def
        u32_try_from_def u64_of_u32_def cache_read_def read_cache_default_def request_of_def)
  from prefetch_plan_sound [OF sample_reachable _ p] obtain t where
    "promise sample_runtime ''promise-1'' = Some t" "has_provider sample_runtime (tree_provider_id t)" by auto
  moreover have "tree_provider_id sample_tree = 1" by (simp add: sample_tree_def)
  ultimately show ?thesis using p by (auto simp: sample_lookups)
qed

section \<open>Paths\<close>

text \<open>C40. Path normalisation accepts exactly the UTF-8 paths without NUL bytes, root or parent
  components; what it returns is a normal path, on which it is the identity.\<close>

theorem normalize_exact:
  assumes "utf8_valid s"
  shows "((\<exists>p. normalize_relative_path s = Inr p) \<longleftrightarrow>
      CHR 0x00 \<notin> set s \<and> \<not> path_is_absolute s \<and> ''..'' \<notin> set (split_on CHR ''/'' s)) \<and>
    (\<forall>p. normalize_relative_path s = Inr p \<longrightarrow> normalize_relative_path p = Inr p)"
  using normalize_relative_path_fails [OF assms] normalize_normal_path by (auto simp: normal_path_def)

theorem normalize_exact_witness: "normalize_relative_path ''./a//b/'' = Inr ''a/b'' \<and> normalize_relative_path ''a/b'' = Inr ''a/b''"
proof -
  have n: "normalize_relative_path ''./a//b/'' = Inr ''a/b''" by code_simp
  have "utf8_valid ''./a//b/''" by code_simp
  from normalize_exact [OF this] n show ?thesis by blast
qed

end
