(* ===== verification/Os_Model.thy ===== *)
theory Os_Model
  imports Paths "HOL-Library.Signed_Division"
begin

text \<open>
  What the crates above the runtime use of the operating system through \<open>std\<close> and
  \<open>rustix\<close>. I/O errors carry a kind and a payload as \<open>std::io::Error\<close> does. The calls
  themselves are code the repository only uses, so they are the fields of a record \<open>'w Os\<close>
  over an unspecified world \<open>'w\<close>: every definition that makes a call takes such a record,
  and a theorem that needs a documented fact about a call names it as a hypothesis. The rest
  of the theory models the standard library's purely computational path and byte functions
  that these crates call.
\<close>

section \<open>I/O errors\<close>

text \<open>\<open>std::io::ErrorKind\<close>: the kinds the sources name; \<open>Uncategorized\<close> stands for the
  remaining ones.\<close>

datatype ErrorKind =
    KInvalidInput
  | KInvalidData
  | KNotFound
  | KAlreadyExists
  | KPermissionDenied
  | KTimedOut
  | KInterrupted
  | KConnectionRefused
  | KConnectionReset
  | KBrokenPipe
  | KAddrNotAvailable
  | KUnexpectedEof
  | KOther
  | KUncategorized

text \<open>The payload of an error: none (an operating-system error or \<open>Error::from(kind)\<close>), a
  message, or the boxed status of the C interface (\<open>FfiStatusError\<close>).\<close>

datatype ErrorPayload = NoPayload | Message string | FfiStatusError u32

datatype io_error = IoError (err_kind: ErrorKind) (err_payload: ErrorPayload)

type_synonym 'a io_result = "io_error + 'a"

definition io_error_new :: "ErrorKind \<Rightarrow> string \<Rightarrow> io_error" where
  "io_error_new kind message = IoError kind (Message message)"

definition io_error_from :: "ErrorKind \<Rightarrow> io_error" where
  "io_error_from kind = IoError kind NoPayload"

definition io_error_other :: "string \<Rightarrow> io_error" where
  "io_error_other message = io_error_new KOther message"

lemma err_kind_new [simp]:
  "err_kind (io_error_new k m) = k" "err_kind (io_error_from k) = k" "err_kind (io_error_other m) = KOther"
  by (simp_all add: io_error_new_def io_error_from_def io_error_other_def)

section \<open>System calls\<close>

datatype FileType = FtFile | FtDir | FtSymlink | FtSocket | FtOther

record Metadata =
  md_type :: FileType
  md_uid :: u32
  md_mode :: u32
  md_dev :: u64
  md_ino :: u64

type_synonym fd = nat \<comment> \<open>an open \<open>fs::File\<close>\<close>
type_synonym listener = nat \<comment> \<open>a bound \<open>UnixListener\<close>\<close>
type_synonym conn = nat \<comment> \<open>a connected \<open>UnixStream\<close>\<close>

text \<open>A call that may change the world returns the new one with its result.\<close>

type_synonym ('w, 'a) io = "'w \<Rightarrow> 'w \<times> 'a io_result"

record 'w Os =
  os_getuid :: u32
  os_process_id :: u32
  os_runtime_dir :: "path option" \<comment> \<open>the variable \<open>XDG_RUNTIME_DIR\<close>\<close>
  os_current_dir :: "'w \<Rightarrow> path io_result"
  os_metadata :: "'w \<Rightarrow> path \<Rightarrow> Metadata io_result"
  os_symlink_metadata :: "'w \<Rightarrow> path \<Rightarrow> Metadata io_result"
  os_create_dir :: "path \<Rightarrow> u32 \<Rightarrow> ('w, unit) io"
  os_create_dir_all :: "path \<Rightarrow> ('w, unit) io"
  os_remove_file :: "path \<Rightarrow> ('w, unit) io"
  os_remove_dir :: "path \<Rightarrow> ('w, unit) io"
  os_rename :: "path \<Rightarrow> path \<Rightarrow> ('w, unit) io"
  os_set_permissions :: "path \<Rightarrow> u32 \<Rightarrow> ('w, unit) io"
  os_open :: "path \<Rightarrow> ('w, fd) io" \<comment> \<open>\<open>fs::File::open\<close>\<close>
  os_open_excl :: "path \<Rightarrow> u32 \<Rightarrow> ('w, fd) io" \<comment> \<open>\<open>WRONLY | CREATE | EXCL | NOFOLLOW\<close>\<close>
  os_file_metadata :: "'w \<Rightarrow> fd \<Rightarrow> Metadata io_result"
  os_file_set_permissions :: "fd \<Rightarrow> u32 \<Rightarrow> ('w, unit) io"
  os_file_write_all :: "fd \<Rightarrow> bytes \<Rightarrow> ('w, unit) io"
  os_file_read_at :: "'w \<Rightarrow> fd \<Rightarrow> u64 \<Rightarrow> nat \<Rightarrow> bytes io_result"
  os_futimens :: "fd \<Rightarrow> int \<Rightarrow> int \<Rightarrow> ('w, unit) io"
  os_urandom :: "nat \<Rightarrow> ('w, bytes) io" \<comment> \<open>\<open>read_exact\<close> on \<open>/dev/urandom\<close>\<close>
  os_open_urandom :: "('w, unit) io"
  os_bind :: "path \<Rightarrow> ('w, listener) io"
  os_accept :: "listener \<Rightarrow> ('w, conn) io"
  os_connect :: "path \<Rightarrow> ('w, conn) io"
  os_shutdown :: "conn \<Rightarrow> ('w, unit) io"
  os_spawn_thread :: "('w, unit) io"
  os_try_clone :: "conn \<Rightarrow> ('w, conn) io"
  os_peer_uid :: "'w \<Rightarrow> conn \<Rightarrow> u32 io_result"
  os_read :: "conn \<Rightarrow> nat \<Rightarrow> ('w, bytes) io"
  os_read_exact :: "conn \<Rightarrow> nat \<Rightarrow> ('w, bytes) io"
  os_write_all :: "conn \<Rightarrow> bytes \<Rightarrow> ('w, unit) io"
  os_flush :: "conn \<Rightarrow> ('w, unit) io"

text \<open>\<open>io_bind\<close> is the \<open>?\<close> operator of a function that makes calls, \<open>io_return\<close> and
  \<open>io_fail\<close> its two ways to return. A function whose errors are not \<open>io::Error\<close> uses the
  same operators at its own error type.\<close>

definition io_bind :: "('w \<Rightarrow> 'w \<times> ('e + 'a)) \<Rightarrow> ('a \<Rightarrow> 'w \<Rightarrow> 'w \<times> ('e + 'b)) \<Rightarrow> 'w \<Rightarrow> 'w \<times> ('e + 'b)" where
  "io_bind m f w = (case m w of (w', Inl e) \<Rightarrow> (w', Inl e) | (w', Inr x) \<Rightarrow> f x w')"

definition io_return :: "'a \<Rightarrow> 'w \<Rightarrow> 'w \<times> ('e + 'a)" where
  "io_return x w = (w, Inr x)"

definition io_fail :: "'e \<Rightarrow> 'w \<Rightarrow> 'w \<times> ('e + 'a)" where
  "io_fail e w = (w, Inl e)"

definition io_lift :: "('e + 'a) \<Rightarrow> 'w \<Rightarrow> 'w \<times> ('e + 'a)" where
  "io_lift r w = (w, r)"

definition io_map_err :: "('e \<Rightarrow> 'f) \<Rightarrow> ('w \<Rightarrow> 'w \<times> ('e + 'a)) \<Rightarrow> 'w \<Rightarrow> 'w \<times> ('f + 'a)" where
  "io_map_err f m w = (case m w of (w', r) \<Rightarrow> (w', map_err f r))"

lemma io_return_apply [simp]: "io_return x w = (w, Inr x)"
  by (simp add: io_return_def)

lemma io_fail_apply [simp]: "io_fail e w = (w, Inl e)"
  by (simp add: io_fail_def)

lemma io_lift_apply [simp]: "io_lift r w = (w, r)"
  by (simp add: io_lift_def)

lemma io_bind_Inr [outcome_simps]:
  "io_bind m f w = (w'', Inr y) \<longleftrightarrow> (\<exists>w' x. m w = (w', Inr x) \<and> f x w' = (w'', Inr y))"
  by (auto simp: io_bind_def split: prod.splits sum.splits)

lemma io_bind_Inl [outcome_simps]:
  "io_bind m f w = (w'', Inl e) \<longleftrightarrow>
     m w = (w'', Inl e) \<or> (\<exists>w' x. m w = (w', Inr x) \<and> f x w' = (w'', Inl e))"
  by (auto simp: io_bind_def split: prod.splits sum.splits)

lemma io_map_err_Inr [outcome_simps]: "io_map_err f m w = (w', Inr x) \<longleftrightarrow> m w = (w', Inr x)"
  by (auto simp: io_map_err_def outcome_simps split: prod.splits)

lemma io_map_err_Inl [outcome_simps]:
  "io_map_err f m w = (w', Inl e) \<longleftrightarrow> (\<exists>e'. m w = (w', Inl e') \<and> e = f e')"
  by (auto simp: io_map_err_def outcome_simps split: prod.splits)

section \<open>Bytes\<close>

text \<open>\<open>from_le_bytes\<close> and \<open>to_le_bytes\<close>; the targets of the crates are little-endian, so
  \<open>from_ne_bytes\<close> is the same function.\<close>

fun le_value :: "bytes \<Rightarrow> nat" where
  "le_value [] = 0"
| "le_value (b # bs) = unat b + 256 * le_value bs"

fun le_bytes :: "nat \<Rightarrow> nat \<Rightarrow> bytes" where
  "le_bytes 0 v = []"
| "le_bytes (Suc k) v = of_nat (v mod 256) # le_bytes k (v div 256)"

lemma length_le_bytes [simp]: "length (le_bytes k v) = k"
  by (induction k arbitrary: v) auto

lemma le_value_le_bytes: "le_value (le_bytes k v) = v mod 256 ^ k"
proof (induction k arbitrary: v)
  case (Suc k)
  have "unat (of_nat (v mod 256) :: u8) = v mod 256"
    by (simp add: unat_of_nat)
  then show ?case
    by (simp add: Suc.IH mod_mult2_eq)
qed simp

lemma le_value_bound: "le_value bs < 256 ^ length bs"
proof (induction bs)
  case (Cons b bs)
  have "unat b < 256" using unsigned_less [of b] by simp
  with Cons show ?case by simp
qed simp

section \<open>Lossy conversion to text\<close>

text \<open>\<open>to_string_lossy\<close>: well-formed sequences are kept, a maximal ill-formed prefix becomes
  U+FFFD. \<open>utf8_front\<close> gives the length of the front sequence and whether it is well formed.\<close>

definition utf8_front :: "nat list \<Rightarrow> bool \<times> nat" where
  "utf8_front xs =
     (case xs of
        [] \<Rightarrow> (True, 0)
      | a # rest \<Rightarrow>
          (let n = utf8_char_width a; good = takeWhile utf8_cont (take (n - 1) rest) in
           if n = 0 then (False, 1)
           else if n = 1 then (True, 1)
           else if good = [] \<or> \<not> utf8_second_ok a (hd good) then (False, 1)
           else if length good = n - 1 then (True, n)
           else (False, Suc (length good))))"

definition replacement_character :: string where
  "replacement_character = [CHR 0xEF, CHR 0xBF, CHR 0xBD]"

lemma utf8_front_pos: "xs \<noteq> [] \<Longrightarrow> 0 < snd (utf8_front xs)"
  by (auto simp: utf8_front_def Let_def utf8_char_width_def split: list.splits)

function to_string_lossy :: "string \<Rightarrow> string" where
  "to_string_lossy s =
     (if s = [] then []
      else (if fst (utf8_front (map of_char s)) then take (snd (utf8_front (map of_char s))) s
            else replacement_character)
           @ to_string_lossy (drop (snd (utf8_front (map of_char s))) s))"
  by auto
termination
proof (relation "measure length")
  fix s :: string
  assume "s \<noteq> []"
  moreover from this have "0 < snd (utf8_front (map of_char s))"
    by (intro utf8_front_pos) simp
  ultimately show "(drop (snd (utf8_front (map of_char s))) s, s) \<in> measure length"
    by (cases s) auto
qed simp

declare to_string_lossy.simps [simp del]

lemma utf8_front_valid:
  assumes "utf8_bytes (a # rest)"
  shows "utf8_front (a # rest) = (True, utf8_char_width a)"
    and "utf8_bytes (drop (utf8_char_width a) (a # rest))"
proof -
  let ?n = "utf8_char_width a"
  from assms have n: "?n \<noteq> 0" "?n - 1 \<le> length rest" "list_all utf8_cont (take (?n - 1) rest)"
    "?n - 1 \<noteq> 0 \<longrightarrow> utf8_second_ok a (hd rest)" "utf8_bytes (drop (?n - 1) rest)"
    by (simp_all add: Let_def utf8_bytes.simps)
  from n(3) have good: "takeWhile utf8_cont (take (?n - 1) rest) = take (?n - 1) rest"
    by (simp add: list_all_iff)
  show "utf8_front (a # rest) = (True, ?n)"
  proof (cases "?n = 1")
    case False
    with n have "take (?n - 1) rest \<noteq> []" "hd (take (?n - 1) rest) = hd rest"
      by (cases rest; cases "?n - 1"; simp)+
    with n False show ?thesis
      unfolding utf8_front_def good list.case Let_def by simp
  qed (simp add: utf8_front_def)
  show "utf8_bytes (drop ?n (a # rest))"
    using n by (cases ?n) auto
qed

lemma to_string_lossy_valid: "utf8_valid s \<Longrightarrow> to_string_lossy s = s"
proof (induction s rule: to_string_lossy.induct)
  case (1 s)
  show ?case
  proof (cases s)
    case (Cons c rest)
    let ?f = "utf8_front (map of_char s)"
    from "1.prems" Cons have v: "utf8_bytes (of_char c # map of_char rest)" by (simp add: utf8_valid_def)
    from utf8_front_valid [OF v] Cons
    have "fst ?f" and "utf8_valid (drop (snd ?f) s)"
      by (simp_all add: utf8_valid_def drop_map [symmetric])
    with "1.IH" Cons show ?thesis
      by (subst to_string_lossy.simps) simp
  qed (simp add: to_string_lossy.simps)
qed

section \<open>Path names\<close>

text \<open>\<open>Path::file_name\<close>, \<open>extension\<close> and \<open>file_stem\<close>; the last two split the file name
  at its last dot unless that dot is its first character.\<close>

definition path_file_name :: "path \<Rightarrow> string option" where
  "path_file_name p =
     (case rev (path_components p) of Normal s # _ \<Rightarrow> Some s | _ \<Rightarrow> None)"

definition split_at_dot :: "string \<Rightarrow> string option \<times> string option" where
  "split_at_dot name =
     (case rsplit_once CHR ''.'' name of
        None \<Rightarrow> (None, Some name)
      | Some (before, after) \<Rightarrow> if before = [] then (Some name, None) else (Some before, Some after))"

definition path_extension :: "path \<Rightarrow> string option" where
  "path_extension p =
     (case path_file_name p of
        None \<Rightarrow> None
      | Some name \<Rightarrow> (case split_at_dot name of (Some _, after) \<Rightarrow> after | (None, _) \<Rightarrow> None))"

definition path_file_stem :: "path \<Rightarrow> string option" where
  "path_file_stem p =
     (case path_file_name p of
        None \<Rightarrow> None
      | Some name \<Rightarrow> (case split_at_dot name of (Some before, _) \<Rightarrow> Some before | (None, after) \<Rightarrow> after))"

text \<open>\<open>Path::parent\<close>: the text before the last component, without the separators and \<open>.\<close>
  segments that end it. The first segment of a relative path is a component even if it is
  \<open>.\<close>, so it is only dropped as the last component.\<close>

definition rtrim_segments :: "string list \<Rightarrow> string list" where
  "rtrim_segments segs = rev (dropWhile (\<lambda>s. s = [] \<or> s = ''.'') (rev segs))"

definition rtrim_relative :: "string list \<Rightarrow> string list" where
  "rtrim_relative segs =
     (case segs of [] \<Rightarrow> []
      | s # rest \<Rightarrow> if s = [] \<and> rtrim_segments rest = [] then [] else s # rtrim_segments rest)"

definition path_parent :: "path \<Rightarrow> path option" where
  "path_parent p =
     (if path_is_absolute p then
        (let body = rtrim_segments (tl (split_on CHR ''/'' p)) in
         if body = [] then None
         else Some (CHR ''/'' # join_slash (rtrim_segments (butlast body))))
      else
        (let body = rtrim_relative (split_on CHR ''/'' p) in
         if body = [] then None else Some (join_slash (rtrim_relative (butlast body)))))"

end
