(* ===== verification/Runtime_Dirs.thy ===== *)
theory Runtime_Dirs
  imports Os_Model
begin

text \<open>
  The runtime directory of \<open>crates/fuse-promise-runtime/src/lib.rs\<close>: where the mount point
  and the control socket live, and the checks that keep both private to the user. The lemmas
  characterise the accepted directories and show that the two default paths are siblings in a
  directory that passed the check.
\<close>

text \<open>Everything outside the low nine permission bits is ignored by the mask \<open>0o077\<close>.\<close>

definition group_other_bits :: u32 where "group_other_bits = 63"

definition validate_private_dir :: "'w Os \<Rightarrow> Metadata \<Rightarrow> unit result" where
  "validate_private_dir os metadata =
     res_bind (fail_if (md_type metadata \<noteq> FtDir) Status.InvalidArgument) (\<lambda>_.
     res_bind (fail_if (md_uid metadata \<noteq> os_getuid os) Status.Permission) (\<lambda>_.
     res_bind (fail_if (md_mode metadata AND group_other_bits \<noteq> 0) Status.Permission) (\<lambda>_.
     Inr ())))"

definition validate_runtime_dir_path :: "'w Os \<Rightarrow> 'w \<Rightarrow> path \<Rightarrow> unit result" where
  "validate_runtime_dir_path os w runtime_dir =
     res_bind (fail_if (\<not> path_is_absolute runtime_dir) Status.InvalidArgument) (\<lambda>_.
     res_bind (map_err (\<lambda>_. Status.Unavailable) (os_metadata os w runtime_dir)) (\<lambda>metadata.
     validate_private_dir os metadata))"

definition default_mount_path :: "'w Os \<Rightarrow> 'w \<Rightarrow> path result" where
  "default_mount_path os w =
     (case os_runtime_dir os of
        None \<Rightarrow> Inl Status.Unavailable
      | Some runtime_dir \<Rightarrow>
          res_bind (validate_runtime_dir_path os w runtime_dir) (\<lambda>_.
          Inr (path_join runtime_dir ''fuse-promise'')))"

definition default_control_socket_path :: "'w Os \<Rightarrow> 'w \<Rightarrow> path result" where
  "default_control_socket_path os w =
     (case os_runtime_dir os of
        None \<Rightarrow> Inl Status.Unavailable
      | Some runtime_dir \<Rightarrow>
          res_bind (validate_runtime_dir_path os w runtime_dir) (\<lambda>_.
          Inr (path_join runtime_dir ''fuse-promise.sock'')))"

definition validate_mount_dir_path :: "'w Os \<Rightarrow> 'w \<Rightarrow> path \<Rightarrow> unit result" where
  "validate_mount_dir_path os w mount_path =
     res_bind (fail_if (\<not> path_is_absolute mount_path) Status.InvalidArgument) (\<lambda>_.
     res_bind (map_err (\<lambda>_. Status.Unavailable) (os_symlink_metadata os w mount_path)) (\<lambda>metadata.
     validate_private_dir os metadata))"

definition create_error_status :: "io_error \<Rightarrow> Status" where
  "create_error_status error =
     (case err_kind error of
        KPermissionDenied \<Rightarrow> Status.Permission
      | KAlreadyExists \<Rightarrow> Status.AlreadyExists
      | _ \<Rightarrow> Status.Io)"

definition prepare_mount_dir :: "'w Os \<Rightarrow> path \<Rightarrow> 'w \<Rightarrow> 'w \<times> unit result" where
  "prepare_mount_dir os mount_path w =
     (if \<not> path_is_absolute mount_path then (w, Inl Status.InvalidArgument)
      else case os_symlink_metadata os w mount_path of
          Inr _ \<Rightarrow> (w, validate_mount_dir_path os w mount_path)
        | Inl error \<Rightarrow>
            (case err_kind error of
               KNotFound \<Rightarrow>
                 io_bind (io_map_err create_error_status (os_create_dir os mount_path 448)) (\<lambda>_ w'.
                 (w', validate_mount_dir_path os w' mount_path)) w
             | KPermissionDenied \<Rightarrow> (w, Inl Status.Permission)
             | _ \<Rightarrow> (w, Inl Status.Unavailable)))"

section \<open>What the checks accept\<close>

definition private_dir :: "'w Os \<Rightarrow> Metadata \<Rightarrow> bool" where
  "private_dir os md \<longleftrightarrow>
     md_type md = FtDir \<and> md_uid md = os_getuid os \<and> (\<forall>i < 6. \<not> bit (md_mode md) i)"

lemma group_other_bits_iff: "m AND group_other_bits = 0 \<longleftrightarrow> (\<forall>i < 6. \<not> bit (m :: u32) i)"
proof -
  have mask: "group_other_bits = mask 6" by (simp add: group_other_bits_def mask_eq_exp_minus_1)
  have "i < 6 \<Longrightarrow> i < 32" for i :: nat by simp
  then have "(\<forall>n<32. bit m n \<longrightarrow> \<not> n < 6) \<longleftrightarrow> (\<forall>i<6. \<not> bit m i)" by blast
  then show ?thesis
    unfolding mask bit_eq_iff bit_and_iff bit_mask_iff by simp
qed

lemma validate_private_dir_Inr: "validate_private_dir os md = Inr u \<longleftrightarrow> private_dir os md"
  by (auto simp: validate_private_dir_def private_dir_def outcome_simps group_other_bits_iff)

lemma validate_runtime_dir_path_Inr:
  "validate_runtime_dir_path os w p = Inr u \<longleftrightarrow>
     path_is_absolute p \<and> (\<exists>md. os_metadata os w p = Inr md \<and> private_dir os md)"
  by (auto simp: validate_runtime_dir_path_def outcome_simps validate_private_dir_Inr)

lemma validate_mount_dir_path_Inr:
  "validate_mount_dir_path os w p = Inr u \<longleftrightarrow>
     path_is_absolute p \<and> (\<exists>md. os_symlink_metadata os w p = Inr md \<and> private_dir os md)"
  by (auto simp: validate_mount_dir_path_def outcome_simps validate_private_dir_Inr)

lemma prepare_mount_dir_Inr:
  assumes "prepare_mount_dir os p w = (w', Inr u)"
  shows "path_is_absolute p" and "\<exists>md. os_symlink_metadata os w' p = Inr md \<and> private_dir os md"
    and "w' = w \<or> (\<exists>e. os_symlink_metadata os w p = Inl e \<and> err_kind e = KNotFound \<and>
           os_create_dir os p 448 w = (w', Inr ()))"
  using assms
  by (auto simp: prepare_mount_dir_def outcome_simps validate_mount_dir_path_Inr
      split: if_splits sum.splits ErrorKind.splits)

lemma default_paths_agree:
  assumes "default_mount_path os w = Inr m"
  obtains dir where "os_runtime_dir os = Some dir" "m = path_join dir ''fuse-promise''"
    "default_control_socket_path os w = Inr (path_join dir ''fuse-promise.sock'')"
    "path_is_absolute dir" "\<exists>md. os_metadata os w dir = Inr md \<and> private_dir os md"
  using assms
  by (auto simp: default_mount_path_def default_control_socket_path_def outcome_simps
      validate_runtime_dir_path_Inr split: option.splits)

end
