(* ===== verification/Ipc_Messages.thy ===== *)
theory Ipc_Messages
  imports Read_Planning Runtime_Dirs
begin

text \<open>
  The messages of \<open>crates/fuse-promise-ipc/src/lib.rs\<close>: requests, responses and their bodies,
  the client-side types with their conversions to and from the bodies, the validation of
  provider reads, the error mappings, and the status and inspection texts. A \<open>String\<close> is a
  byte string that is valid UTF-8, so a path becomes one through \<open>to_string_lossy\<close>.
\<close>

definition IPC_PROTOCOL_VERSION :: u32 where "IPC_PROTOCOL_VERSION = 1"
definition MAX_FRAME_LEN :: u32 where "MAX_FRAME_LEN = 1024 * 1024"
definition MAX_PROVIDER_READ_LEN :: u32 where "MAX_PROVIDER_READ_LEN = 256 * 1024"

section \<open>Errors\<close>

datatype ErrorCode =
    InvalidRequest
  | VersionMismatch
  | Unavailable
  | NotFound
  | AlreadyExists
  | ProviderGone
  | Permission
  | Cancelled
  | Internal

record ErrorBody =
  error_code :: ErrorCode
  error_message :: string

definition invalid_data :: "string \<Rightarrow> io_error" where
  "invalid_data message = io_error_new KInvalidData message"

definition status_to_io :: "Status \<Rightarrow> io_error" where
  "status_to_io status = io_error_other (status_as_str status)"

fun error_code_to_io_kind :: "ErrorCode \<Rightarrow> ErrorKind" where
  "error_code_to_io_kind ErrorCode.InvalidRequest = KInvalidData"
| "error_code_to_io_kind ErrorCode.VersionMismatch = KInvalidData"
| "error_code_to_io_kind ErrorCode.Unavailable = KNotFound"
| "error_code_to_io_kind ErrorCode.NotFound = KNotFound"
| "error_code_to_io_kind ErrorCode.ProviderGone = KBrokenPipe"
| "error_code_to_io_kind ErrorCode.AlreadyExists = KAlreadyExists"
| "error_code_to_io_kind ErrorCode.Permission = KPermissionDenied"
| "error_code_to_io_kind ErrorCode.Cancelled = KInterrupted"
| "error_code_to_io_kind ErrorCode.Internal = KOther"

fun status_to_error_code :: "Status \<Rightarrow> ErrorCode" where
  "status_to_error_code Status.InvalidArgument = ErrorCode.InvalidRequest"
| "status_to_error_code Status.Unavailable = ErrorCode.Unavailable"
| "status_to_error_code Status.Permission = ErrorCode.Permission"
| "status_to_error_code Status.NotFound = ErrorCode.NotFound"
| "status_to_error_code Status.AlreadyExists = ErrorCode.AlreadyExists"
| "status_to_error_code Status.ProviderGone = ErrorCode.ProviderGone"
| "status_to_error_code Status.Cancelled = ErrorCode.Cancelled"
| "status_to_error_code Status.VersionMismatch = ErrorCode.VersionMismatch"
| "status_to_error_code _ = ErrorCode.Internal"

definition io_error_to_status :: "io_error \<Rightarrow> Status" where
  "io_error_to_status error =
     (case err_kind error of
        KInvalidInput \<Rightarrow> Status.InvalidArgument
      | KInvalidData \<Rightarrow> Status.InvalidArgument
      | KNotFound \<Rightarrow> Status.NotFound
      | KAlreadyExists \<Rightarrow> Status.AlreadyExists
      | KPermissionDenied \<Rightarrow> Status.Permission
      | KTimedOut \<Rightarrow> Status.Timeout
      | KInterrupted \<Rightarrow> Status.Cancelled
      | KConnectionRefused \<Rightarrow> Status.ProviderGone
      | KConnectionReset \<Rightarrow> Status.ProviderGone
      | KBrokenPipe \<Rightarrow> Status.ProviderGone
      | _ \<Rightarrow> Status.Io)"

definition error_to_io :: "ErrorBody \<Rightarrow> io_error" where
  "error_to_io error = io_error_new (error_code_to_io_kind (error_code error)) (error_message error)"

section \<open>Provider reads\<close>

datatype ProviderReadStatus =
    Ok | InvalidArgument | Permission | NotFound | ProviderGone | Io | Timeout | Cancelled

datatype ProviderReadStatusBody =
    Ok | InvalidArgument | Permission | NotFound | ProviderGone | Io | Timeout | Cancelled

fun read_status_into_body :: "ProviderReadStatus \<Rightarrow> ProviderReadStatusBody" where
  "read_status_into_body ProviderReadStatus.Ok = ProviderReadStatusBody.Ok"
| "read_status_into_body ProviderReadStatus.InvalidArgument = ProviderReadStatusBody.InvalidArgument"
| "read_status_into_body ProviderReadStatus.Permission = ProviderReadStatusBody.Permission"
| "read_status_into_body ProviderReadStatus.NotFound = ProviderReadStatusBody.NotFound"
| "read_status_into_body ProviderReadStatus.ProviderGone = ProviderReadStatusBody.ProviderGone"
| "read_status_into_body ProviderReadStatus.Io = ProviderReadStatusBody.Io"
| "read_status_into_body ProviderReadStatus.Timeout = ProviderReadStatusBody.Timeout"
| "read_status_into_body ProviderReadStatus.Cancelled = ProviderReadStatusBody.Cancelled"

fun read_status_from_body :: "ProviderReadStatusBody \<Rightarrow> ProviderReadStatus" where
  "read_status_from_body ProviderReadStatusBody.Ok = ProviderReadStatus.Ok"
| "read_status_from_body ProviderReadStatusBody.InvalidArgument = ProviderReadStatus.InvalidArgument"
| "read_status_from_body ProviderReadStatusBody.Permission = ProviderReadStatus.Permission"
| "read_status_from_body ProviderReadStatusBody.NotFound = ProviderReadStatus.NotFound"
| "read_status_from_body ProviderReadStatusBody.ProviderGone = ProviderReadStatus.ProviderGone"
| "read_status_from_body ProviderReadStatusBody.Io = ProviderReadStatus.Io"
| "read_status_from_body ProviderReadStatusBody.Timeout = ProviderReadStatus.Timeout"
| "read_status_from_body ProviderReadStatusBody.Cancelled = ProviderReadStatus.Cancelled"

fun provider_read_status_to_status :: "ProviderReadStatus \<Rightarrow> Status" where
  "provider_read_status_to_status ProviderReadStatus.Ok = Status.Ok"
| "provider_read_status_to_status ProviderReadStatus.InvalidArgument = Status.InvalidArgument"
| "provider_read_status_to_status ProviderReadStatus.Permission = Status.Permission"
| "provider_read_status_to_status ProviderReadStatus.NotFound = Status.NotFound"
| "provider_read_status_to_status ProviderReadStatus.ProviderGone = Status.ProviderGone"
| "provider_read_status_to_status ProviderReadStatus.Io = Status.Io"
| "provider_read_status_to_status ProviderReadStatus.Timeout = Status.Timeout"
| "provider_read_status_to_status ProviderReadStatus.Cancelled = Status.Cancelled"

record ProviderReadRequest =
  rr_request_id :: u64
  rr_provider_id :: u64
  rr_promise_id :: string
  rr_relative_path :: string
  rr_provider_node_id :: string
  rr_offset :: u64
  rr_length :: u32

record ProviderReadResponse =
  rs_request_id :: u64
  rs_status :: ProviderReadStatus
  rs_bytes :: bytes

record ProviderReadRequestBody =
  rrb_request_id :: u64
  rrb_provider_id :: u64
  rrb_promise_id :: string
  rrb_relative_path :: string
  rrb_provider_node_id :: string
  rrb_offset :: u64
  rrb_length :: u32

record ProviderReadResponseBody =
  rsb_request_id :: u64
  rsb_status :: ProviderReadStatusBody
  rsb_bytes :: bytes

definition validate_nonzero :: "string \<Rightarrow> u64 \<Rightarrow> unit io_result" where
  "validate_nonzero name v = fail_if (v = 0) (invalid_data (name @ '' must be nonzero''))"

definition validate_provider_id :: "u64 \<Rightarrow> unit io_result" where
  "validate_provider_id provider_id =
     (if provider_id_from_raw provider_id \<noteq> None then Inr ()
      else Inl (invalid_data ''provider id must be nonzero''))"

definition validate_token :: "string \<Rightarrow> string \<Rightarrow> unit io_result" where
  "validate_token name v =
     res_bind (fail_if (v = []) (invalid_data (name @ '' must not be empty''))) (\<lambda>_.
     res_bind (fail_if (CHR 0x00 \<in> set v) (invalid_data (name @ '' must not contain NUL''))) (\<lambda>_.
     Inr ()))"

definition validate_relative_path :: "string \<Rightarrow> string io_result" where
  "validate_relative_path p =
     map_err (\<lambda>status. invalid_data (status_as_str status)) (normalize_relative_path p)"

definition validate_read_range :: "u64 \<Rightarrow> u32 \<Rightarrow> unit io_result" where
  "validate_read_range offset len =
     res_bind (fail_if (len = 0) (invalid_data ''provider read length must be nonzero'')) (\<lambda>_.
     res_bind (fail_if (len > MAX_PROVIDER_READ_LEN) (invalid_data ''provider read length exceeds maximum'')) (\<lambda>_.
     res_bind (fail_if (checked_add offset (u64_of_u32 len) = None) (invalid_data ''provider read range overflows'')) (\<lambda>_.
     Inr ())))"

definition read_request_into_body :: "ProviderReadRequest \<Rightarrow> ProviderReadRequestBody io_result" where
  "read_request_into_body r =
     res_bind (validate_relative_path (rr_relative_path r)) (\<lambda>normalized_path.
     res_bind (validate_nonzero ''provider read request id'' (rr_request_id r)) (\<lambda>_.
     res_bind (validate_provider_id (rr_provider_id r)) (\<lambda>_.
     res_bind (validate_token ''promise id'' (rr_promise_id r)) (\<lambda>_.
     res_bind (validate_token ''provider node id'' (rr_provider_node_id r)) (\<lambda>_.
     res_bind (validate_read_range (rr_offset r) (rr_length r)) (\<lambda>_.
     Inr \<lparr>rrb_request_id = rr_request_id r, rrb_provider_id = rr_provider_id r,
          rrb_promise_id = rr_promise_id r, rrb_relative_path = normalized_path,
          rrb_provider_node_id = rr_provider_node_id r, rrb_offset = rr_offset r,
          rrb_length = rr_length r\<rparr>))))))"

definition read_request_of_body :: "ProviderReadRequestBody \<Rightarrow> ProviderReadRequest" where
  "read_request_of_body b =
     \<lparr>rr_request_id = rrb_request_id b, rr_provider_id = rrb_provider_id b,
      rr_promise_id = rrb_promise_id b, rr_relative_path = rrb_relative_path b,
      rr_provider_node_id = rrb_provider_node_id b, rr_offset = rrb_offset b, rr_length = rrb_length b\<rparr>"

definition read_request_validated :: "ProviderReadRequest \<Rightarrow> ProviderReadRequest io_result" where
  "read_request_validated r = map_ok read_request_of_body (read_request_into_body r)"

definition read_request_from_body :: "ProviderReadRequestBody \<Rightarrow> ProviderReadRequest io_result" where
  "read_request_from_body b = read_request_validated (read_request_of_body b)"

definition read_response_validate :: "ProviderReadResponse \<Rightarrow> unit io_result" where
  "read_response_validate r =
     res_bind (validate_nonzero ''provider read response id'' (rs_request_id r)) (\<lambda>_.
     res_bind (fail_if (length (rs_bytes r) > unat MAX_PROVIDER_READ_LEN)
       (invalid_data ''provider read response exceeds maximum read length'')) (\<lambda>_.
     res_bind (fail_if (rs_status r \<noteq> ProviderReadStatus.Ok \<and> rs_bytes r \<noteq> [])
       (invalid_data ''provider read error response must not include bytes'')) (\<lambda>_.
     Inr ())))"

definition read_response_into_body :: "ProviderReadResponse \<Rightarrow> ProviderReadResponseBody io_result" where
  "read_response_into_body r =
     res_bind (read_response_validate r) (\<lambda>_.
     Inr \<lparr>rsb_request_id = rs_request_id r, rsb_status = read_status_into_body (rs_status r),
          rsb_bytes = rs_bytes r\<rparr>)"

definition read_response_validated :: "ProviderReadResponse \<Rightarrow> ProviderReadResponse io_result" where
  "read_response_validated r = res_bind (read_response_validate r) (\<lambda>_. Inr r)"

definition read_response_from_body :: "ProviderReadResponseBody \<Rightarrow> ProviderReadResponse io_result" where
  "read_response_from_body b =
     read_response_validated
       \<lparr>rs_request_id = rsb_request_id b, rs_status = read_status_from_body (rsb_status b),
        rs_bytes = rsb_bytes b\<rparr>"

definition validate_provider_read_response_for_request ::
    "ProviderReadRequest \<Rightarrow> ProviderReadResponse \<Rightarrow> unit io_result" where
  "validate_provider_read_response_for_request request response =
     res_bind (fail_if (rs_request_id response \<noteq> rr_request_id request)
       (invalid_data ''provider read response id mismatch'')) (\<lambda>_.
     res_bind (fail_if (rs_status response = ProviderReadStatus.Ok \<and>
         length (rs_bytes response) > unat (rr_length request))
       (invalid_data ''provider read response exceeds requested length'')) (\<lambda>_.
     read_response_validate response))"

section \<open>Commit requests\<close>

datatype PromiseNodeKind = File | Directory

datatype PromiseNodeKindBody = File | Directory

record PromiseNodeAttr =
  pna_mode :: u32
  pna_size :: u64
  pna_mtime_nsec :: i64

record PromiseNodeSpec =
  spec_kind :: PromiseNodeKind
  spec_relative_path :: string
  spec_provider_node_id :: string
  spec_attr :: PromiseNodeAttr

record PromiseCommitRequest =
  cr_provider_id :: u64
  cr_provider_owner_token :: u128
  cr_nodes :: "PromiseNodeSpec list"

record PromiseNodeBody =
  nb_kind :: PromiseNodeKindBody
  nb_relative_path :: string
  nb_provider_node_id :: string
  nb_mode :: u32
  nb_size :: u64
  nb_mtime_nsec :: i64

record PromiseCommitBody =
  cb_provider_id :: u64
  cb_provider_owner_token :: u128
  cb_nodes :: "PromiseNodeBody list"

record PromiseCommittedBody =
  committed_promise_id :: string
  committed_visible_path :: string

record PromiseCommitResponse =
  commit_promise_id :: string
  commit_visible_path :: path

definition node_spec :: "PromiseNode \<Rightarrow> PromiseNodeSpec" where
  "node_spec node =
     \<lparr>spec_kind = (case node_kind node of
        NodeKind.File \<Rightarrow> PromiseNodeKind.File | NodeKind.Directory \<Rightarrow> PromiseNodeKind.Directory),
      spec_relative_path = node_relative_path node,
      spec_provider_node_id = node_provider_node_id node,
      spec_attr = \<lparr>pna_mode = attr_mode (node_attr node), pna_size = attr_size (node_attr node),
        pna_mtime_nsec = attr_mtime_nsec (node_attr node)\<rparr>\<rparr>"

definition from_builder_with_owner_token :: "PromiseBuilder \<Rightarrow> u128 \<Rightarrow> PromiseCommitRequest" where
  "from_builder_with_owner_token builder provider_owner_token =
     \<lparr>cr_provider_id = builder_provider_id builder,
      cr_provider_owner_token = provider_owner_token,
      cr_nodes = map node_spec
        (filter (\<lambda>node. node_relative_path node \<noteq> []) (bt_values (builder_nodes builder)))\<rparr>"

definition node_spec_into_body :: "PromiseNodeSpec \<Rightarrow> PromiseNodeBody" where
  "node_spec_into_body spec =
     \<lparr>nb_kind = (case spec_kind spec of
        PromiseNodeKind.File \<Rightarrow> PromiseNodeKindBody.File
      | PromiseNodeKind.Directory \<Rightarrow> PromiseNodeKindBody.Directory),
      nb_relative_path = spec_relative_path spec, nb_provider_node_id = spec_provider_node_id spec,
      nb_mode = pna_mode (spec_attr spec), nb_size = pna_size (spec_attr spec),
      nb_mtime_nsec = pna_mtime_nsec (spec_attr spec)\<rparr>"

definition commit_request_into_body :: "PromiseCommitRequest \<Rightarrow> PromiseCommitBody" where
  "commit_request_into_body r =
     \<lparr>cb_provider_id = cr_provider_id r, cb_provider_owner_token = cr_provider_owner_token r,
      cb_nodes = map node_spec_into_body (cr_nodes r)\<rparr>"

section \<open>Materialize requests\<close>

datatype MaterializeConflictPolicy = Fail | Overwrite | Rename

datatype MaterializeConflictPolicyBody = Fail | Overwrite | Rename

fun conflict_policy_into_body :: "MaterializeConflictPolicy \<Rightarrow> MaterializeConflictPolicyBody" where
  "conflict_policy_into_body MaterializeConflictPolicy.Fail = MaterializeConflictPolicyBody.Fail"
| "conflict_policy_into_body MaterializeConflictPolicy.Overwrite = MaterializeConflictPolicyBody.Overwrite"
| "conflict_policy_into_body MaterializeConflictPolicy.Rename = MaterializeConflictPolicyBody.Rename"

fun conflict_policy_from_body :: "MaterializeConflictPolicyBody \<Rightarrow> MaterializeConflictPolicy" where
  "conflict_policy_from_body MaterializeConflictPolicyBody.Fail = MaterializeConflictPolicy.Fail"
| "conflict_policy_from_body MaterializeConflictPolicyBody.Overwrite = MaterializeConflictPolicy.Overwrite"
| "conflict_policy_from_body MaterializeConflictPolicyBody.Rename = MaterializeConflictPolicy.Rename"

record MaterializeRequest =
  mreq_source_path :: path
  mreq_target_dir :: path
  mreq_conflict_policy :: MaterializeConflictPolicy

record MaterializeBody =
  mb_source_path :: string
  mb_target_dir :: string
  mb_conflict_policy :: MaterializeConflictPolicyBody

text \<open>The eight counters that the progress, success and failure messages share.\<close>

record MaterializeCounts =
  mc_entries_done :: u64
  mc_entries_total :: u64
  mc_bytes_written :: u64
  mc_bytes_total :: u64
  mc_files_written :: u64
  mc_files_total :: u64
  mc_directories_created :: u64
  mc_directories_total :: u64

record MaterializedBody =
  md_target_path :: string
  md_counts :: MaterializeCounts

record MaterializeProgressBody =
  mp_target_path :: string
  mp_counts :: MaterializeCounts

record MaterializeFailedBody =
  mf_code :: ErrorCode
  mf_message :: string
  mf_target_path :: string
  mf_counts :: MaterializeCounts

record MaterializeResponse =
  mres_target_path :: path
  mres_counts :: MaterializeCounts

record MaterializeProgressReport =
  mrep_target_path :: path
  mrep_counts :: MaterializeCounts

definition validate_materialize_path :: "string \<Rightarrow> path \<Rightarrow> unit io_result" where
  "validate_materialize_path name p =
     res_bind (fail_if (p = []) (invalid_data (name @ '' must not be empty''))) (\<lambda>_.
     res_bind (fail_if (\<not> utf8_valid p) (invalid_data (name @ '' must be UTF-8''))) (\<lambda>_.
     Inr ()))"

definition materialize_request_into_body :: "MaterializeRequest \<Rightarrow> MaterializeBody io_result" where
  "materialize_request_into_body r =
     res_bind (validate_materialize_path ''source path'' (mreq_source_path r)) (\<lambda>_.
     res_bind (validate_materialize_path ''target directory'' (mreq_target_dir r)) (\<lambda>_.
     Inr \<lparr>mb_source_path = to_string_lossy (mreq_source_path r),
          mb_target_dir = to_string_lossy (mreq_target_dir r),
          mb_conflict_policy = conflict_policy_into_body (mreq_conflict_policy r)\<rparr>))"

definition materialize_request_from_body :: "MaterializeBody \<Rightarrow> MaterializeRequest result" where
  "materialize_request_from_body b =
     (if mb_source_path b = [] \<or> mb_target_dir b = [] then Inl Status.InvalidArgument
      else Inr \<lparr>mreq_source_path = mb_source_path b, mreq_target_dir = mb_target_dir b,
                mreq_conflict_policy = conflict_policy_from_body (mb_conflict_policy b)\<rparr>)"

definition materialize_response_from_body :: "MaterializedBody \<Rightarrow> MaterializeResponse" where
  "materialize_response_from_body b =
     \<lparr>mres_target_path = md_target_path b, mres_counts = md_counts b\<rparr>"

definition progress_report_from_body :: "MaterializeProgressBody \<Rightarrow> MaterializeProgressReport" where
  "progress_report_from_body b =
     \<lparr>mrep_target_path = mp_target_path b, mrep_counts = mp_counts b\<rparr>"

text \<open>\<open>writeln!\<close> of a \<open>key=value\<close> line.\<close>

definition line :: "string \<Rightarrow> string" where
  "line s = s @ ''\<newline>''"

definition u64_text :: "u64 \<Rightarrow> string" where
  "u64_text n = decimal (unat n)"

definition materialize_response_encode_text :: "MaterializeResponse \<Rightarrow> string" where
  "materialize_response_encode_text r =
     (let c = mres_counts r in
      line ''ok''
      @ line (''target_path='' @ to_string_lossy (mres_target_path r))
      @ line (''entries_done='' @ u64_text (mc_entries_done c))
      @ line (''entries_total='' @ u64_text (mc_entries_total c))
      @ line (''bytes_written='' @ u64_text (mc_bytes_written c))
      @ line (''bytes_total='' @ u64_text (mc_bytes_total c))
      @ line (''files_written='' @ u64_text (mc_files_written c))
      @ line (''files_total='' @ u64_text (mc_files_total c))
      @ line (''directories_created='' @ u64_text (mc_directories_created c))
      @ line (''directories_total='' @ u64_text (mc_directories_total c)))"

definition progress_report_encode_text :: "MaterializeProgressReport \<Rightarrow> string" where
  "progress_report_encode_text r =
     (let c = mrep_counts r in
      ''progress target_path='' @ to_string_lossy (mrep_target_path r)
      @ '' entries_done='' @ u64_text (mc_entries_done c)
      @ '' entries_total='' @ u64_text (mc_entries_total c)
      @ '' bytes_written='' @ u64_text (mc_bytes_written c)
      @ '' bytes_total='' @ u64_text (mc_bytes_total c)
      @ '' files_written='' @ u64_text (mc_files_written c)
      @ '' files_total='' @ u64_text (mc_files_total c)
      @ '' directories_created='' @ u64_text (mc_directories_created c)
      @ '' directories_total='' @ u64_text (mc_directories_total c))"

definition materialize_failure_to_io :: "MaterializeFailedBody \<Rightarrow> io_error" where
  "materialize_failure_to_io e =
     (let c = mf_counts e in
      io_error_new (error_code_to_io_kind (mf_code e))
        (mf_message e @ ''; target_path='' @ mf_target_path e
         @ ''; entries_done='' @ u64_text (mc_entries_done c)
         @ ''; entries_total='' @ u64_text (mc_entries_total c)
         @ ''; bytes_written='' @ u64_text (mc_bytes_written c)
         @ ''; bytes_total='' @ u64_text (mc_bytes_total c)
         @ ''; files_written='' @ u64_text (mc_files_written c)
         @ ''; files_total='' @ u64_text (mc_files_total c)
         @ ''; directories_created='' @ u64_text (mc_directories_created c)
         @ ''; directories_total='' @ u64_text (mc_directories_total c)))"

section \<open>Mount status\<close>

record IpcMountStatus =
  ms_mount :: string
  ms_fuse_adapter :: string
  ms_mount_path :: "path option"
  ms_ready_for_commits :: bool

definition not_mounted :: IpcMountStatus where
  "not_mounted =
     \<lparr>ms_mount = ''not-mounted'', ms_fuse_adapter = ''not-implemented'', ms_mount_path = None,
      ms_ready_for_commits = False\<rparr>"

definition disabled :: "path \<Rightarrow> IpcMountStatus" where
  "disabled mount_path =
     \<lparr>ms_mount = ''not-mounted'', ms_fuse_adapter = ''disabled'', ms_mount_path = Some mount_path,
      ms_ready_for_commits = False\<rparr>"

definition mounted :: "path \<Rightarrow> IpcMountStatus" where
  "mounted mount_path =
     \<lparr>ms_mount = ''mounted'', ms_fuse_adapter = ''enabled'', ms_mount_path = Some mount_path,
      ms_ready_for_commits = False\<rparr>"

definition commit_ready :: "path \<Rightarrow> IpcMountStatus" where
  "commit_ready mount_path =
     \<lparr>ms_mount = ''mounted'', ms_fuse_adapter = ''enabled'', ms_mount_path = Some mount_path,
      ms_ready_for_commits = True\<rparr>"

definition visible_promise_path :: "IpcMountStatus \<Rightarrow> string \<Rightarrow> path result" where
  "visible_promise_path ms promise_id =
     (if \<not> ms_ready_for_commits ms then Inl Status.Unavailable
      else ok_or (map_option (\<lambda>mount_path. path_join mount_path promise_id) (ms_mount_path ms))
             Status.Unavailable)"

fun visible_parts :: "Component list \<Rightarrow> string list result" where
  "visible_parts [] = Inr []"
| "visible_parts (Normal part # cs) =
     res_bind (fail_if (\<not> utf8_valid part) Status.InvalidArgument) (\<lambda>_.
     res_bind (visible_parts cs) (\<lambda>parts. Inr (part # parts)))"
| "visible_parts (_ # cs) = Inl Status.InvalidArgument"

definition resolve_visible_path :: "IpcMountStatus \<Rightarrow> path \<Rightarrow> (string \<times> string) result" where
  "resolve_visible_path ms source_path =
     res_bind (fail_if (\<not> ms_ready_for_commits ms) Status.Unavailable) (\<lambda>_.
     res_bind (fail_if (\<not> path_is_absolute source_path) Status.InvalidArgument) (\<lambda>_.
     res_bind (ok_or (ms_mount_path ms) Status.Unavailable) (\<lambda>mount_path.
     res_bind (ok_or (path_strip_prefix source_path mount_path) Status.NotFound) (\<lambda>components.
     case components of
       Normal promise_id # rest \<Rightarrow>
         res_bind (fail_if (\<not> utf8_valid promise_id) Status.InvalidArgument) (\<lambda>_.
         res_bind (visible_parts rest) (\<lambda>parts.
         Inr (promise_id, join_slash parts)))
     | _ \<Rightarrow> Inl Status.NotFound))))"

section \<open>Status and inspection\<close>

record DaemonStatus =
  ds_api_version :: u32
  ds_mount_path :: path
  ds_socket_path :: path
  ds_daemon :: string
  ds_mount :: string
  ds_fuse_adapter :: string
  ds_cache_policy :: string
  ds_providers :: nat
  ds_promises :: nat

record StatusBody =
  sb_api_version :: u32
  sb_mount_path :: string
  sb_socket_path :: string
  sb_daemon :: string
  sb_mount :: string
  sb_fuse_adapter :: string
  sb_cache_policy :: string
  sb_providers :: u64
  sb_promises :: u64

record InspectNodeBody =
  in_relative_path :: string
  in_inode :: u64
  in_kind :: string
  in_size :: u64
  in_mode :: u32
  in_provider_node_id :: string

record InspectPromiseBody =
  ip_promise_id :: string
  ip_provider_id :: u64
  ip_state :: string
  ip_nodes :: "InspectNodeBody list"

record InspectBody =
  ib_providers :: u64
  ib_promises :: "InspectPromiseBody list"

definition cache_policy_text :: "CachePolicy \<Rightarrow> string" where
  "cache_policy_text policy = cache_policy_as_str policy"

fun promise_state_text :: "PromiseState \<Rightarrow> string" where
  "promise_state_text PromiseState.Available = ''available''"
| "promise_state_text PromiseState.ProviderGone = ''provider-gone''"
| "promise_state_text PromiseState.Materialized = ''materialized''"

fun node_kind_text :: "NodeKind \<Rightarrow> string" where
  "node_kind_text NodeKind.File = ''file''"
| "node_kind_text NodeKind.Directory = ''directory''"

definition from_runtime_with_mount :: "'w Os \<Rightarrow> 'w \<Rightarrow> Runtime \<Rightarrow> IpcMountStatus \<Rightarrow> DaemonStatus result" where
  "from_runtime_with_mount os w rt ms =
     res_bind (case ms_mount_path ms of Some p \<Rightarrow> Inr p | None \<Rightarrow> default_mount_path os w) (\<lambda>mount_path.
     res_bind (default_control_socket_path os w) (\<lambda>socket_path.
     Inr \<lparr>ds_api_version = API_VERSION, ds_mount_path = mount_path, ds_socket_path = socket_path,
          ds_daemon = ''connected'', ds_mount = ms_mount ms, ds_fuse_adapter = ms_fuse_adapter ms,
          ds_cache_policy = cache_policy_text (rt_cache_policy rt),
          ds_providers = provider_count rt, ds_promises = promise_count rt\<rparr>))"

definition status_from_runtime :: "'w Os \<Rightarrow> 'w \<Rightarrow> Runtime \<Rightarrow> DaemonStatus result" where
  "status_from_runtime os w rt = from_runtime_with_mount os w rt not_mounted"

definition status_body_from_status :: "DaemonStatus \<Rightarrow> StatusBody" where
  "status_body_from_status s =
     \<lparr>sb_api_version = ds_api_version s, sb_mount_path = to_string_lossy (ds_mount_path s),
      sb_socket_path = to_string_lossy (ds_socket_path s), sb_daemon = ds_daemon s,
      sb_mount = ds_mount s, sb_fuse_adapter = ds_fuse_adapter s, sb_cache_policy = ds_cache_policy s,
      sb_providers = of_nat (ds_providers s), sb_promises = of_nat (ds_promises s)\<rparr>"

definition status_body_encode_text :: "StatusBody \<Rightarrow> string" where
  "status_body_encode_text s =
     line ''ok''
     @ line (''api_version='' @ decimal (unat (sb_api_version s)))
     @ line (''mount_path='' @ sb_mount_path s)
     @ line (''socket_path='' @ sb_socket_path s)
     @ line (''daemon='' @ sb_daemon s)
     @ line (''mount='' @ sb_mount s)
     @ line (''fuse_adapter='' @ sb_fuse_adapter s)
     @ line (''cache_policy='' @ sb_cache_policy s)
     @ line (''providers='' @ u64_text (sb_providers s))
     @ line (''promises='' @ u64_text (sb_promises s))"

definition daemon_status_encode :: "DaemonStatus \<Rightarrow> string" where
  "daemon_status_encode s = status_body_encode_text (status_body_from_status s)"

definition inspect_node :: "PromiseNode \<Rightarrow> InspectNodeBody" where
  "inspect_node node =
     \<lparr>in_relative_path = (if node_relative_path node = [] then ''.'' else node_relative_path node),
      in_inode = node_inode node, in_kind = node_kind_text (node_kind node),
      in_size = attr_size (node_attr node), in_mode = attr_mode (node_attr node),
      in_provider_node_id = node_provider_node_id node\<rparr>"

definition inspect_promise :: "PromiseTree \<Rightarrow> InspectPromiseBody" where
  "inspect_promise tree =
     \<lparr>ip_promise_id = tree_promise_id tree, ip_provider_id = tree_provider_id tree,
      ip_state = promise_state_text (tree_state tree),
      ip_nodes = map inspect_node (bt_values (tree_nodes tree))\<rparr>"

definition inspect_from_runtime :: "Runtime \<Rightarrow> InspectBody" where
  "inspect_from_runtime rt =
     \<lparr>ib_providers = of_nat (provider_count rt),
      ib_promises = map inspect_promise (bt_values (rt_promises rt))\<rparr>"

text \<open>The format \<open>{:o}\<close>.\<close>

fun octal :: "nat \<Rightarrow> string" where
  "octal n = (if n < 8 then [digit_char n] else octal (n div 8) @ [digit_char (n mod 8)])"

declare octal.simps [simp del]

definition inspect_node_line :: "string \<Rightarrow> InspectNodeBody \<Rightarrow> string" where
  "inspect_node_line promise_id node =
     line (''node promise='' @ promise_id @ '' path='' @ in_relative_path node
       @ '' inode='' @ u64_text (in_inode node) @ '' kind='' @ in_kind node
       @ '' size='' @ u64_text (in_size node) @ '' mode='' @ octal (unat (in_mode node))
       @ '' provider_node='' @ in_provider_node_id node)"

definition inspect_promise_lines :: "InspectPromiseBody \<Rightarrow> string" where
  "inspect_promise_lines p =
     line (''promise id='' @ ip_promise_id p @ '' provider='' @ u64_text (ip_provider_id p)
       @ '' state='' @ ip_state p @ '' nodes='' @ decimal (length (ip_nodes p)))
     @ concat (map (inspect_node_line (ip_promise_id p)) (ip_nodes p))"

definition inspect_encode_text :: "InspectBody \<Rightarrow> string" where
  "inspect_encode_text b =
     line ''ok''
     @ line (''providers='' @ u64_text (ib_providers b))
     @ line (''promises='' @ decimal (length (ib_promises b)))
     @ concat (map inspect_promise_lines (ib_promises b))"

section \<open>Requests and responses\<close>

datatype Request =
    Hello u32 u32
  | Status
  | Inspect
  | ProviderRegister
  | ProviderUnregister u64 u128
  | PromiseCommit PromiseCommitBody
  | Materialize MaterializeBody
  | MaterializeContinue
  | MaterializeCancel
  | ProviderReadResponse ProviderReadResponseBody

datatype Response =
    Hello u32 u32
  | Status StatusBody
  | Inspect InspectBody
  | ProviderRegistered u64 u128
  | ProviderUnregistered
  | PromiseCommitted PromiseCommittedBody
  | MaterializeProgress MaterializeProgressBody
  | Materialized MaterializedBody
  | MaterializeFailed MaterializeFailedBody
  | ProviderReadRequest ProviderReadRequestBody
  | Error ErrorBody

section \<open>Conversions are inverse to each other\<close>

lemma read_status_roundtrip [simp]: "read_status_from_body (read_status_into_body s) = s"
  by (cases s) simp_all

lemma conflict_policy_roundtrip [simp]: "conflict_policy_from_body (conflict_policy_into_body p) = p"
  by (cases p) simp_all

lemma validate_nonzero_Inr [outcome_simps]: "validate_nonzero name v = Inr u \<longleftrightarrow> v \<noteq> 0"
  by (simp add: validate_nonzero_def outcome_simps)

lemma validate_provider_id_Inr [outcome_simps]: "validate_provider_id v = Inr u \<longleftrightarrow> v \<noteq> 0"
  by (simp add: validate_provider_id_def provider_id_from_raw_def)

lemma validate_token_Inr [outcome_simps]:
  "validate_token name v = Inr u \<longleftrightarrow> v \<noteq> [] \<and> CHR 0x00 \<notin> set v"
  by (auto simp: validate_token_def outcome_simps)

lemma validate_relative_path_Inr [outcome_simps]:
  "validate_relative_path p = Inr q \<longleftrightarrow> normalize_relative_path p = Inr q"
  by (simp add: validate_relative_path_def outcome_simps)

lemma validate_read_range_Inr [outcome_simps]:
  "validate_read_range offset len = Inr u \<longleftrightarrow>
     len \<noteq> 0 \<and> len \<le> MAX_PROVIDER_READ_LEN \<and> unat offset + unat len < 2 ^ 64"
  by (auto simp: validate_read_range_def outcome_simps not_less not_le)

text \<open>The requests that pass validation, and the normalised request they travel as.\<close>

definition read_request_ok :: "ProviderReadRequest \<Rightarrow> bool" where
  "read_request_ok r \<longleftrightarrow>
     rr_request_id r \<noteq> 0 \<and> rr_provider_id r \<noteq> 0 \<and>
     rr_promise_id r \<noteq> [] \<and> CHR 0x00 \<notin> set (rr_promise_id r) \<and>
     rr_provider_node_id r \<noteq> [] \<and> CHR 0x00 \<notin> set (rr_provider_node_id r) \<and>
     rr_length r \<noteq> 0 \<and> rr_length r \<le> MAX_PROVIDER_READ_LEN \<and>
     unat (rr_offset r) + unat (rr_length r) < 2 ^ 64"

lemma read_request_into_body_Inr:
  "read_request_into_body r = Inr b \<longleftrightarrow>
     (\<exists>p. normalize_relative_path (rr_relative_path r) = Inr p \<and> read_request_ok r \<and>
        b = \<lparr>rrb_request_id = rr_request_id r, rrb_provider_id = rr_provider_id r,
             rrb_promise_id = rr_promise_id r, rrb_relative_path = p,
             rrb_provider_node_id = rr_provider_node_id r, rrb_offset = rr_offset r,
             rrb_length = rr_length r\<rparr>)"
  by (auto simp: read_request_into_body_def outcome_simps read_request_ok_def)

lemma read_request_roundtrip:
  assumes "read_request_into_body r = Inr b"
  shows "\<exists>p. normalize_relative_path (rr_relative_path r) = Inr p \<and>
           read_request_from_body b = Inr (r\<lparr>rr_relative_path := p\<rparr>)"
proof -
  from assms obtain p where p: "normalize_relative_path (rr_relative_path r) = Inr p" "read_request_ok r"
    and b: "read_request_of_body b = r\<lparr>rr_relative_path := p\<rparr>"
    by (auto simp: read_request_into_body_Inr read_request_of_body_def)
  from p(1) have "normalize_relative_path p = Inr p"
    using normalize_normal_path normal_path_def by blast
  with p(2) have "\<exists>b'. read_request_into_body (r\<lparr>rr_relative_path := p\<rparr>) = Inr b' \<and>
      read_request_of_body b' = r\<lparr>rr_relative_path := p\<rparr>"
    by (auto simp: read_request_into_body_Inr read_request_of_body_def read_request_ok_def)
  with p(1) show ?thesis
    by (auto simp: read_request_from_body_def b read_request_validated_def)
qed

lemma read_response_validate_Inr [outcome_simps]:
  "read_response_validate r = Inr u \<longleftrightarrow>
     rs_request_id r \<noteq> 0 \<and> length (rs_bytes r) \<le> unat MAX_PROVIDER_READ_LEN \<and>
     (rs_status r = ProviderReadStatus.Ok \<or> rs_bytes r = [])"
  by (auto simp: read_response_validate_def outcome_simps)

lemma read_response_roundtrip: "read_response_into_body r = Inr b \<Longrightarrow> read_response_from_body b = Inr r"
  by (auto simp: read_response_into_body_def read_response_from_body_def read_response_validated_def
      outcome_simps)

lemma validate_response_for_request_Inr [outcome_simps]:
  "validate_provider_read_response_for_request q r = Inr u \<longleftrightarrow>
     rs_request_id r = rr_request_id q \<and>
     (rs_status r = ProviderReadStatus.Ok \<longrightarrow> length (rs_bytes r) \<le> unat (rr_length q)) \<and>
     read_response_validate r = Inr ()"
  by (auto simp: validate_provider_read_response_for_request_def outcome_simps)

lemma materialize_request_roundtrip:
  "materialize_request_into_body r = Inr b \<Longrightarrow> materialize_request_from_body b = Inr r"
  by (auto simp: materialize_request_into_body_def materialize_request_from_body_def
      validate_materialize_path_def outcome_simps to_string_lossy_valid)

section \<open>Visible paths\<close>

lemma split_on_append_sep: "split_on c (s @ c # t) = split_on c s @ split_on c t"
  by (induction s) (auto split: list.splits)

lemma map_filter_append: "List.map_filter f (xs @ ys) = List.map_filter f xs @ List.map_filter f ys"
  by (simp add: map_filter_def)

lemma components_path_join:
  assumes "path_is_absolute base" and "ps \<noteq> []" and "normal_parts ps"
  shows "path_components (path_join base (join_slash ps)) = path_components base @ map Normal ps"
    and "path_is_absolute (path_join base (join_slash ps))"
proof -
  let ?p = "join_slash ps"
  have rel: "\<not> path_is_absolute ?p"
    using normal_path_join [OF assms(3)] by (auto simp: normal_path_def normalize_relative_path_def outcome_simps)
  have body: "List.map_filter body_component (split_on CHR ''/'' ?p) = map Normal ps"
    using components_join_slash [OF assms(3)] rel by (auto simp: path_components_def split: if_splits)
  from assms(1) obtain rest where base: "base = CHR ''/'' # rest"
    by (cases base) (auto simp: path_is_absolute_def)
  have "\<exists>s. path_join base ?p = s @ CHR ''/'' # ?p \<and>
      List.map_filter body_component (split_on CHR ''/'' s) = List.map_filter body_component (split_on CHR ''/'' base) \<and>
      (s = [] \<or> hd s = CHR ''/'')"
  proof (cases "last base = CHR ''/''")
    case True
    then have b: "base = butlast base @ CHR ''/'' # []" using base by (metis append_butlast_last_id list.distinct(1))
    then have "split_on CHR ''/'' base = split_on CHR ''/'' (butlast base) @ [[]]"
      by (metis split_on.simps(1) split_on_append_sep)
    then have "List.map_filter body_component (split_on CHR ''/'' (butlast base)) = List.map_filter body_component (split_on CHR ''/'' base)"
      by (simp add: map_filter_append map_filter_def body_component_def)
    moreover have "path_join base ?p = butlast base @ CHR ''/'' # ?p"
      using True rel base b unfolding path_join_def by (metis append.assoc append_Cons append_Nil)
    moreover have "butlast base = [] \<or> hd (butlast base) = CHR ''/''" using base by (cases rest) auto
    ultimately show ?thesis by blast
  qed (use rel base in \<open>auto simp: path_join_def\<close>)
  then obtain s where s: "path_join base ?p = s @ CHR ''/'' # ?p"
    "List.map_filter body_component (split_on CHR ''/'' s) = List.map_filter body_component (split_on CHR ''/'' base)"
    "s = [] \<or> hd s = CHR ''/''" by blast
  then show abs: "path_is_absolute (path_join base ?p)" by (cases s) (auto simp: path_is_absolute_def)
  show "path_components (path_join base ?p) = path_components base @ map Normal ps"
    using abs assms(1) unfolding path_components_def by (simp add: s split_on_append_sep map_filter_append body)
qed

lemma visible_parts_Normal: "normal_parts ps \<Longrightarrow> visible_parts (map Normal ps) = Inr ps"
  by (induction ps) (auto simp: normal_part_def)

lemma resolve_visible_join:
  assumes "ms_ready_for_commits ms" and "ms_mount_path ms = Some m" and "path_is_absolute m"
    and "normal_part pid" and "normal_parts ps"
  shows "resolve_visible_path ms (path_join m (join_slash (pid # ps))) = Inr (pid, join_slash ps)"
proof -
  from assms(4,5) have "normal_parts (pid # ps)" by simp
  from components_path_join [OF assms(3) _ this] have
    "path_strip_prefix (path_join m (join_slash (pid # ps))) m = Some (map Normal (pid # ps))"
    "path_is_absolute (path_join m (join_slash (pid # ps)))"
    by (auto simp: path_strip_prefix_def)
  with assms show ?thesis
    by (simp add: resolve_visible_path_def visible_parts_Normal normal_part_def)
qed

end
