(* ===== verification/Ipc_Frames.thy ===== *)
theory Ipc_Frames
  imports Ipc_Messages
begin

text \<open>
  The frame layer of \<open>crates/fuse-promise-ipc/src/lib.rs\<close>: a message is a little-endian
  \<open>u32\<close> length and a \<open>bincode\<close> body. Reading and writing are generic in the stream, as in
  the source: a \<open>Reader\<close> and a \<open>Writer\<close> hold the methods of the \<open>Read\<close> and \<open>Write\<close>
  traits that are called. The codec is a parameter; the only fact used about it is that it
  decodes what it encoded. The byte-slice reader and the vector writer of the standard
  library are the instances the round-trip lemmas speak about; \<open>stream_reader\<close> and
  \<open>stream_writer\<close> are the instances for a connected socket.
\<close>

section \<open>Streams and codecs\<close>

record 'r Reader =
  rd_read :: "nat \<Rightarrow> ('r, bytes) io"
  rd_read_exact :: "nat \<Rightarrow> ('r, bytes) io"

record 'r Writer =
  wr_write_all :: "bytes \<Rightarrow> ('r, unit) io"
  wr_flush :: "('r, unit) io"

definition stream_reader :: "'w Os \<Rightarrow> conn \<Rightarrow> 'w Reader" where
  "stream_reader os c = \<lparr>rd_read = os_read os c, rd_read_exact = os_read_exact os c\<rparr>"

definition stream_writer :: "'w Os \<Rightarrow> conn \<Rightarrow> 'w Writer" where
  "stream_writer os c = \<lparr>wr_write_all = os_write_all os c, wr_flush = os_flush os c\<rparr>"

text \<open>\<open>impl Read for &[u8]\<close> and \<open>impl Write for Vec<u8>\<close>.\<close>

definition slice_reader :: "bytes Reader" where
  "slice_reader =
     \<lparr>rd_read = (\<lambda>n s. (drop n s, Inr (take n s))),
      rd_read_exact = (\<lambda>n s. if n \<le> length s then (drop n s, Inr (take n s))
                             else ([], Inl (io_error_from KUnexpectedEof)))\<rparr>"

definition vec_writer :: "bytes Writer" where
  "vec_writer = \<lparr>wr_write_all = (\<lambda>bs s. (s @ bs, Inr ())), wr_flush = (\<lambda>s. (s, Inr ()))\<rparr>"

text \<open>\<open>bincode::encode_to_vec\<close> and \<open>bincode::decode_from_slice\<close> at one message type; the
  error is its text, and decoding also returns how many bytes it read.\<close>

record 'm Codec =
  encode :: "'m \<Rightarrow> string + bytes"
  decode :: "bytes \<Rightarrow> string + ('m \<times> nat)"

section \<open>Frames\<close>

definition encode_error_to_io :: "string \<Rightarrow> io_error" where
  "encode_error_to_io error = io_error_new KInvalidData error"

definition decode_error_to_io :: "string \<Rightarrow> io_error" where
  "decode_error_to_io error = io_error_new KInvalidData error"

definition read_frame :: "'r Reader \<Rightarrow> 'm Codec \<Rightarrow> ('r, 'm option) io" where
  "read_frame reader codec =
     io_bind (rd_read reader 1) (\<lambda>first.
     if first = [] then io_return None
     else
       io_bind (rd_read_exact reader 3) (\<lambda>rest.
       let len = le_value (first @ rest) in
       if len > unat MAX_FRAME_LEN then io_fail (invalid_data ''IPC frame exceeds maximum length'')
       else
         io_bind (rd_read_exact reader len) (\<lambda>body.
         io_bind (io_lift (map_err decode_error_to_io (decode codec body))) (\<lambda>(message, bytes_read).
         if bytes_read \<noteq> length body then io_fail (invalid_data ''IPC frame has trailing bytes'')
         else io_return (Some message)))))"

definition write_frame :: "'r Writer \<Rightarrow> 'm Codec \<Rightarrow> 'm \<Rightarrow> ('r, unit) io" where
  "write_frame writer codec message =
     io_bind (io_lift (map_err encode_error_to_io (encode codec message))) (\<lambda>body.
     if length body > unat MAX_FRAME_LEN then io_fail (invalid_data ''IPC frame exceeds maximum length'')
     else
       io_bind (wr_write_all writer (le_bytes 4 (length body))) (\<lambda>_.
       io_bind (wr_write_all writer body) (\<lambda>_.
       wr_flush writer)))"

definition read_response :: "'r Reader \<Rightarrow> Response Codec \<Rightarrow> ('r, Response) io" where
  "read_response reader codec =
     io_bind (read_frame reader codec) (\<lambda>m.
     io_lift (ok_or m (io_error_from KUnexpectedEof)))"

definition write_error :: "'r Writer \<Rightarrow> Response Codec \<Rightarrow> ErrorCode \<Rightarrow> string \<Rightarrow> ('r, unit) io" where
  "write_error writer codec code message =
     write_frame writer codec (Response.Error \<lparr>error_code = code, error_message = message\<rparr>)"

definition write_status_error :: "'r Writer \<Rightarrow> Response Codec \<Rightarrow> Status \<Rightarrow> ('r, unit) io" where
  "write_status_error writer codec status =
     write_error writer codec (status_to_error_code status) (status_as_str status)"

definition expect_hello :: "Response \<Rightarrow> unit io_result" where
  "expect_hello response =
     (case response of
        Response.Hello protocol_version api_version \<Rightarrow>
          if protocol_version = IPC_PROTOCOL_VERSION \<and> api_version = API_VERSION then Inr ()
          else Inl (invalid_data ''daemon returned an incompatible hello response'')
      | Response.Error error \<Rightarrow> Inl (error_to_io error)
      | _ \<Rightarrow> Inl (invalid_data ''daemon returned an unexpected hello response''))"

section \<open>Provider reads on a stream\<close>

definition write_provider_read_request ::
    "'r Writer \<Rightarrow> Response Codec \<Rightarrow> ProviderReadRequest \<Rightarrow> ('r, unit) io" where
  "write_provider_read_request writer codec request =
     io_bind (io_lift (read_request_into_body request)) (\<lambda>body.
     write_frame writer codec (Response.ProviderReadRequest body))"

definition read_provider_read_request ::
    "'r Reader \<Rightarrow> Response Codec \<Rightarrow> ('r, ProviderReadRequest option) io" where
  "read_provider_read_request reader codec =
     io_bind (read_frame reader codec) (\<lambda>m.
     case m of
       Some (Response.ProviderReadRequest request) \<Rightarrow>
         io_lift (map_ok Some (read_request_from_body request))
     | Some (Response.Error error) \<Rightarrow> io_fail (error_to_io error)
     | Some _ \<Rightarrow> io_fail (invalid_data ''non-provider-read response received where request was expected'')
     | None \<Rightarrow> io_return None)"

definition write_provider_read_response ::
    "'r Writer \<Rightarrow> Request Codec \<Rightarrow> ProviderReadResponse \<Rightarrow> ('r, unit) io" where
  "write_provider_read_response writer codec response =
     io_bind (io_lift (read_response_into_body response)) (\<lambda>body.
     write_frame writer codec (Request.ProviderReadResponse body))"

definition read_provider_read_response ::
    "'r Reader \<Rightarrow> Request Codec \<Rightarrow> ('r, ProviderReadResponse option) io" where
  "read_provider_read_response reader codec =
     io_bind (read_frame reader codec) (\<lambda>m.
     case m of
       Some (Request.ProviderReadResponse response) \<Rightarrow>
         io_lift (map_ok Some (read_response_from_body response))
     | Some _ \<Rightarrow> io_fail (invalid_data ''non-provider-read request received where response was expected'')
     | None \<Rightarrow> io_return None)"

section \<open>Round trips\<close>

text \<open>The documented law of the codec: decoding an encoded message returns it and reads all
  of its bytes.\<close>

definition codec_roundtrip :: "'m Codec \<Rightarrow> bool" where
  "codec_roundtrip codec \<longleftrightarrow>
     (\<forall>m body. encode codec m = Inr body \<longrightarrow> decode codec body = Inr (m, length body))"

definition frame_bytes :: "bytes \<Rightarrow> bytes" where
  "frame_bytes body = le_bytes 4 (length body) @ body"

lemma write_frame_vec:
  "write_frame vec_writer codec m out =
     (case encode codec m of
        Inl e \<Rightarrow> (out, Inl (encode_error_to_io e))
      | Inr body \<Rightarrow>
          if length body > unat MAX_FRAME_LEN then (out, Inl (invalid_data ''IPC frame exceeds maximum length''))
          else (out @ frame_bytes body, Inr ()))"
  by (auto simp: write_frame_def io_bind_def vec_writer_def frame_bytes_def split: sum.splits)

lemma unat_MAX_FRAME_LEN [simp]: "unat MAX_FRAME_LEN = 1048576"
  by (simp add: MAX_FRAME_LEN_def)

lemma length_4_Cons: "length xs = 4 \<Longrightarrow> \<exists>b bs. xs = b # bs \<and> length bs = 3"
  by (cases xs) auto

lemma read_frame_header:
  assumes "length body \<le> unat MAX_FRAME_LEN"
  obtains b bs where "le_bytes 4 (length body) = b # bs" "length bs = 3"
    "le_value (b # bs) = length body"
proof -
  obtain b bs where *: "le_bytes 4 (length body) = b # bs" "length bs = 3"
    using length_4_Cons [of "le_bytes 4 (length body)"] by auto
  moreover have "le_value (le_bytes 4 (length body)) = length body"
    using assms by (simp add: le_value_le_bytes)
  ultimately show ?thesis using that by simp
qed

lemma read_frame_slice:
  assumes "decode codec body = Inr (m, length body)" and "length body \<le> unat MAX_FRAME_LEN"
  shows "read_frame slice_reader codec (frame_bytes body @ rest) = (rest, Inr (Some m))"
proof -
  obtain b bs where h: "le_bytes 4 (length body) = b # bs" "length bs = 3" "le_value (b # bs) = length body"
    using read_frame_header [OF assms(2)] .
  then show ?thesis
    using assms
    by (simp add: read_frame_def io_bind_def slice_reader_def frame_bytes_def Let_def)
qed

lemma frame_roundtrip:
  assumes "codec_roundtrip codec" and "write_frame vec_writer codec m out = (out', Inr ())"
  obtains body where "out' = out @ frame_bytes body" "length body \<le> unat MAX_FRAME_LEN"
    "\<And>rest. read_frame slice_reader codec (frame_bytes body @ rest) = (rest, Inr (Some m))"
proof -
  from assms(2) obtain body where body: "encode codec m = Inr body" "length body \<le> unat MAX_FRAME_LEN"
    "out' = out @ frame_bytes body"
    by (auto simp: write_frame_vec split: sum.splits if_splits)
  with assms(1) have "decode codec body = Inr (m, length body)" by (auto simp: codec_roundtrip_def)
  from that [OF body(3,2)] read_frame_slice [OF this body(2)] show ?thesis by blast
qed

lemma read_frame_oversized:
  assumes "length header = 4" and "unat MAX_FRAME_LEN < le_value header"
  shows "read_frame slice_reader codec (header @ rest) =
           (rest, Inl (invalid_data ''IPC frame exceeds maximum length''))"
proof -
  from assms(1) obtain b bs where "header = b # bs" "length bs = 3"
    using length_4_Cons by blast
  with assms(2) show ?thesis
    by (simp add: read_frame_def io_bind_def slice_reader_def Let_def)
qed

lemma read_frame_eof: "read_frame slice_reader codec [] = ([], Inr None)"
  by (simp add: read_frame_def io_bind_def slice_reader_def)

end
