(* ===== verification/Ipc_State.thy ===== *)
theory Ipc_State
  imports Ipc_Frames
begin

text \<open>
  The shared state of the daemon, \<open>IpcState\<close> of \<open>crates/fuse-promise-ipc/src/lib.rs\<close>:
  the runtime, the mount status, the routes to connected providers and the reads that wait
  for an answer. Each lock-protected section of the source is a function on the state; a function
  of the source with several sections composes them. An \<open>mpsc\<close> channel is an index into the list of
  mailboxes; its sender is alive while a pending read holds it. A lock can be poisoned only
  by a panic inside a locked section; these error branches are not modelled.
\<close>

section \<open>Data\<close>

record ProviderRoute =
  route_writer :: conn
  route_owner_token :: u128

record PendingRead =
  pending_provider_id :: u64
  pending_request :: ProviderReadRequest
  pending_sender :: nat

record IpcState =
  ipc_runtime :: Runtime
  ipc_mount_status :: IpcMountStatus
  ipc_provider_routes :: "(u64, ProviderRoute) btree_map"
  ipc_pending_reads :: "(u64, PendingRead) btree_map"
  ipc_next_read_request_id :: u64
  ipc_channels :: "ProviderReadResponse io_result list list"

text \<open>The state of the process together with the world outside of it; \<open>w_temp_counter\<close> is the
  static \<open>MATERIALIZE_TEMP_COUNTER\<close>.\<close>

record 'w World =
  w_ipc :: IpcState
  w_temp_counter :: u64
  w_os :: 'w

text \<open>The parameters of the daemon's code: the system calls, the codecs of the two message
  types, and what the other threads and the outside world do while one thread waits on a
  channel (\<open>env_wait\<close>) or for the next request of its connection (\<open>env_idle\<close>).\<close>

record 'w Env =
  env_os :: "'w Os"
  env_requests :: "Request Codec"
  env_responses :: "Response Codec"
  env_wait :: "nat \<Rightarrow> 'w World \<Rightarrow> 'w World"
  env_idle :: "conn \<Rightarrow> 'w World \<Rightarrow> 'w World"

section \<open>Channels\<close>

definition channel_new :: "IpcState \<Rightarrow> IpcState \<times> nat" where
  "channel_new st = (st\<lparr>ipc_channels := ipc_channels st @ [[]]\<rparr>, length (ipc_channels st))"

definition channel_send :: "nat \<Rightarrow> ProviderReadResponse io_result \<Rightarrow> IpcState \<Rightarrow> IpcState" where
  "channel_send ch r st =
     st\<lparr>ipc_channels := (ipc_channels st)[ch := ipc_channels st ! ch @ [r]]\<rparr>"

datatype Recv = Received "ProviderReadResponse io_result" | RecvTimeout | RecvDisconnected

text \<open>\<open>recv_timeout\<close> once the wait is over.\<close>

definition channel_recv :: "IpcState \<Rightarrow> nat \<Rightarrow> Recv" where
  "channel_recv st ch =
     (case ipc_channels st ! ch of
        r # _ \<Rightarrow> Received r
      | [] \<Rightarrow> if list_ex (\<lambda>p. pending_sender p = ch) (bt_values (ipc_pending_reads st))
              then RecvTimeout else RecvDisconnected)"

section \<open>Operations\<close>

definition ipc_state_new :: "Runtime \<Rightarrow> IpcState" where
  "ipc_state_new rt =
     \<lparr>ipc_runtime = rt, ipc_mount_status = not_mounted, ipc_provider_routes = [],
      ipc_pending_reads = [], ipc_next_read_request_id = 1, ipc_channels = []\<rparr>"

definition set_mount_status :: "IpcMountStatus \<Rightarrow> IpcState \<Rightarrow> IpcState" where
  "set_mount_status ms st = st\<lparr>ipc_mount_status := ms\<rparr>"

definition next_provider_read_request_id :: "IpcState \<Rightarrow> IpcState \<times> u64" where
  "next_provider_read_request_id st =
     (st\<lparr>ipc_next_read_request_id := ipc_next_read_request_id st + 1\<rparr>, ipc_next_read_request_id st)"

definition register_provider_route :: "u64 \<Rightarrow> u128 \<Rightarrow> conn \<Rightarrow> IpcState \<Rightarrow> IpcState" where
  "register_provider_route provider_id owner_token writer st =
     st\<lparr>ipc_provider_routes := bt_insert provider_id
          \<lparr>route_writer = writer, route_owner_token = owner_token\<rparr> (ipc_provider_routes st)\<rparr>"

definition validate_provider_owner :: "IpcState \<Rightarrow> ProviderId \<Rightarrow> u128 \<Rightarrow> unit result" where
  "validate_provider_owner st provider_id owner_token =
     (case bt_get (ipc_provider_routes st) provider_id of
        Some route \<Rightarrow> if route_owner_token route = owner_token then Inr () else Inl Status.Permission
      | None \<Rightarrow>
          if bt_get (rt_providers (ipc_runtime st)) provider_id \<noteq> None then Inl Status.ProviderGone
          else Inl Status.NotFound)"

definition remove_pending_read :: "u64 \<Rightarrow> IpcState \<Rightarrow> IpcState" where
  "remove_pending_read request_id st =
     st\<lparr>ipc_pending_reads := bt_remove request_id (ipc_pending_reads st)\<rparr>"

definition complete_provider_read ::
    "ProviderId list \<Rightarrow> ProviderReadResponseBody \<Rightarrow> IpcState \<Rightarrow> IpcState \<times> unit io_result" where
  "complete_provider_read registered_providers body st =
     (case read_response_from_body body of
        Inl e \<Rightarrow> (st, Inl e)
      | Inr response \<Rightarrow>
          (case bt_get (ipc_pending_reads st) (rs_request_id response) of
             None \<Rightarrow> (st, Inl (invalid_data ''provider read response does not match a pending request''))
           | Some pending \<Rightarrow>
               (let outcome =
                  (if list_ex (\<lambda>pid. pid = pending_provider_id pending) registered_providers
                   then map_ok (\<lambda>_. response)
                          (validate_provider_read_response_for_request (pending_request pending) response)
                   else Inl (io_error_new KPermissionDenied
                          ''provider read response came from the wrong provider connection''))
                in (channel_send (pending_sender pending) outcome
                      (remove_pending_read (rs_request_id response) st), Inr ()))))"

definition fail_provider_pending_reads :: "u64 \<Rightarrow> ErrorKind \<Rightarrow> IpcState \<Rightarrow> IpcState" where
  "fail_provider_pending_reads provider_id error_kind st =
     (let failed = filter (\<lambda>(_, p). pending_provider_id p = provider_id) (ipc_pending_reads st);
          st1 = fold (\<lambda>(request_id, _). remove_pending_read request_id) failed st in
      fold (\<lambda>(_, p). channel_send (pending_sender p)
        (Inl (io_error_new error_kind ''provider disconnected''))) failed st1)"

definition drop_provider_route :: "u64 \<Rightarrow> IpcState \<Rightarrow> IpcState" where
  "drop_provider_route provider_id st =
     st\<lparr>ipc_provider_routes := bt_remove provider_id (ipc_provider_routes st)\<rparr>"

definition disconnect_provider_id :: "u64 \<Rightarrow> IpcState \<Rightarrow> IpcState" where
  "disconnect_provider_id provider_id st =
     (let st1 = drop_provider_route provider_id st in
      case provider_id_from_raw provider_id of
        None \<Rightarrow> st1
      | Some pid \<Rightarrow>
          fail_provider_pending_reads provider_id KBrokenPipe
            (st1\<lparr>ipc_runtime := fst (unregister_provider (ipc_runtime st1) pid)\<rparr>))"

definition disconnect_provider :: "ProviderId \<Rightarrow> IpcState \<Rightarrow> IpcState" where
  "disconnect_provider provider_id st = disconnect_provider_id provider_id st"

section \<open>Routing a read\<close>

text \<open>The first two locked sections of \<open>route_provider_read\<close>: find the route, then enter the
  read under its id. A duplicate id replaces the older entry before the error is returned.\<close>

definition route_lookup :: "IpcState \<Rightarrow> ProviderReadRequest \<Rightarrow> ProviderRoute io_result" where
  "route_lookup st request =
     ok_or (bt_get (ipc_provider_routes st) (rr_provider_id request))
       (io_error_new KNotFound ''provider not connected'')"

definition enter_pending_read :: "ProviderReadRequest \<Rightarrow> IpcState \<Rightarrow> IpcState \<times> nat io_result" where
  "enter_pending_read request st =
     (case channel_new st of
        (st1, ch) \<Rightarrow>
          (st1\<lparr>ipc_pending_reads := bt_insert (rr_request_id request)
             \<lparr>pending_provider_id = rr_provider_id request, pending_request = request, pending_sender = ch\<rparr>
             (ipc_pending_reads st1)\<rparr>,
           if bt_get (ipc_pending_reads st) (rr_request_id request) \<noteq> None
           then Inl (invalid_data ''duplicate provider read request id'') else Inr ch))"

text \<open>The end of \<open>route_provider_read\<close>, when the wait on the channel is over.\<close>

definition finish_routed_read ::
    "u64 \<Rightarrow> nat \<Rightarrow> IpcState \<Rightarrow> IpcState \<times> ProviderReadResponse io_result" where
  "finish_routed_read request_id ch st =
     (case channel_recv st ch of
        Received response \<Rightarrow> (st, response)
      | RecvTimeout \<Rightarrow>
          (remove_pending_read request_id st,
           Inl (io_error_new KTimedOut ''provider read response timed out''))
      | RecvDisconnected \<Rightarrow>
          (st, Inl (io_error_new KBrokenPipe ''provider read response channel closed'')))"

definition route_provider_read ::
    "'w Env \<Rightarrow> ProviderReadRequest \<Rightarrow> 'w World \<Rightarrow> 'w World \<times> ProviderReadResponse io_result" where
  "route_provider_read env request w =
     (case res_bind (read_request_into_body request) (\<lambda>body.
           res_bind (route_lookup (w_ipc w) request) (\<lambda>route. Inr (body, route))) of
        Inl e \<Rightarrow> (w, Inl e)
      | Inr (body, route) \<Rightarrow>
          (case enter_pending_read request (w_ipc w) of
             (st, Inl e) \<Rightarrow> (w\<lparr>w_ipc := st\<rparr>, Inl e)
           | (st, Inr ch) \<Rightarrow>
               (case write_frame (stream_writer (env_os env) (route_writer route)) (env_responses env)
                       (Response.ProviderReadRequest body) (w_os w) of
                  (o1, Inl e) \<Rightarrow>
                    (w\<lparr>w_ipc := disconnect_provider_id (rrb_provider_id body)
                                (remove_pending_read (rrb_request_id body) st), w_os := o1\<rparr>, Inl e)
                | (o1, Inr _) \<Rightarrow>
                    (let w2 = env_wait env ch (w\<lparr>w_ipc := st, w_os := o1\<rparr>) in
                     case finish_routed_read (rrb_request_id body) ch (w_ipc w2) of
                       (st3, r) \<Rightarrow> (w2\<lparr>w_ipc := st3\<rparr>, r)))))"

section \<open>Disconnecting a provider\<close>

lemma remove_pending_read_simps [simp]:
  "ipc_runtime (remove_pending_read k st) = ipc_runtime st"
  "ipc_mount_status (remove_pending_read k st) = ipc_mount_status st"
  "ipc_provider_routes (remove_pending_read k st) = ipc_provider_routes st"
  "ipc_pending_reads (remove_pending_read k st) = bt_remove k (ipc_pending_reads st)"
  "ipc_next_read_request_id (remove_pending_read k st) = ipc_next_read_request_id st"
  "ipc_channels (remove_pending_read k st) = ipc_channels st"
  by (simp_all add: remove_pending_read_def)

lemma channel_send_simps [simp]:
  "ipc_runtime (channel_send ch r st) = ipc_runtime st"
  "ipc_mount_status (channel_send ch r st) = ipc_mount_status st"
  "ipc_provider_routes (channel_send ch r st) = ipc_provider_routes st"
  "ipc_pending_reads (channel_send ch r st) = ipc_pending_reads st"
  "ipc_next_read_request_id (channel_send ch r st) = ipc_next_read_request_id st"
  "ipc_channels (channel_send ch r st) = (ipc_channels st)[ch := ipc_channels st ! ch @ [r]]"
  by (simp_all add: channel_send_def)

lemma fold_remove_pending:
  "ipc_runtime (fold (\<lambda>(k, _). remove_pending_read k) xs st) = ipc_runtime st"
  "ipc_mount_status (fold (\<lambda>(k, _). remove_pending_read k) xs st) = ipc_mount_status st"
  "ipc_provider_routes (fold (\<lambda>(k, _). remove_pending_read k) xs st) = ipc_provider_routes st"
  "ipc_next_read_request_id (fold (\<lambda>(k, _). remove_pending_read k) xs st) = ipc_next_read_request_id st"
  "ipc_channels (fold (\<lambda>(k, _). remove_pending_read k) xs st) = ipc_channels st"
  "ipc_pending_reads (fold (\<lambda>(k, _). remove_pending_read k) xs st) =
     filter (\<lambda>(k, _). k \<notin> fst ` set xs) (ipc_pending_reads st)"
  by (induction xs arbitrary: st)
    (auto simp: bt_remove_def filter_empty_conv intro!: filter_cong split: prod.splits)

lemma fold_channel_send:
  "ipc_runtime (fold (\<lambda>(_, p). channel_send (pending_sender p) r) xs st) = ipc_runtime st"
  "ipc_mount_status (fold (\<lambda>(_, p). channel_send (pending_sender p) r) xs st) = ipc_mount_status st"
  "ipc_provider_routes (fold (\<lambda>(_, p). channel_send (pending_sender p) r) xs st) = ipc_provider_routes st"
  "ipc_next_read_request_id (fold (\<lambda>(_, p). channel_send (pending_sender p) r) xs st) = ipc_next_read_request_id st"
  "ipc_pending_reads (fold (\<lambda>(_, p). channel_send (pending_sender p) r) xs st) = ipc_pending_reads st"
  "length (ipc_channels (fold (\<lambda>(_, p). channel_send (pending_sender p) r) xs st)) = length (ipc_channels st)"
  by (induction xs arbitrary: st) (auto split: prod.splits)

lemma fold_channel_send_nth:
  assumes "distinct (map (\<lambda>x. pending_sender (snd x)) xs)" and "i < length (ipc_channels st)"
  shows "ipc_channels (fold (\<lambda>(_, p). channel_send (pending_sender p) r) xs st) ! i =
           ipc_channels st ! i @ (if i \<in> (\<lambda>x. pending_sender (snd x)) ` set xs then [r] else [])"
  using assms
proof (induction xs arbitrary: st)
  case (Cons x xs)
  obtain k p where x: "x = (k, p)" by (cases x)
  let ?st = "channel_send (pending_sender p) r st"
  from Cons.prems have d: "distinct (map (\<lambda>x. pending_sender (snd x)) xs)"
    and new: "pending_sender p \<notin> (\<lambda>x. pending_sender (snd x)) ` set xs" and i: "i < length (ipc_channels ?st)"
    by (auto simp: x)
  have "ipc_channels ?st ! i = ipc_channels st ! i @ (if i = pending_sender p then [r] else [])"
    using Cons.prems(2) by (simp add: nth_list_update)
  with Cons.IH [OF d i] new show ?case by (auto simp: x)
qed simp

text \<open>The reads of one provider, and the rest.\<close>

abbreviation reads_of :: "u64 \<Rightarrow> IpcState \<Rightarrow> (u64 \<times> PendingRead) list" where
  "reads_of pid st \<equiv> filter (\<lambda>(_, p). pending_provider_id p = pid) (ipc_pending_reads st)"

abbreviation disconnected_error :: io_error where
  "disconnected_error \<equiv> io_error_new KBrokenPipe ''provider disconnected''"

lemma filter_not_keys:
  assumes "bt_wf m"
  shows "filter (\<lambda>(k, _). k \<notin> fst ` {x \<in> set m. case x of (_, p) \<Rightarrow> P p}) m = filter (\<lambda>(_, p). \<not> P p) m"
proof (rule filter_cong [OF refl])
  fix x assume x: "x \<in> set m"
  obtain k v where kv: "x = (k, v)" by (cases x)
  have "k \<in> fst ` {x \<in> set m. case x of (_, p) \<Rightarrow> P p} \<longleftrightarrow> P v"
  proof
    assume "k \<in> fst ` {x \<in> set m. case x of (_, p) \<Rightarrow> P p}"
    then obtain v' where "(k, v') \<in> set m" "P v'" by auto
    with x kv assms show "P v" using bt_entries_get by fastforce
  qed (use x kv in force)
  with kv show "(case x of (k, _) \<Rightarrow> k \<notin> fst ` {x \<in> set m. case x of (_, p) \<Rightarrow> P p}) = (case x of (_, p) \<Rightarrow> \<not> P p)"
    by simp
qed

lemma fail_provider_pending_reads_simps:
  "ipc_runtime (fail_provider_pending_reads pid kind st) = ipc_runtime st"
  "ipc_mount_status (fail_provider_pending_reads pid kind st) = ipc_mount_status st"
  "ipc_provider_routes (fail_provider_pending_reads pid kind st) = ipc_provider_routes st"
  "ipc_next_read_request_id (fail_provider_pending_reads pid kind st) = ipc_next_read_request_id st"
  "length (ipc_channels (fail_provider_pending_reads pid kind st)) = length (ipc_channels st)"
  "bt_wf (ipc_pending_reads st) \<Longrightarrow>
   ipc_pending_reads (fail_provider_pending_reads pid kind st) =
     filter (\<lambda>(_, p). pending_provider_id p \<noteq> pid) (ipc_pending_reads st)"
  by (simp_all add: fail_provider_pending_reads_def Let_def fold_channel_send fold_remove_pending filter_not_keys)

lemma drop_provider_route_simps [simp]:
  "ipc_runtime (drop_provider_route pid st) = ipc_runtime st"
  "ipc_mount_status (drop_provider_route pid st) = ipc_mount_status st"
  "ipc_provider_routes (drop_provider_route pid st) = bt_remove pid (ipc_provider_routes st)"
  "ipc_pending_reads (drop_provider_route pid st) = ipc_pending_reads st"
  "ipc_next_read_request_id (drop_provider_route pid st) = ipc_next_read_request_id st"
  "ipc_channels (drop_provider_route pid st) = ipc_channels st"
  by (simp_all add: drop_provider_route_def)

text \<open>The three locked sections of a disconnect.\<close>

lemma disconnect_provider_id_sections:
  "pid \<noteq> 0 \<Longrightarrow> disconnect_provider_id pid st = fail_provider_pending_reads pid KBrokenPipe
     ((drop_provider_route pid st)\<lparr>ipc_runtime := fst (unregister_provider (ipc_runtime st) pid)\<rparr>)"
  "disconnect_provider_id 0 st = drop_provider_route 0 st"
  by (simp_all add: disconnect_provider_id_def provider_id_from_raw_def)

lemma disconnect_provider_id_simps [simp]:
  "ipc_mount_status (disconnect_provider_id pid st) = ipc_mount_status st"
  "ipc_provider_routes (disconnect_provider_id pid st) = bt_remove pid (ipc_provider_routes st)"
  "ipc_next_read_request_id (disconnect_provider_id pid st) = ipc_next_read_request_id st"
  "length (ipc_channels (disconnect_provider_id pid st)) = length (ipc_channels st)"
  "ipc_runtime (disconnect_provider_id pid st) =
     (if pid = 0 then ipc_runtime st else fst (unregister_provider (ipc_runtime st) pid))"
  by (simp_all add: disconnect_provider_id_def Let_def provider_id_from_raw_def fail_provider_pending_reads_simps)


section \<open>The invariant\<close>

text \<open>Every waiting read is filed under its own id, was validated, and owns an empty mailbox of
  its own; a mailbox receives at most one answer.\<close>

definition pending_ok :: "IpcState \<Rightarrow> u64 \<Rightarrow> PendingRead \<Rightarrow> bool" where
  "pending_ok st k p \<longleftrightarrow>
     rr_request_id (pending_request p) = k \<and>
     rr_provider_id (pending_request p) = pending_provider_id p \<and>
     read_request_ok (pending_request p) \<and>
     pending_sender p < length (ipc_channels st) \<and> ipc_channels st ! pending_sender p = []"

definition ipc_inv :: "IpcState \<Rightarrow> bool" where
  "ipc_inv st \<longleftrightarrow>
     bt_wf (ipc_provider_routes st) \<and> bt_wf (ipc_pending_reads st) \<and>
     (\<forall>k p. bt_get (ipc_pending_reads st) k = Some p \<longrightarrow> pending_ok st k p) \<and>
     (\<forall>k k' p p'. bt_get (ipc_pending_reads st) k = Some p \<longrightarrow>
        bt_get (ipc_pending_reads st) k' = Some p' \<longrightarrow> pending_sender p = pending_sender p' \<longrightarrow> k = k') \<and>
     (\<forall>mailbox\<in>set (ipc_channels st). length mailbox \<le> 1)"

lemma ipc_invD:
  assumes "ipc_inv st"
  shows "bt_wf (ipc_provider_routes st)" and "bt_wf (ipc_pending_reads st)"
    and "\<And>k p. bt_get (ipc_pending_reads st) k = Some p \<Longrightarrow> pending_ok st k p"
    and "\<And>k k' p p'. bt_get (ipc_pending_reads st) k = Some p \<Longrightarrow>
        bt_get (ipc_pending_reads st) k' = Some p' \<Longrightarrow> pending_sender p = pending_sender p' \<Longrightarrow> k = k'"
    and "\<And>mailbox. mailbox \<in> set (ipc_channels st) \<Longrightarrow> length mailbox \<le> 1"
  using assms unfolding ipc_inv_def by blast+

lemma ipc_invI:
  assumes "bt_wf (ipc_provider_routes st)" and "bt_wf (ipc_pending_reads st)"
    and "\<And>k p. bt_get (ipc_pending_reads st) k = Some p \<Longrightarrow> pending_ok st k p"
    and "\<And>k k' p p'. bt_get (ipc_pending_reads st) k = Some p \<Longrightarrow>
        bt_get (ipc_pending_reads st) k' = Some p' \<Longrightarrow> pending_sender p = pending_sender p' \<Longrightarrow> k = k'"
    and "\<And>mailbox. mailbox \<in> set (ipc_channels st) \<Longrightarrow> length mailbox \<le> 1"
  shows "ipc_inv st"
  using assms unfolding ipc_inv_def by blast

lemma ipc_inv_new: "ipc_inv (ipc_state_new rt)"
  by (simp add: ipc_inv_def ipc_state_new_def)

lemma ipc_inv_runtime: "ipc_inv st \<Longrightarrow> ipc_inv (st\<lparr>ipc_runtime := rt\<rparr>)"
  by (simp add: ipc_inv_def pending_ok_def)

lemma set_mount_status_inv: "ipc_inv st \<Longrightarrow> ipc_inv (set_mount_status ms st)"
  by (simp add: ipc_inv_def pending_ok_def set_mount_status_def)

lemma next_request_id_inv: "ipc_inv st \<Longrightarrow> ipc_inv (fst (next_provider_read_request_id st))"
  by (simp add: ipc_inv_def pending_ok_def next_provider_read_request_id_def)

lemma register_provider_route_inv: "ipc_inv st \<Longrightarrow> ipc_inv (register_provider_route pid token c st)"
  by (simp add: ipc_inv_def pending_ok_def register_provider_route_def)

lemma remove_pending_read_inv:
  assumes "ipc_inv st"
  shows "ipc_inv (remove_pending_read k st)"
  using ipc_invD [OF assms] by (intro ipc_invI) (auto simp: pending_ok_def split: if_splits)

lemma enter_pending_read_eq:
  "enter_pending_read request st =
     (st\<lparr>ipc_channels := ipc_channels st @ [[]],
         ipc_pending_reads := bt_insert (rr_request_id request)
           \<lparr>pending_provider_id = rr_provider_id request, pending_request = request,
            pending_sender = length (ipc_channels st)\<rparr> (ipc_pending_reads st)\<rparr>,
      if bt_get (ipc_pending_reads st) (rr_request_id request) \<noteq> None
      then Inl (invalid_data ''duplicate provider read request id'') else Inr (length (ipc_channels st)))"
  by (simp add: enter_pending_read_def channel_new_def)

lemma enter_pending_read_inv:
  assumes "ipc_inv st" and "read_request_ok request"
  shows "ipc_inv (fst (enter_pending_read request st))"
proof (rule ipc_invI)
  note inv = ipc_invD [OF assms(1)]
  let ?st = "fst (enter_pending_read request st)"
  let ?new = "\<lparr>pending_provider_id = rr_provider_id request, pending_request = request,
     pending_sender = length (ipc_channels st)\<rparr>"
  have old: "pending_sender p < length (ipc_channels st)" if "bt_get (ipc_pending_reads st) k = Some p" for k p
    using inv(3) [OF that] by (simp add: pending_ok_def)
  have get: "bt_get (ipc_pending_reads ?st) k =
      (if k = rr_request_id request then Some ?new else bt_get (ipc_pending_reads st) k)" for k
    by (simp add: enter_pending_read_eq)
  have chans: "ipc_channels ?st = ipc_channels st @ [[]]" by (simp add: enter_pending_read_eq)
  show "bt_wf (ipc_provider_routes ?st)" and "bt_wf (ipc_pending_reads ?st)"
    using inv(1,2) by (simp_all add: enter_pending_read_eq)
  show "length m \<le> 1" if "m \<in> set (ipc_channels ?st)" for m
    using that inv(5) by (auto simp: chans)
  show "pending_ok ?st k p" if k: "bt_get (ipc_pending_reads ?st) k = Some p" for k p
  proof (cases "k = rr_request_id request")
    case True
    with k have p: "p = ?new" by (simp add: get)
    from True assms(2) show ?thesis unfolding p by (simp add: pending_ok_def chans)
  next
    case False
    with k have "bt_get (ipc_pending_reads st) k = Some p" by (simp add: get)
    from inv(3) [OF this] show ?thesis by (simp add: pending_ok_def chans nth_append)
  qed
  show "k = k'" if "bt_get (ipc_pending_reads ?st) k = Some p" "bt_get (ipc_pending_reads ?st) k' = Some p'"
    "pending_sender p = pending_sender p'" for k k' p p'
    using that old [of k p] old [of k' p'] inv(4) [of k p k' p'] by (auto simp: get split: if_splits)
qed

lemma deliver_inv:
  assumes "ipc_inv st" and "bt_get (ipc_pending_reads st) k = Some p"
  shows "ipc_inv (channel_send (pending_sender p) r (remove_pending_read k st))"
proof (rule ipc_invI)
  note inv = ipc_invD [OF assms(1)]
  let ?st = "channel_send (pending_sender p) r (remove_pending_read k st)"
  from inv(3) [OF assms(2)] have p: "pending_sender p < length (ipc_channels st)"
    "ipc_channels st ! pending_sender p = []" by (simp_all add: pending_ok_def)
  show "bt_wf (ipc_provider_routes ?st)" and "bt_wf (ipc_pending_reads ?st)"
    using inv(1,2) by simp_all
  show "length m \<le> 1" if "m \<in> set (ipc_channels ?st)" for m
  proof -
    from that p have "m = [r] \<or> m \<in> set (ipc_channels st)"
      by (auto dest: set_update_subset_insert [THEN subsetD])
    with inv(5) show ?thesis by auto
  qed
  show "pending_ok ?st k' p'" if k': "bt_get (ipc_pending_reads ?st) k' = Some p'" for k' p'
  proof -
    from k' have old: "bt_get (ipc_pending_reads st) k' = Some p'" "k' \<noteq> k" by (auto split: if_splits)
    with inv(4) [OF assms(2) old(1)] have "pending_sender p' \<noteq> pending_sender p" by auto
    with inv(3) [OF old(1)] show ?thesis by (simp add: pending_ok_def)
  qed
  show "a = b" if "bt_get (ipc_pending_reads ?st) a = Some q" "bt_get (ipc_pending_reads ?st) b = Some q'"
    "pending_sender q = pending_sender q'" for a b q q'
    using that inv(4) [of a q b q'] by (auto split: if_splits)
qed

text \<open>The outcome of an answer: an ill-formed or unmatched one is an error of the connection
  that sent it and changes nothing; a matched one ends the read with the response if it came
  from the provider's connection and fits the request, and with an error otherwise.\<close>

definition answer_of :: "ProviderId list \<Rightarrow> PendingRead \<Rightarrow> ProviderReadResponse \<Rightarrow> ProviderReadResponse io_result" where
  "answer_of registered p response =
     (if pending_provider_id p \<in> set registered
      then map_ok (\<lambda>_. response) (validate_provider_read_response_for_request (pending_request p) response)
      else Inl (io_error_new KPermissionDenied
             ''provider read response came from the wrong provider connection''))"

lemma complete_provider_read_cases:
  obtains (invalid) e where "read_response_from_body body = Inl e"
      "complete_provider_read registered body st = (st, Inl e)"
  | (unmatched) response where "read_response_from_body body = Inr response"
      "bt_get (ipc_pending_reads st) (rs_request_id response) = None"
      "complete_provider_read registered body st =
         (st, Inl (invalid_data ''provider read response does not match a pending request''))"
  | (answered) response p where "read_response_from_body body = Inr response"
      "bt_get (ipc_pending_reads st) (rs_request_id response) = Some p"
      "complete_provider_read registered body st =
         (channel_send (pending_sender p) (answer_of registered p response)
            (remove_pending_read (rs_request_id response) st), Inr ())"
proof (cases "read_response_from_body body")
  case (Inl e)
  then show ?thesis by (intro invalid) (simp_all add: complete_provider_read_def)
next
  case (Inr response)
  show ?thesis
  proof (cases "bt_get (ipc_pending_reads st) (rs_request_id response)")
    case None
    with Inr show ?thesis by (intro unmatched) (simp_all add: complete_provider_read_def)
  next
    case (Some p)
    have "list_ex (\<lambda>pid. pid = pending_provider_id p) registered \<longleftrightarrow> pending_provider_id p \<in> set registered"
      by (auto simp: list_ex_iff)
    with Inr Some show ?thesis
      by (intro answered) (simp_all add: complete_provider_read_def answer_of_def Let_def)
  qed
qed

lemma complete_provider_read_inv:
  assumes "ipc_inv st"
  shows "ipc_inv (fst (complete_provider_read registered body st))"
  by (rule complete_provider_read_cases [of body registered st]) (simp_all add: assms deliver_inv)

lemma answer_of_Inr:
  "answer_of registered p response = Inr r \<longleftrightarrow>
     r = response \<and> pending_provider_id p \<in> set registered \<and>
     validate_provider_read_response_for_request (pending_request p) response = Inr ()"
  by (auto simp: answer_of_def outcome_simps)

lemma bt_wf_filter: "bt_wf m \<Longrightarrow> bt_wf (filter P m)"
  by (auto simp: bt_wf_def sorted_wrt_map sorted_wrt_filter)

lemma bt_get_filter:
  assumes "bt_wf m"
  shows "bt_get (filter (\<lambda>(_, p). P p) m) k =
           (case bt_get m k of None \<Rightarrow> None | Some p \<Rightarrow> if P p then Some p else None)"
proof (cases "bt_get (filter (\<lambda>(_, p). P p) m) k")
  case (Some p)
  have "bt_wf (filter (\<lambda>(_, p). P p) m)"
    using assms by (rule bt_wf_filter)
  with Some have "(k, p) \<in> set m \<and> P p" using bt_entries_get by fastforce
  with assms Some show ?thesis by (simp add: bt_entries_get)
next
  case None
  have wf: "bt_wf (filter (\<lambda>(_, p). P p) m)"
    using assms by (rule bt_wf_filter)
  have "\<not> P p" if "bt_get m k = Some p" for p
    using that None bt_entries_get [OF wf, of k p] bt_entries_get [OF assms, of k p] by auto
  with None show ?thesis by (auto split: option.splits)
qed

lemma reads_of_senders_distinct:
  assumes "ipc_inv st"
  shows "distinct (map (\<lambda>x. pending_sender (snd x)) (reads_of pid st))"
proof -
  note inv = ipc_invD [OF assms]
  have wf: "bt_wf (reads_of pid st)" by (rule bt_wf_filter [OF inv(2)])
  have "x = y" if "x \<in> set (reads_of pid st)" "y \<in> set (reads_of pid st)"
    "pending_sender (snd x) = pending_sender (snd y)" for x y
  proof -
    obtain k p k' p' where xy: "x = (k, p)" "y = (k', p')" by (cases x, cases y)
    with that(1,2) have "(k, p) \<in> set (ipc_pending_reads st)" "(k', p') \<in> set (ipc_pending_reads st)" by auto
    then have g: "bt_get (ipc_pending_reads st) k = Some p" "bt_get (ipc_pending_reads st) k' = Some p'"
      using bt_entries_get [OF inv(2)] by blast+
    from that(3) xy have "pending_sender p = pending_sender p'" by simp
    from inv(4) [OF g this] g xy show ?thesis by simp
  qed
  then have "inj_on (\<lambda>x. pending_sender (snd x)) (set (reads_of pid st))" by (rule inj_onI)
  moreover have "distinct (reads_of pid st)"
    using bt.entries_distinct [OF wf] by (rule distinct_map [THEN iffD1, THEN conjunct1])
  ultimately show ?thesis by (simp add: distinct_map)
qed

lemma fail_pending:
  assumes "ipc_inv st"
  shows "bt_get (ipc_pending_reads (fail_provider_pending_reads pid kind st)) k =
           (case bt_get (ipc_pending_reads st) k of
              None \<Rightarrow> None | Some p \<Rightarrow> if pending_provider_id p = pid then None else Some p)"
  using ipc_invD(2) [OF assms]
  by (simp add: fail_provider_pending_reads_simps bt_get_filter split: option.splits)

lemma fail_channels:
  assumes "ipc_inv st" and "i < length (ipc_channels st)"
  shows "ipc_channels (fail_provider_pending_reads pid kind st) ! i =
           (if \<exists>k p. bt_get (ipc_pending_reads st) k = Some p \<and> pending_provider_id p = pid \<and> pending_sender p = i
            then [Inl (io_error_new kind ''provider disconnected'')] else ipc_channels st ! i)"
proof -
  note inv = ipc_invD [OF assms(1)]
  have mem: "i \<in> (\<lambda>x. pending_sender (snd x)) ` set (reads_of pid st) \<longleftrightarrow>
      (\<exists>k p. bt_get (ipc_pending_reads st) k = Some p \<and> pending_provider_id p = pid \<and> pending_sender p = i)"
  proof
    assume "i \<in> (\<lambda>x. pending_sender (snd x)) ` set (reads_of pid st)"
    then obtain k p where "(k, p) \<in> set (ipc_pending_reads st)" "pending_provider_id p = pid" "pending_sender p = i"
      by auto
    then show "\<exists>k p. bt_get (ipc_pending_reads st) k = Some p \<and> pending_provider_id p = pid \<and> pending_sender p = i"
      using bt_entries_get [OF inv(2), of k p] by blast
  next
    assume "\<exists>k p. bt_get (ipc_pending_reads st) k = Some p \<and> pending_provider_id p = pid \<and> pending_sender p = i"
    then obtain k p where "bt_get (ipc_pending_reads st) k = Some p" "pending_provider_id p = pid" "pending_sender p = i"
      by blast
    then have "(k, p) \<in> set (reads_of pid st)" "pending_sender (snd (k, p)) = i"
      using bt_entries_get [OF inv(2), of k p] by auto
    then show "i \<in> (\<lambda>x. pending_sender (snd x)) ` set (reads_of pid st)" by (metis image_eqI)
  qed
  have "ipc_channels (fail_provider_pending_reads pid kind st) ! i =
      ipc_channels st ! i @ (if i \<in> (\<lambda>x. pending_sender (snd x)) ` set (reads_of pid st)
        then [Inl (io_error_new kind ''provider disconnected'')] else [])"
    using assms(2) reads_of_senders_distinct [OF assms(1), of pid]
    by (simp add: fail_provider_pending_reads_def Let_def fold_channel_send_nth fold_remove_pending)
  moreover have "ipc_channels st ! i = []"
    if "\<exists>k p. bt_get (ipc_pending_reads st) k = Some p \<and> pending_provider_id p = pid \<and> pending_sender p = i"
    using that inv(3) by (auto simp: pending_ok_def)
  ultimately show ?thesis unfolding mem by auto
qed

lemma drop_provider_route_inv: "ipc_inv st \<Longrightarrow> ipc_inv (drop_provider_route pid st)"
  by (simp add: ipc_inv_def pending_ok_def)

lemma disconnect_pending:
  assumes "ipc_inv st" and "pid \<noteq> 0"
  shows "bt_get (ipc_pending_reads (disconnect_provider_id pid st)) k =
           (case bt_get (ipc_pending_reads st) k of
              None \<Rightarrow> None | Some p \<Rightarrow> if pending_provider_id p = pid then None else Some p)"
  using fail_pending [OF ipc_inv_runtime [OF drop_provider_route_inv [OF assms(1)]]]
  by (simp add: disconnect_provider_id_sections assms(2))

lemma disconnect_channels:
  assumes "ipc_inv st" and "pid \<noteq> 0" and "i < length (ipc_channels st)"
  shows "ipc_channels (disconnect_provider_id pid st) ! i =
           (if \<exists>k p. bt_get (ipc_pending_reads st) k = Some p \<and> pending_provider_id p = pid \<and> pending_sender p = i
            then [Inl disconnected_error] else ipc_channels st ! i)"
  unfolding disconnect_provider_id_sections(1) [OF assms(2)]
  by (subst fail_channels [OF ipc_inv_runtime [OF drop_provider_route_inv [OF assms(1)]]]) (auto simp: assms(3))

lemma unregister_provider_known:
  "bt_get (rt_providers (fst (unregister_provider rt pid))) q \<noteq> None \<longleftrightarrow> bt_get (rt_providers rt) q \<noteq> None"
  by (auto simp: unregister_provider_def split: option.splits)

lemma has_provider_unregister:
  "has_provider (fst (unregister_provider rt pid)) q \<longleftrightarrow> q \<noteq> pid \<and> has_provider rt q"
  by (auto simp: has_provider_def unregister_provider_def split: option.splits)

lemma has_provider_disconnect:
  "has_provider (ipc_runtime (disconnect_provider_id pid st)) q \<longleftrightarrow> (q = pid \<longrightarrow> pid = 0) \<and> has_provider (ipc_runtime st) q"
  by (simp add: has_provider_unregister)

lemma fail_provider_pending_reads_inv:
  assumes "ipc_inv st"
  shows "ipc_inv (fail_provider_pending_reads pid kind st)"
proof -
  note inv = ipc_invD [OF assms]
  let ?st = "fail_provider_pending_reads pid kind st"
  note chans = fail_channels [OF assms] and pend = fail_pending [OF assms]
  have old: "bt_get (ipc_pending_reads st) k = Some p \<and> pending_provider_id p \<noteq> pid"
    if "bt_get (ipc_pending_reads ?st) k = Some p" for k p
    using that by (auto simp: pend split: option.splits if_splits)
  show ?thesis
  proof (rule ipc_invI)
    show "bt_wf (ipc_provider_routes ?st)" and "bt_wf (ipc_pending_reads ?st)"
      using inv(1,2) bt_wf_filter by (simp_all add: fail_provider_pending_reads_simps)
    show "length m \<le> 1" if "m \<in> set (ipc_channels ?st)" for m
    proof -
      from that obtain i where i: "i < length (ipc_channels st)" "m = ipc_channels ?st ! i"
        by (auto simp: in_set_conv_nth fail_provider_pending_reads_simps)
      show ?thesis using inv(5) [OF nth_mem [OF i(1)]] unfolding i(2) chans [OF i(1)] by simp
    qed
    show "pending_ok ?st k p" if k: "bt_get (ipc_pending_reads ?st) k = Some p" for k p
    proof -
      from old [OF k] have "bt_get (ipc_pending_reads st) k = Some p" and other: "pending_provider_id p \<noteq> pid" by auto
      note ok = inv(3) [OF this(1)] and g = this(1)
      from ok have len: "pending_sender p < length (ipc_channels st)" by (simp add: pending_ok_def)
      have "\<not> (\<exists>k' p'. bt_get (ipc_pending_reads st) k' = Some p' \<and> pending_provider_id p' = pid \<and>
          pending_sender p' = pending_sender p)"
      proof (rule notI, elim exE conjE)
        fix k' p'
        assume g': "bt_get (ipc_pending_reads st) k' = Some p'" "pending_provider_id p' = pid"
          "pending_sender p' = pending_sender p"
        from inv(4) [OF g'(1) g g'(3)] g g'(1,2) other show False by simp
      qed
      with chans [OF len] ok show ?thesis by (simp add: pending_ok_def fail_provider_pending_reads_simps)
    qed
    show "a = b" if "bt_get (ipc_pending_reads ?st) a = Some q" "bt_get (ipc_pending_reads ?st) b = Some q'"
      "pending_sender q = pending_sender q'" for a b q q'
      using inv(4) [of a q b q'] old [OF that(1)] old [OF that(2)] that(3) by blast
  qed
qed

lemma disconnect_provider_id_inv:
  assumes "ipc_inv st"
  shows "ipc_inv (disconnect_provider_id pid st)"
  using ipc_inv_runtime [OF drop_provider_route_inv [OF assms]] drop_provider_route_inv [OF assms]
  by (cases "pid = 0") (simp_all add: disconnect_provider_id_sections fail_provider_pending_reads_inv)

lemma finish_routed_read_inv: "ipc_inv st \<Longrightarrow> ipc_inv (fst (finish_routed_read k ch st))"
  by (auto simp: finish_routed_read_def remove_pending_read_inv split: Recv.splits)

end
