(* ===== verification/Materialize.thy ===== *)
theory Materialize
  imports Ipc_State
begin

text \<open>
  Materialisation in \<open>crates/fuse-promise-ipc/src/lib.rs\<close>: copying a promised file or
  directory tree to a local directory. A request is planned against the runtime and the
  target file system, directories are created, files are copied chunk by chunk from the
  provider, metadata is applied, the nodes are marked as materialised, and on any failure
  what was created is removed again. Progress is reported through a callback that can cancel.
\<close>

section \<open>Data\<close>

record MaterializeEntryPlan =
  me_relative_path :: string
  me_target_path :: path
  me_kind :: NodeKind
  me_size :: u64
  me_mode :: u32
  me_mtime_nsec :: i64

record MaterializePlan =
  mpl_promise_id :: string
  mpl_target_path :: path
  mpl_conflict_policy :: MaterializeConflictPolicy
  mpl_entries :: "MaterializeEntryPlan list"

record FileIdentity =
  fi_dev :: u64
  fi_ino :: u64

datatype MaterializeTargetKind = File | Directory

record CreatedTarget =
  ct_path :: path
  ct_identity :: FileIdentity
  ct_kind :: MaterializeTargetKind
  ct_remove_on_cleanup :: bool

record MaterializeProgress =
  mpr_target_path :: path
  mpr_counts :: MaterializeCounts

record MaterializeOperationError =
  moe_status :: Status
  moe_progress :: "MaterializeProgress option"

record MaterializeFileOutcome =
  mfo_bytes_written :: u64
  mfo_target :: CreatedTarget

record MaterializeFileTarget =
  mft_file :: fd
  mft_write_target :: CreatedTarget
  mft_final_path :: path
  mft_final_remove_on_cleanup :: bool
  mft_replace_on_success :: bool

record MaterializeWriteError =
  mwe_status :: Status
  mwe_target :: "CreatedTarget option"
  mwe_bytes_written :: u64

definition identity_from_metadata :: "Metadata \<Rightarrow> FileIdentity" where
  "identity_from_metadata metadata = \<lparr>fi_dev = md_dev metadata, fi_ino = md_ino metadata\<rparr>"

definition without_created_target :: "Status \<Rightarrow> MaterializeWriteError" where
  "without_created_target status = \<lparr>mwe_status = status, mwe_target = None, mwe_bytes_written = 0\<rparr>"

definition with_target :: "Status \<Rightarrow> CreatedTarget \<Rightarrow> u64 \<Rightarrow> MaterializeWriteError" where
  "with_target status target bytes_written =
     \<lparr>mwe_status = status, mwe_target = Some target, mwe_bytes_written = bytes_written\<rparr>"

definition without_progress :: "Status \<Rightarrow> MaterializeOperationError" where
  "without_progress status = \<lparr>moe_status = status, moe_progress = None\<rparr>"

definition with_progress :: "Status \<Rightarrow> MaterializeProgress \<Rightarrow> MaterializeOperationError" where
  "with_progress status progress = \<lparr>moe_status = status, moe_progress = Some progress\<rparr>"

section \<open>Progress\<close>

definition file_entries :: "MaterializeEntryPlan list \<Rightarrow> MaterializeEntryPlan list" where
  "file_entries entries = filter (\<lambda>e. me_kind e = NodeKind.File) entries"

definition directory_entries :: "MaterializeEntryPlan list \<Rightarrow> MaterializeEntryPlan list" where
  "directory_entries entries = filter (\<lambda>e. me_kind e = NodeKind.Directory) entries"

definition progress_new :: "path \<Rightarrow> MaterializeEntryPlan list \<Rightarrow> MaterializeProgress" where
  "progress_new target_path entries =
     \<lparr>mpr_target_path = target_path,
      mpr_counts =
        \<lparr>mc_entries_done = 0, mc_entries_total = of_nat (length entries),
         mc_bytes_written = 0, mc_bytes_total = sum_list (map me_size (file_entries entries)),
         mc_files_written = 0, mc_files_total = of_nat (length (file_entries entries)),
         mc_directories_created = 0, mc_directories_total = of_nat (length (directory_entries entries))\<rparr>\<rparr>"

definition has_partial :: "MaterializeProgress \<Rightarrow> bool" where
  "has_partial p \<longleftrightarrow>
     mc_bytes_written (mpr_counts p) > 0 \<or> mc_files_written (mpr_counts p) > 0 \<or>
     mc_directories_created (mpr_counts p) > 0"

definition progress_to_body :: "MaterializeProgress \<Rightarrow> MaterializeProgressBody" where
  "progress_to_body p =
     \<lparr>mp_target_path = to_string_lossy (mpr_target_path p), mp_counts = mpr_counts p\<rparr>"

definition to_failed_body :: "MaterializeOperationError \<Rightarrow> MaterializeProgress \<Rightarrow> MaterializeFailedBody" where
  "to_failed_body e progress =
     \<lparr>mf_code = status_to_error_code (moe_status e), mf_message = status_as_str (moe_status e),
      mf_target_path = to_string_lossy (mpr_target_path progress), mf_counts = mpr_counts progress\<rparr>"

abbreviation update_counts :: "(MaterializeCounts \<Rightarrow> MaterializeCounts) \<Rightarrow> MaterializeProgress \<Rightarrow> MaterializeProgress" where
  "update_counts f p \<equiv> p\<lparr>mpr_counts := f (mpr_counts p)\<rparr>"

section \<open>System calls and errors\<close>

text \<open>A system call made by a daemon thread, with its error as a status.\<close>

definition on_os :: "('w \<Rightarrow> 'w \<times> 'a io_result) \<Rightarrow> 'w World \<Rightarrow> 'w World \<times> 'a result" where
  "on_os call w = (case call (w_os w) of (o', r) \<Rightarrow> (w\<lparr>w_os := o'\<rparr>, map_err io_error_to_status r))"

section \<open>Planning\<close>

definition validate_target_dir :: "'w Os \<Rightarrow> 'w \<Rightarrow> path \<Rightarrow> unit result" where
  "validate_target_dir os o' target_dir =
     res_bind (fail_if (\<not> path_is_absolute target_dir) Status.InvalidArgument) (\<lambda>_.
     res_bind (map_err io_error_to_status (os_symlink_metadata os o' target_dir)) (\<lambda>metadata.
     fail_if (md_type metadata \<noteq> FtDir) Status.InvalidArgument))"

definition validate_existing_materialize_target ::
    "MaterializeEntryPlan \<Rightarrow> Metadata \<Rightarrow> MaterializeConflictPolicy \<Rightarrow> unit result" where
  "validate_existing_materialize_target entry metadata conflict_policy =
     (if md_type metadata = FtSymlink then Inl Status.InvalidArgument
      else case conflict_policy of
        MaterializeConflictPolicy.Fail \<Rightarrow> Inl Status.AlreadyExists
      | MaterializeConflictPolicy.Overwrite \<Rightarrow>
          if me_kind entry = NodeKind.Directory \<and> md_type metadata = FtDir \<or>
             me_kind entry = NodeKind.File \<and> md_type metadata = FtFile
          then Inr () else Inl Status.AlreadyExists
      | MaterializeConflictPolicy.Rename \<Rightarrow> Inl Status.AlreadyExists)"

fun preflight_materialize_targets ::
    "'w Os \<Rightarrow> 'w \<Rightarrow> MaterializeEntryPlan list \<Rightarrow> MaterializeConflictPolicy \<Rightarrow> unit result" where
  "preflight_materialize_targets os o' [] conflict_policy = Inr ()"
| "preflight_materialize_targets os o' (entry # entries) conflict_policy =
     res_bind
       (case os_symlink_metadata os o' (me_target_path entry) of
          Inr metadata \<Rightarrow> validate_existing_materialize_target entry metadata conflict_policy
        | Inl error \<Rightarrow> if err_kind error = KNotFound then Inr () else Inl (io_error_to_status error))
       (\<lambda>_. preflight_materialize_targets os o' entries conflict_policy)"

definition rename_candidate_name :: "string \<Rightarrow> NodeKind \<Rightarrow> nat \<Rightarrow> string" where
  "rename_candidate_name target_name target_kind attempt =
     (let suffix = '' ('' @ decimal attempt @ '')'' in
      if target_kind = NodeKind.Directory then target_name @ suffix
      else case path_extension target_name of
          None \<Rightarrow> target_name @ suffix
        | Some extension \<Rightarrow>
            if \<not> utf8_valid extension then target_name @ suffix
            else case path_file_stem target_name of
                None \<Rightarrow> target_name @ suffix
              | Some stem \<Rightarrow>
                  if \<not> utf8_valid stem then target_name @ suffix
                  else stem @ suffix @ ''.'' @ extension)"

fun try_candidates :: "'w Os \<Rightarrow> 'w \<Rightarrow> path \<Rightarrow> string \<Rightarrow> NodeKind \<Rightarrow> nat list \<Rightarrow> path result" where
  "try_candidates os o' target_dir target_name target_kind [] = Inl Status.AlreadyExists"
| "try_candidates os o' target_dir target_name target_kind (attempt # attempts) =
     (let candidate_name = (if attempt = 0 then target_name
                            else rename_candidate_name target_name target_kind attempt);
          candidate = path_join target_dir candidate_name in
      case os_symlink_metadata os o' candidate of
        Inr _ \<Rightarrow> try_candidates os o' target_dir target_name target_kind attempts
      | Inl error \<Rightarrow>
          if err_kind error = KNotFound then Inr candidate else Inl (io_error_to_status error))"

definition unique_materialize_target_path :: "'w Os \<Rightarrow> 'w \<Rightarrow> path \<Rightarrow> string \<Rightarrow> NodeKind \<Rightarrow> path result" where
  "unique_materialize_target_path os o' target_dir target_name target_kind =
     try_candidates os o' target_dir target_name target_kind [0..<1024]"

definition materialize_target_path ::
    "'w Os \<Rightarrow> 'w \<Rightarrow> path \<Rightarrow> string \<Rightarrow> NodeKind \<Rightarrow> MaterializeConflictPolicy \<Rightarrow> path result" where
  "materialize_target_path os o' target_dir target_name target_kind conflict_policy =
     (if conflict_policy \<noteq> MaterializeConflictPolicy.Rename then Inr (path_join target_dir target_name)
      else unique_materialize_target_path os o' target_dir target_name target_kind)"

definition materialize_target_name :: "string \<Rightarrow> PromiseNode \<Rightarrow> string result" where
  "materialize_target_name promise_id node =
     (if node_relative_path node = [] then Inr promise_id
      else if node_name node = [] then Inl Status.InvalidArgument
      else Inr (node_name node))"

text \<open>\<open>str::strip_prefix\<close>.\<close>

definition str_strip_prefix :: "string \<Rightarrow> string \<Rightarrow> string option" where
  "str_strip_prefix s pre = (if prefix pre s then Some (drop (length pre) s) else None)"

definition subtree_target_suffix :: "string \<Rightarrow> string \<Rightarrow> string result" where
  "subtree_target_suffix source_relative_path node_path =
     (if node_path = source_relative_path then Inr []
      else if source_relative_path = [] then Inr node_path
      else ok_or (str_strip_prefix node_path (source_relative_path @ ''/'')) Status.InvalidArgument)"

definition plan_entry :: "string \<Rightarrow> path \<Rightarrow> PromiseNode \<Rightarrow> MaterializeEntryPlan result" where
  "plan_entry relative_path target_path node =
     res_bind (subtree_target_suffix relative_path (node_relative_path node)) (\<lambda>suffix.
     Inr \<lparr>me_relative_path = node_relative_path node,
          me_target_path = (if suffix = [] then target_path else path_join target_path suffix),
          me_kind = node_kind node, me_size = attr_size (node_attr node),
          me_mode = attr_mode (node_attr node), me_mtime_nsec = attr_mtime_nsec (node_attr node)\<rparr>)"

text \<open>\<open>None\<close> only if the recursion depth allowed to \<open>subtree_nodes\<close> is too small.\<close>

definition plan_materialize :: "'w Os \<Rightarrow> 'w World \<Rightarrow> MaterializeRequest \<Rightarrow> MaterializePlan result option" where
  "plan_materialize os w request =
     (case res_bind (validate_target_dir os (w_os w) (mreq_target_dir request)) (\<lambda>_.
           res_bind (resolve_visible_path (ipc_mount_status (w_ipc w)) (mreq_source_path request)) (\<lambda>(promise_id, relative_path).
           res_bind (ok_or (promise (ipc_runtime (w_ipc w)) promise_id) Status.NotFound) (\<lambda>tree.
           res_bind (fail_if (tree_state tree \<noteq> Available \<or>
               \<not> has_provider (ipc_runtime (w_ipc w)) (tree_provider_id tree)) Status.ProviderGone) (\<lambda>_.
           Inr (promise_id, relative_path, tree))))) of
        Inl e \<Rightarrow> Some (Inl e)
      | Inr (promise_id, relative_path, tree) \<Rightarrow>
          map_option (\<lambda>listing.
            res_bind listing (\<lambda>nodes.
            res_bind (ok_or (case nodes of [] \<Rightarrow> None | n # _ \<Rightarrow> Some n) Status.NotFound) (\<lambda>root.
            res_bind (materialize_target_name promise_id root) (\<lambda>target_name.
            res_bind (materialize_target_path os (w_os w) (mreq_target_dir request) target_name
                (node_kind root) (mreq_conflict_policy request)) (\<lambda>target_path.
            res_bind (collect_results (map (plan_entry relative_path target_path) nodes)) (\<lambda>entries.
            res_bind (preflight_materialize_targets os (w_os w) entries (mreq_conflict_policy request)) (\<lambda>_.
            Inr \<lparr>mpl_promise_id = promise_id, mpl_target_path = target_path,
                 mpl_conflict_policy = mreq_conflict_policy request, mpl_entries = entries\<rparr>)))))))
          (subtree_nodes (subtree_fuel tree) tree relative_path))"

section \<open>Directories\<close>

definition create_materialized_directory ::
    "'w Os \<Rightarrow> MaterializeEntryPlan \<Rightarrow> MaterializeConflictPolicy \<Rightarrow> 'w World \<Rightarrow> 'w World \<times> CreatedTarget result" where
  "create_materialized_directory os entry conflict_policy w =
     (case os_symlink_metadata os (w_os w) (me_target_path entry) of
        Inr metadata \<Rightarrow>
          (w, res_bind (validate_existing_materialize_target entry metadata conflict_policy) (\<lambda>_.
              Inr \<lparr>ct_path = me_target_path entry, ct_identity = identity_from_metadata metadata,
                   ct_kind = MaterializeTargetKind.Directory, ct_remove_on_cleanup = False\<rparr>))
      | Inl error \<Rightarrow>
          if err_kind error \<noteq> KNotFound then (w, Inl (io_error_to_status error))
          else
            io_bind (on_os (os_create_dir os (me_target_path entry) 448)) (\<lambda>_.
            io_bind (on_os (\<lambda>o'. (o', os_symlink_metadata os o' (me_target_path entry)))) (\<lambda>metadata.
            io_return \<lparr>ct_path = me_target_path entry, ct_identity = identity_from_metadata metadata,
                       ct_kind = MaterializeTargetKind.Directory, ct_remove_on_cleanup = True\<rparr>)) w)"

definition apply_mtime :: "'w Os \<Rightarrow> fd \<Rightarrow> i64 \<Rightarrow> 'w World \<Rightarrow> 'w World \<times> unit result" where
  "apply_mtime os f mtime_nsec =
     on_os (os_futimens os f (sint mtime_nsec sdiv 1000000000) (sint mtime_nsec smod 1000000000))"

definition apply_directory_metadata ::
    "'w Os \<Rightarrow> MaterializeEntryPlan \<Rightarrow> FileIdentity \<Rightarrow> 'w World \<Rightarrow> 'w World \<times> unit result" where
  "apply_directory_metadata os entry expected =
     io_bind (on_os (os_open os (me_target_path entry))) (\<lambda>directory.
     io_bind (on_os (\<lambda>o'. (o', os_file_metadata os o' directory))) (\<lambda>metadata.
     if identity_from_metadata metadata \<noteq> expected then io_fail Status.Unavailable
     else
       io_bind (on_os (os_file_set_permissions os directory (me_mode entry AND 4095))) (\<lambda>_.
       apply_mtime os directory (me_mtime_nsec entry))))"

section \<open>Cleanup\<close>

text \<open>Errors are ignored here, as in the source.\<close>

definition restore_created_directory_permissions :: "'w Os \<Rightarrow> CreatedTarget \<Rightarrow> 'w \<Rightarrow> 'w" where
  "restore_created_directory_permissions os target o' =
     (case os_symlink_metadata os o' (ct_path target) of
        Inl _ \<Rightarrow> o'
      | Inr metadata \<Rightarrow>
          if identity_from_metadata metadata \<noteq> ct_identity target then o'
          else fst (os_set_permissions os (ct_path target) 448 o'))"

definition cleanup_target :: "'w Os \<Rightarrow> CreatedTarget \<Rightarrow> 'w \<Rightarrow> 'w" where
  "cleanup_target os target o' =
     (if \<not> ct_remove_on_cleanup target then o'
      else case os_symlink_metadata os o' (ct_path target) of
          Inl _ \<Rightarrow> o'
        | Inr metadata \<Rightarrow>
            if identity_from_metadata metadata \<noteq> ct_identity target then o'
            else case ct_kind target of
                MaterializeTargetKind.File \<Rightarrow> fst (os_remove_file os (ct_path target) o')
              | MaterializeTargetKind.Directory \<Rightarrow> fst (os_remove_dir os (ct_path target) o'))"

definition cleanup_created_targets :: "'w Os \<Rightarrow> CreatedTarget list \<Rightarrow> 'w \<Rightarrow> 'w" where
  "cleanup_created_targets os created_targets o' =
     fold (cleanup_target os) (rev created_targets)
       (fold (restore_created_directory_permissions os)
         (filter (\<lambda>t. ct_kind t = MaterializeTargetKind.Directory \<and> ct_remove_on_cleanup t) created_targets) o')"

section \<open>Reading\<close>

definition read_request_of_plan :: "u64 \<Rightarrow> ProviderReadPlan \<Rightarrow> ProviderReadRequest" where
  "read_request_of_plan request_id plan =
     \<lparr>rr_request_id = request_id, rr_provider_id = plan_provider_id plan,
      rr_promise_id = plan_promise_id plan, rr_relative_path = plan_relative_path plan,
      rr_provider_node_id = plan_provider_node_id plan, rr_offset = plan_offset plan,
      rr_length = plan_length plan\<rparr>"

definition read_materialize_provider_chunk ::
    "'w Env \<Rightarrow> ProviderReadPlan \<Rightarrow> 'w World \<Rightarrow> 'w World \<times> bytes result" where
  "read_materialize_provider_chunk env plan w =
     (case next_provider_read_request_id (w_ipc w) of
        (st, request_id) \<Rightarrow>
          io_bind (io_map_err io_error_to_status
              (route_provider_read env (read_request_of_plan request_id plan))) (\<lambda>response.
          if rs_status response = ProviderReadStatus.Ok then io_return (rs_bytes response)
          else io_fail (provider_read_status_to_status (rs_status response)))
          (w\<lparr>w_ipc := st\<rparr>))"

definition read_local_materialized_chunk ::
    "'w Os \<Rightarrow> path \<Rightarrow> u64 \<Rightarrow> u32 \<Rightarrow> 'w World \<Rightarrow> 'w World \<times> bytes result" where
  "read_local_materialized_chunk os p offset len =
     io_bind (on_os (os_open os p)) (\<lambda>f.
     io_bind (on_os (\<lambda>o'. (o', os_file_read_at os o' f offset (unat len)))) (\<lambda>bytes.
     if length bytes \<noteq> unat len then io_fail Status.Io else io_return bytes))"

definition read_materialize_chunk ::
    "'w Env \<Rightarrow> string \<Rightarrow> MaterializeEntryPlan \<Rightarrow> u64 \<Rightarrow> u32 \<Rightarrow> 'w World \<Rightarrow> 'w World \<times> bytes result" where
  "read_materialize_chunk env promise_id entry offset len w =
     (case plan_provider_read (ipc_runtime (w_ipc w)) promise_id (me_relative_path entry) offset len of
        Inr plan \<Rightarrow> read_materialize_provider_chunk env plan w
      | Inl e \<Rightarrow>
          if e \<noteq> Status.ProviderGone then (w, Inl e)
          else
            (case plan_read (ipc_runtime (w_ipc w)) promise_id (me_relative_path entry) offset len of
               Inl e \<Rightarrow> (w, Inl e)
             | Inr (ReadPlan.Request plan) \<Rightarrow> read_materialize_provider_chunk env plan w
             | Inr (ReadPlan.Materialized plan) \<Rightarrow>
                 read_local_materialized_chunk (env_os env) (materialized_path plan)
                   (materialized_offset plan) (materialized_length plan) w
             | Inr (ReadPlan.Cached plan) \<Rightarrow> (w, Inr (cached_bytes plan))
             | Inr ReadPlan.Eof \<Rightarrow> (w, Inl Status.Io)))"

section \<open>Files\<close>

definition open_materialize_output ::
    "'w Os \<Rightarrow> path \<Rightarrow> 'w World \<Rightarrow> 'w World \<times> (MaterializeWriteError + (fd \<times> FileIdentity))" where
  "open_materialize_output os p =
     io_bind (io_map_err without_created_target (on_os (os_open_excl os p 384))) (\<lambda>f.
     io_bind (io_map_err without_created_target (on_os (\<lambda>o'. (o', os_file_metadata os o' f)))) (\<lambda>metadata.
     io_return (f, identity_from_metadata metadata)))"

definition open_final_materialized_file ::
    "'w Os \<Rightarrow> MaterializeEntryPlan \<Rightarrow> bool \<Rightarrow> 'w World \<Rightarrow> 'w World \<times> (MaterializeWriteError + MaterializeFileTarget)" where
  "open_final_materialized_file os entry remove_on_cleanup =
     io_bind (open_materialize_output os (me_target_path entry)) (\<lambda>(f, identity).
     io_return
       \<lparr>mft_file = f,
        mft_write_target =
          \<lparr>ct_path = me_target_path entry, ct_identity = identity, ct_kind = MaterializeTargetKind.File,
           ct_remove_on_cleanup = remove_on_cleanup\<rparr>,
        mft_final_path = me_target_path entry, mft_final_remove_on_cleanup = remove_on_cleanup,
        mft_replace_on_success = False\<rparr>)"

definition materialize_temp_path :: "'w Os \<Rightarrow> path \<Rightarrow> u64 \<Rightarrow> path result" where
  "materialize_temp_path os target_path attempt =
     res_bind (ok_or (path_parent target_path) Status.InvalidArgument) (\<lambda>parent.
     res_bind (ok_or (path_file_name target_path) Status.InvalidArgument) (\<lambda>file_name.
     Inr (path_join parent (''.'' @ file_name @ ''.fuse-promise-tmp-''
       @ decimal (unat (os_process_id os)) @ ''-'' @ decimal (unat attempt)))))"

fun try_replacements ::
    "'w Os \<Rightarrow> MaterializeEntryPlan \<Rightarrow> nat \<Rightarrow> 'w World \<Rightarrow> 'w World \<times> (MaterializeWriteError + MaterializeFileTarget)" where
  "try_replacements os entry 0 w = (w, Inl (without_created_target Status.AlreadyExists))"
| "try_replacements os entry (Suc n) w =
     (let attempt = w_temp_counter w; w1 = w\<lparr>w_temp_counter := w_temp_counter w + 1\<rparr> in
      case materialize_temp_path os (me_target_path entry) attempt of
        Inl e \<Rightarrow> (w1, Inl (without_created_target e))
      | Inr temp_path \<Rightarrow>
          (case open_materialize_output os temp_path w1 of
             (w2, Inr (f, identity)) \<Rightarrow>
               (w2, Inr
                 \<lparr>mft_file = f,
                  mft_write_target =
                    \<lparr>ct_path = temp_path, ct_identity = identity, ct_kind = MaterializeTargetKind.File,
                     ct_remove_on_cleanup = True\<rparr>,
                  mft_final_path = me_target_path entry, mft_final_remove_on_cleanup = False,
                  mft_replace_on_success = True\<rparr>)
           | (w2, Inl error) \<Rightarrow>
               if mwe_status error = Status.AlreadyExists then try_replacements os entry n w2
               else (w2, Inl error)))"

definition open_replacement_materialized_file ::
    "'w Os \<Rightarrow> MaterializeEntryPlan \<Rightarrow> 'w World \<Rightarrow> 'w World \<times> (MaterializeWriteError + MaterializeFileTarget)" where
  "open_replacement_materialized_file os entry = try_replacements os entry 16"

definition open_materialized_file ::
    "'w Os \<Rightarrow> MaterializeEntryPlan \<Rightarrow> MaterializeConflictPolicy \<Rightarrow> 'w World \<Rightarrow> 'w World \<times> (MaterializeWriteError + MaterializeFileTarget)" where
  "open_materialized_file os entry conflict_policy w =
     (case (case os_symlink_metadata os (w_os w) (me_target_path entry) of
              Inr metadata \<Rightarrow>
                map_ok (\<lambda>_. True) (map_err without_created_target
                  (validate_existing_materialize_target entry metadata conflict_policy))
            | Inl error \<Rightarrow>
                if err_kind error = KNotFound then Inr False
                else Inl (without_created_target (io_error_to_status error))) of
        Inl e \<Rightarrow> (w, Inl e)
      | Inr target_exists \<Rightarrow>
          (case conflict_policy of
             MaterializeConflictPolicy.Fail \<Rightarrow> open_final_materialized_file os entry True w
           | MaterializeConflictPolicy.Overwrite \<Rightarrow>
               if target_exists then open_replacement_materialized_file os entry w
               else open_final_materialized_file os entry True w
           | MaterializeConflictPolicy.Rename \<Rightarrow> open_final_materialized_file os entry True w))"

text \<open>The copy loop. A chunk read is at most \<open>MAX_PROVIDER_READ_LEN\<close> long; an empty one is an
  error, so every round moves the offset forward and the loop ends.\<close>

function write_chunks ::
    "'w Env \<Rightarrow> string \<Rightarrow> MaterializeEntryPlan \<Rightarrow> fd \<Rightarrow> CreatedTarget \<Rightarrow>
     (u64 \<Rightarrow> 'w World \<Rightarrow> 'w World \<times> unit result) \<Rightarrow> u64 \<Rightarrow> 'w World \<Rightarrow>
     'w World \<times> (MaterializeWriteError + u64)" where
  "write_chunks env promise_id entry f write_target report_file_progress offset w =
     (if \<not> offset < me_size entry then (w, Inr offset)
      else
        (case read_materialize_chunk env promise_id entry offset
                (ucast (min (me_size entry - offset) (u64_of_u32 MAX_PROVIDER_READ_LEN))) w of
           (w1, Inl status) \<Rightarrow> (w1, Inl (with_target status write_target offset))
         | (w1, Inr bytes) \<Rightarrow>
             if bytes = [] then (w1, Inl (with_target Status.Io write_target offset))
             else
               (case on_os (os_file_write_all (env_os env) f bytes) w1 of
                  (w2, Inl status) \<Rightarrow> (w2, Inl (with_target status write_target offset))
                | (w2, Inr _) \<Rightarrow>
                    (case Option.bind (u64_try_from (length bytes)) (checked_add offset) of
                       None \<Rightarrow> (w2, Inl (with_target Status.InvalidArgument write_target offset))
                     | Some offset' \<Rightarrow>
                         (case report_file_progress offset' w2 of
                            (w3, Inl status) \<Rightarrow> (w3, Inl (with_target status write_target offset'))
                          | (w3, Inr _) \<Rightarrow>
                              write_chunks env promise_id entry f write_target report_file_progress offset' w3)))))"
  by pat_completeness auto

lemma chunk_offset_increases:
  assumes "Option.bind (u64_try_from (length bytes)) (checked_add offset) = Some offset'" and "bytes \<noteq> []"
  shows "unat offset' = unat offset + length bytes"
proof -
  from assms(1) obtain n where n: "u64_try_from (length bytes) = Some n" "checked_add offset n = Some offset'"
    by (auto simp: bind_eq_Some_conv)
  from unat_checked_add [OF n(2)] unat_u64_try_from [OF n(1)] show ?thesis by simp
qed

lemma chunk_measure:
  assumes "Option.bind (u64_try_from (length bytes)) (checked_add offset) = Some offset'" and "bytes \<noteq> []"
    and "offset < n"
  shows "unat n - unat offset' < unat n - unat offset"
  using chunk_offset_increases [OF assms(1,2)] assms(2,3) by (cases bytes) (auto simp: word_less_nat_alt)

termination write_chunks
  by (relation "measure (\<lambda>(env, promise_id, entry, f, t, r, offset, w). unat (me_size entry) - unat offset)")
    (auto intro: chunk_measure)

declare write_chunks.simps [simp del]

definition finalize_materialized_file ::
    "'w Os \<Rightarrow> CreatedTarget \<Rightarrow> path \<Rightarrow> bool \<Rightarrow> bool \<Rightarrow> u64 \<Rightarrow> 'w World \<Rightarrow> 'w World \<times> (MaterializeWriteError + CreatedTarget)" where
  "finalize_materialized_file os write_target final_path final_remove_on_cleanup replace_on_success bytes_written =
     io_bind (if replace_on_success
              then io_map_err (\<lambda>status. with_target status write_target bytes_written)
                     (on_os (os_rename os (ct_path write_target) final_path))
              else io_return ()) (\<lambda>_.
     io_return \<lparr>ct_path = final_path, ct_identity = ct_identity write_target,
                ct_kind = MaterializeTargetKind.File, ct_remove_on_cleanup = final_remove_on_cleanup\<rparr>)"

definition write_materialized_file ::
    "'w Env \<Rightarrow> string \<Rightarrow> MaterializeEntryPlan \<Rightarrow> MaterializeConflictPolicy \<Rightarrow>
     (u64 \<Rightarrow> 'w World \<Rightarrow> 'w World \<times> unit result) \<Rightarrow> 'w World \<Rightarrow>
     'w World \<times> (MaterializeWriteError + MaterializeFileOutcome)" where
  "write_materialized_file env promise_id entry conflict_policy report_file_progress =
     io_bind (open_materialized_file (env_os env) entry conflict_policy) (\<lambda>t.
     io_bind (write_chunks env promise_id entry (mft_file t) (mft_write_target t) report_file_progress 0) (\<lambda>offset.
     io_bind (io_map_err (\<lambda>status. with_target status (mft_write_target t) offset)
       (on_os (os_file_set_permissions (env_os env) (mft_file t) (me_mode entry AND 4095)))) (\<lambda>_.
     io_bind (io_map_err (\<lambda>status. with_target status (mft_write_target t) offset)
       (apply_mtime (env_os env) (mft_file t) (me_mtime_nsec entry))) (\<lambda>_.
     io_bind (finalize_materialized_file (env_os env) (mft_write_target t) (mft_final_path t)
       (mft_final_remove_on_cleanup t) (mft_replace_on_success t) offset) (\<lambda>target.
     io_return \<lparr>mfo_bytes_written = offset, mfo_target = target\<rparr>)))))"

section \<open>The whole operation\<close>

text \<open>Every failure after the plan carries the progress so far and the targets created so far;
  the caller removes those targets and reports the progress.\<close>

type_synonym ('w, 'a) materialize_step =
  "'w World \<Rightarrow> 'w World \<times> ((Status \<times> MaterializeProgress \<times> CreatedTarget list) + 'a)"

fun create_directories ::
    "'w Env \<Rightarrow> MaterializeConflictPolicy \<Rightarrow> (MaterializeProgress \<Rightarrow> 'w World \<Rightarrow> 'w World \<times> unit result) \<Rightarrow>
     MaterializeEntryPlan list \<Rightarrow> MaterializeProgress \<Rightarrow> CreatedTarget list \<Rightarrow>
     ('w, MaterializeProgress \<times> CreatedTarget list) materialize_step" where
  "create_directories env policy report_progress [] progress created w = (w, Inr (progress, created))"
| "create_directories env policy report_progress (entry # entries) progress created w =
     (case create_materialized_directory (env_os env) entry policy w of
        (w1, Inl status) \<Rightarrow> (w1, Inl (status, progress, created))
      | (w1, Inr target) \<Rightarrow>
          (let progress1 = (if ct_remove_on_cleanup target
                 then update_counts (\<lambda>c. c\<lparr>mc_directories_created := mc_directories_created c + 1\<rparr>) progress
                 else progress);
               progress2 = update_counts (\<lambda>c. c\<lparr>mc_entries_done := mc_entries_done c + 1\<rparr>) progress1;
               created1 = created @ [target] in
           case report_progress progress2 w1 of
             (w2, Inl status) \<Rightarrow> (w2, Inl (status, progress2, created1))
           | (w2, Inr _) \<Rightarrow> create_directories env policy report_progress entries progress2 created1 w2))"

fun write_files ::
    "'w Env \<Rightarrow> string \<Rightarrow> MaterializeConflictPolicy \<Rightarrow> (MaterializeProgress \<Rightarrow> 'w World \<Rightarrow> 'w World \<times> unit result) \<Rightarrow>
     MaterializeEntryPlan list \<Rightarrow> MaterializeProgress \<Rightarrow> CreatedTarget list \<Rightarrow>
     ('w, MaterializeProgress \<times> CreatedTarget list) materialize_step" where
  "write_files env promise_id policy report_progress [] progress created w = (w, Inr (progress, created))"
| "write_files env promise_id policy report_progress (entry # entries) progress created w =
     (let before = mc_bytes_written (mpr_counts progress);
          at = (\<lambda>n. update_counts (\<lambda>c. c\<lparr>mc_bytes_written := before + n\<rparr>) progress) in
      case write_materialized_file env promise_id entry policy (\<lambda>n. report_progress (at n)) w of
        (w1, Inl error) \<Rightarrow>
          (w1, Inl (mwe_status error, at (mwe_bytes_written error),
             created @ (case mwe_target error of Some target \<Rightarrow> [target] | None \<Rightarrow> [])))
      | (w1, Inr outcome) \<Rightarrow>
          (let progress1 = update_counts (\<lambda>c. c\<lparr>mc_files_written := mc_files_written c + 1,
                 mc_entries_done := mc_entries_done c + 1\<rparr>) (at (mfo_bytes_written outcome));
               created1 = created @ [mfo_target outcome] in
           case report_progress progress1 w1 of
             (w2, Inl status) \<Rightarrow> (w2, Inl (status, progress1, created1))
           | (w2, Inr _) \<Rightarrow> write_files env promise_id policy report_progress entries progress1 created1 w2))"

text \<open>Paths are equal when their components are.\<close>

fun apply_metadata ::
    "'w Env \<Rightarrow> MaterializeEntryPlan list \<Rightarrow> MaterializeProgress \<Rightarrow> CreatedTarget list \<Rightarrow> ('w, unit) materialize_step" where
  "apply_metadata env [] progress created w = (w, Inr ())"
| "apply_metadata env (entry # entries) progress created w =
     (case find (\<lambda>t. ct_kind t = MaterializeTargetKind.Directory \<and>
           path_components (ct_path t) = path_components (me_target_path entry)) created of
        None \<Rightarrow> (w, Inl (Status.Io, progress, created))
      | Some target \<Rightarrow>
          (case apply_directory_metadata (env_os env) entry (ct_identity target) w of
             (w1, Inl status) \<Rightarrow> (w1, Inl (status, progress, created))
           | (w1, Inr _) \<Rightarrow> apply_metadata env entries progress created w1))"

fun mark_entries ::
    "string \<Rightarrow> MaterializeEntryPlan list \<Rightarrow> MaterializeProgress \<Rightarrow> CreatedTarget list \<Rightarrow> ('w, unit) materialize_step" where
  "mark_entries promise_id [] progress created w = (w, Inr ())"
| "mark_entries promise_id (entry # entries) progress created w =
     (case mark_node_materialized (ipc_runtime (w_ipc w)) promise_id (me_relative_path entry) (me_target_path entry) of
        (rt, Inl status) \<Rightarrow> (w\<lparr>w_ipc := (w_ipc w)\<lparr>ipc_runtime := rt\<rparr>\<rparr>, Inl (status, progress, created))
      | (rt, Inr _) \<Rightarrow> mark_entries promise_id entries progress created (w\<lparr>w_ipc := (w_ipc w)\<lparr>ipc_runtime := rt\<rparr>\<rparr>))"

definition materialize_plan ::
    "'w Env \<Rightarrow> MaterializePlan \<Rightarrow> (MaterializeProgress \<Rightarrow> 'w World \<Rightarrow> 'w World \<times> unit result) \<Rightarrow>
     ('w, MaterializeProgress) materialize_step" where
  "materialize_plan env plan report_progress =
     (let entries = mpl_entries plan;
          progress = progress_new (mpl_target_path plan) entries in
      io_bind (io_map_err (\<lambda>status. (status, progress, [])) (report_progress progress)) (\<lambda>_.
      io_bind (create_directories env (mpl_conflict_policy plan) report_progress
        (directory_entries entries) progress []) (\<lambda>(progress, created).
      io_bind (write_files env (mpl_promise_id plan) (mpl_conflict_policy plan) report_progress
        (file_entries entries) progress created) (\<lambda>(progress, created).
      io_bind (apply_metadata env (rev (directory_entries entries)) progress created) (\<lambda>_.
      io_bind (mark_entries (mpl_promise_id plan) entries progress created) (\<lambda>_.
      io_return progress))))))"

definition materialize_node_in_state ::
    "'w Env \<Rightarrow> MaterializeBody \<Rightarrow> (MaterializeProgress \<Rightarrow> 'w World \<Rightarrow> 'w World \<times> unit result) \<Rightarrow> 'w World \<Rightarrow>
     ('w World \<times> (MaterializeOperationError + MaterializedBody)) option" where
  "materialize_node_in_state env body report_progress w =
     (case materialize_request_from_body body of
        Inl status \<Rightarrow> Some (w, Inl (without_progress status))
      | Inr request \<Rightarrow>
          map_option (\<lambda>planned.
            case planned of
              Inl status \<Rightarrow> (w, Inl (without_progress status))
            | Inr plan \<Rightarrow>
                (case materialize_plan env plan report_progress w of
                   (w1, Inl (status, progress, created)) \<Rightarrow>
                     (w1\<lparr>w_os := cleanup_created_targets (env_os env) created (w_os w1)\<rparr>,
                      Inl (with_progress status progress))
                 | (w1, Inr progress) \<Rightarrow>
                     (w1, Inr \<lparr>md_target_path = to_string_lossy (mpl_target_path plan),
                               md_counts = mpr_counts progress\<rparr>)))
          (plan_materialize (env_os env) w request))"

end
