(* ===== verification/Ipc_Server.thy ===== *)
theory Ipc_Server
  imports Materialize
begin

text \<open>
  The server side of \<open>crates/fuse-promise-ipc/src/lib.rs\<close>: the checks on sockets and peers,
  the owner token, the request loop of a connection and the handlers of commit and
  materialise. A handler returns the new world with the result that decides whether the
  connection goes on. Where the source loops without a bound (random tokens, requests), the
  function is partial and \<open>None\<close> is the run that does not return.
\<close>

section \<open>Sockets and peers\<close>

definition validate_peer :: "'w Os \<Rightarrow> 'w \<Rightarrow> conn \<Rightarrow> unit io_result" where
  "validate_peer os o' c =
     res_bind (os_peer_uid os o' c) (\<lambda>uid.
     fail_if (uid \<noteq> os_getuid os)
       (io_error_new KPermissionDenied ''IPC peer uid does not match current user''))"

definition validate_control_socket_for_connect :: "'w Os \<Rightarrow> 'w \<Rightarrow> path \<Rightarrow> unit io_result" where
  "validate_control_socket_for_connect os o' socket_path =
     res_bind (os_symlink_metadata os o' socket_path) (\<lambda>metadata.
     res_bind (fail_if (md_type metadata \<noteq> FtSocket)
       (io_error_new KInvalidInput ''control socket path is not a socket'')) (\<lambda>_.
     res_bind (fail_if (md_uid metadata \<noteq> os_getuid os)
       (io_error_new KPermissionDenied ''control socket is not owned by the current user'')) (\<lambda>_.
     Inr ())))"

definition remove_stale_socket :: "'w Os \<Rightarrow> path \<Rightarrow> ('w, unit) io" where
  "remove_stale_socket os socket_path o' =
     (case os_symlink_metadata os o' socket_path of
        Inl _ \<Rightarrow> (o', Inr ())
      | Inr metadata \<Rightarrow>
          if md_type metadata \<noteq> FtSocket
          then (o', Inl (io_error_new KAlreadyExists ''control socket path exists and is not a socket''))
          else if md_uid metadata \<noteq> os_getuid os
          then (o', Inl (io_error_new KPermissionDenied ''stale control socket is not owned by the current user''))
          else
            (case os_remove_file os socket_path o' of
               (o1, Inr _) \<Rightarrow> (o1, Inr ())
             | (o1, Inl error) \<Rightarrow> if err_kind error = KNotFound then (o1, Inr ()) else (o1, Inl error)))"

partial_function (option) owner_token_loop :: "'w Os \<Rightarrow> 'w \<Rightarrow> ('w \<times> u128 io_result) option" where
  "owner_token_loop os o' =
     (case os_urandom os 16 o' of
        (o1, Inl e) \<Rightarrow> Some (o1, Inl e)
      | (o1, Inr bytes) \<Rightarrow>
          if of_nat (le_value bytes) \<noteq> (0 :: u128) then Some (o1, Inr (of_nat (le_value bytes)))
          else owner_token_loop os o1)"

definition generate_provider_owner_token :: "'w Os \<Rightarrow> 'w \<Rightarrow> ('w \<times> u128 io_result) option" where
  "generate_provider_owner_token os o' =
     (case os_open_urandom os o' of
        (o1, Inl e) \<Rightarrow> Some (o1, Inl e)
      | (o1, Inr _) \<Rightarrow> owner_token_loop os o1)"

section \<open>Replies\<close>

definition reply :: "'w Env \<Rightarrow> conn \<Rightarrow> Response \<Rightarrow> 'w World \<Rightarrow> 'w World \<times> unit io_result" where
  "reply env c response w =
     (case write_frame (stream_writer (env_os env) c) (env_responses env) response (w_os w) of
        (o', r) \<Rightarrow> (w\<lparr>w_os := o'\<rparr>, r))"

definition reply_error :: "'w Env \<Rightarrow> conn \<Rightarrow> ErrorCode \<Rightarrow> string \<Rightarrow> 'w World \<Rightarrow> 'w World \<times> unit io_result" where
  "reply_error env c code message w =
     (case write_error (stream_writer (env_os env) c) (env_responses env) code message (w_os w) of
        (o', r) \<Rightarrow> (w\<lparr>w_os := o'\<rparr>, r))"

definition reply_status_error :: "'w Env \<Rightarrow> conn \<Rightarrow> Status \<Rightarrow> 'w World \<Rightarrow> 'w World \<times> unit io_result" where
  "reply_status_error env c status w =
     (case write_status_error (stream_writer (env_os env) c) (env_responses env) status (w_os w) of
        (o', r) \<Rightarrow> (w\<lparr>w_os := o'\<rparr>, r))"

definition receive :: "'w Env \<Rightarrow> conn \<Rightarrow> 'w World \<Rightarrow> 'w World \<times> Request option io_result" where
  "receive env c w =
     (case read_frame (stream_reader (env_os env) c) (env_requests env) (w_os w) of
        (o', r) \<Rightarrow> (w\<lparr>w_os := o'\<rparr>, r))"

section \<open>Commit\<close>

fun add_nodes :: "PromiseBuilder \<Rightarrow> PromiseNodeBody list \<Rightarrow> PromiseBuilder result" where
  "add_nodes builder [] = Inr builder"
| "add_nodes builder (node # nodes) =
     (let attr = node_attr_new (nb_mode node) (nb_size node) (nb_mtime_nsec node) in
      case (case nb_kind node of
              PromiseNodeKindBody.File \<Rightarrow>
                builder_add_file builder (nb_relative_path node) attr (nb_provider_node_id node)
            | PromiseNodeKindBody.Directory \<Rightarrow>
                builder_add_dir builder (nb_relative_path node) attr (nb_provider_node_id node)) of
        (_, Inl status) \<Rightarrow> Inl status
      | (builder', Inr _) \<Rightarrow> add_nodes builder' nodes)"

definition handle_promise_commit ::
    "'w Env \<Rightarrow> conn \<Rightarrow> PromiseCommitBody \<Rightarrow> 'w World \<Rightarrow> 'w World \<times> unit io_result" where
  "handle_promise_commit env c request w =
     (case provider_id_from_raw (cb_provider_id request) of
        None \<Rightarrow> reply_error env c ErrorCode.InvalidRequest ''provider id must be nonzero'' w
      | Some provider_id \<Rightarrow>
          (case validate_provider_owner (w_ipc w) provider_id (cb_provider_owner_token request) of
             Inl status \<Rightarrow> reply_status_error env c status w
           | Inr _ \<Rightarrow>
               (let mount_status = ipc_mount_status (w_ipc w) in
                if \<not> ms_ready_for_commits mount_status then reply_status_error env c Status.Unavailable w
                else case add_nodes (builder_new provider_id) (cb_nodes request) of
                    Inl status \<Rightarrow> reply_status_error env c status w
                  | Inr builder \<Rightarrow>
                      (case commit_promise (ipc_runtime (w_ipc w)) builder of
                         (rt, Inl status) \<Rightarrow>
                           reply_status_error env c status (w\<lparr>w_ipc := (w_ipc w)\<lparr>ipc_runtime := rt\<rparr>\<rparr>)
                       | (rt, Inr tree) \<Rightarrow>
                           (let w1 = w\<lparr>w_ipc := (w_ipc w)\<lparr>ipc_runtime := rt\<rparr>\<rparr> in
                            case map_err status_to_io (visible_promise_path mount_status (tree_promise_id tree)) of
                              Inl e \<Rightarrow> (w1, Inl e)
                            | Inr visible_path \<Rightarrow>
                                reply env c (Response.PromiseCommitted
                                  \<lparr>committed_promise_id = tree_promise_id tree,
                                   committed_visible_path = to_string_lossy visible_path\<rparr>) w1)))))"

section \<open>Materialise\<close>

text \<open>The progress callback: send the progress and wait for the client to go on.\<close>

definition report_to_client ::
    "'w Env \<Rightarrow> conn \<Rightarrow> MaterializeProgress \<Rightarrow> 'w World \<Rightarrow> 'w World \<times> unit result" where
  "report_to_client env c progress w =
     (case reply env c (Response.MaterializeProgress (progress_to_body progress)) w of
        (w1, Inl _) \<Rightarrow> (w1, Inl Status.Cancelled)
      | (w1, Inr _) \<Rightarrow>
          (case receive env c w1 of
             (w2, Inl _) \<Rightarrow> (w2, Inl Status.Cancelled)
           | (w2, Inr (Some Request.MaterializeContinue)) \<Rightarrow> (w2, Inr ())
           | (w2, Inr (Some Request.MaterializeCancel)) \<Rightarrow> (w2, Inl Status.Cancelled)
           | (w2, Inr None) \<Rightarrow> (w2, Inl Status.Cancelled)
           | (w2, Inr (Some _)) \<Rightarrow> (w2, Inl Status.InvalidArgument)))"

definition handle_materialize ::
    "'w Env \<Rightarrow> conn \<Rightarrow> MaterializeBody \<Rightarrow> 'w World \<Rightarrow> ('w World \<times> unit io_result) option" where
  "handle_materialize env c request w =
     map_option (\<lambda>(w1, outcome).
       case outcome of
         Inr response \<Rightarrow> reply env c (Response.Materialized response) w1
       | Inl error \<Rightarrow>
           (case moe_progress error of
              Some progress \<Rightarrow>
                if has_partial progress
                then reply env c (Response.MaterializeFailed (to_failed_body error progress)) w1
                else reply_status_error env c (moe_status error) w1
            | None \<Rightarrow> reply_status_error env c (moe_status error) w1))
     (materialize_node_in_state env request (report_to_client env c) w)"

section \<open>Requests\<close>

text \<open>The local variables of \<open>handle_client_requests\<close> that outlive a request.\<close>

record Client =
  cl_negotiated :: bool
  cl_registered :: "ProviderId list"

definition handle_register ::
    "'w Env \<Rightarrow> conn \<Rightarrow> Client \<Rightarrow> 'w World \<Rightarrow> ('w World \<times> Client \<times> unit io_result) option" where
  "handle_register env c client w =
     (case register_provider (ipc_runtime (w_ipc w)) of
        (rt, provider_id) \<Rightarrow>
          (let w1 = w\<lparr>w_ipc := (w_ipc w)\<lparr>ipc_runtime := rt\<rparr>\<rparr> in
           map_option (\<lambda>(o2, token).
             case token of
               Inl e \<Rightarrow> (w1\<lparr>w_os := o2\<rparr>, client, Inl e)
             | Inr provider_owner_token \<Rightarrow>
                 (case os_try_clone (env_os env) c o2 of
                    (o3, Inl e) \<Rightarrow> (w1\<lparr>w_os := o3\<rparr>, client, Inl e)
                  | (o3, Inr writer) \<Rightarrow>
                      (let st = register_provider_route provider_id provider_owner_token writer (w_ipc w1) in
                       case reply env c (Response.ProviderRegistered provider_id provider_owner_token)
                              (w1\<lparr>w_ipc := st, w_os := o3\<rparr>) of
                         (w4, r) \<Rightarrow>
                           (w4, client\<lparr>cl_registered := cl_registered client @ [provider_id]\<rparr>, r))))
           (generate_provider_owner_token (env_os env) (w_os w1))))"

definition handle_unregister ::
    "'w Env \<Rightarrow> conn \<Rightarrow> Client \<Rightarrow> u64 \<Rightarrow> u128 \<Rightarrow> 'w World \<Rightarrow> 'w World \<times> Client \<times> unit io_result" where
  "handle_unregister env c client raw provider_owner_token w =
     (case provider_id_from_raw raw of
        None \<Rightarrow> (case reply_error env c ErrorCode.InvalidRequest ''provider id must be nonzero'' w of
                   (w1, r) \<Rightarrow> (w1, client, r))
      | Some provider_id \<Rightarrow>
          (case validate_provider_owner (w_ipc w) provider_id provider_owner_token of
             Inl status \<Rightarrow> (case reply_status_error env c status w of (w1, r) \<Rightarrow> (w1, client, r))
           | Inr _ \<Rightarrow>
               (case unregister_provider (ipc_runtime (w_ipc w)) provider_id of
                  (rt, Inl status) \<Rightarrow>
                    (case reply_status_error env c status (w\<lparr>w_ipc := (w_ipc w)\<lparr>ipc_runtime := rt\<rparr>\<rparr>) of
                       (w1, r) \<Rightarrow> (w1, client, r))
                | (rt, Inr _) \<Rightarrow>
                    (let st = disconnect_provider provider_id ((w_ipc w)\<lparr>ipc_runtime := rt\<rparr>) in
                     case reply env c Response.ProviderUnregistered (w\<lparr>w_ipc := st\<rparr>) of
                       (w1, r) \<Rightarrow>
                         (w1, client\<lparr>cl_registered := filter (\<lambda>pid. pid \<noteq> provider_id) (cl_registered client)\<rparr>, r)))))"

definition handle_status :: "'w Env \<Rightarrow> conn \<Rightarrow> 'w World \<Rightarrow> 'w World \<times> unit io_result" where
  "handle_status env c w =
     (case map_err status_to_io (from_runtime_with_mount (env_os env) (w_os w)
             (ipc_runtime (w_ipc w)) (ipc_mount_status (w_ipc w))) of
        Inl e \<Rightarrow> (w, Inl e)
      | Inr status \<Rightarrow> reply env c (Response.Status (status_body_from_status status)) w)"

definition unnegotiated :: "Request \<Rightarrow> string" where
  "unnegotiated request =
     (case request of
        Request.Status \<Rightarrow> ''client must send hello before status''
      | Request.Inspect \<Rightarrow> ''client must send hello before inspect''
      | Request.ProviderRegister \<Rightarrow> ''client must send hello before provider register''
      | Request.ProviderUnregister _ _ \<Rightarrow> ''client must send hello before provider unregister''
      | Request.PromiseCommit _ \<Rightarrow> ''client must send hello before promise commit''
      | Request.Materialize _ \<Rightarrow> ''client must send hello before materialize''
      | Request.ProviderReadResponse _ \<Rightarrow> ''client must send hello before provider read response''
      | _ \<Rightarrow> '''')"

definition handle_hello ::
    "'w Env \<Rightarrow> conn \<Rightarrow> Client \<Rightarrow> u32 \<Rightarrow> u32 \<Rightarrow> 'w World \<Rightarrow> 'w World \<times> Client \<times> unit io_result" where
  "handle_hello env c client protocol_version api_version w =
     (if protocol_version = IPC_PROTOCOL_VERSION \<and> api_version = API_VERSION
      then (case reply env c (Response.Hello IPC_PROTOCOL_VERSION API_VERSION) w of
              (w1, r) \<Rightarrow> (w1, client\<lparr>cl_negotiated := True\<rparr>, r))
      else (case reply_error env c ErrorCode.VersionMismatch ''unsupported IPC protocol or API version'' w of
              (w1, r) \<Rightarrow> (w1, client, r)))"

text \<open>One round of the loop.\<close>

definition handle_request ::
    "'w Env \<Rightarrow> conn \<Rightarrow> Client \<Rightarrow> Request \<Rightarrow> 'w World \<Rightarrow> ('w World \<times> Client \<times> unit io_result) option" where
  "handle_request env c client request w =
     (let same = (\<lambda>(w1, r). (w1, client, r)) in
      case request of
        Request.Hello protocol_version api_version \<Rightarrow>
          Some (handle_hello env c client protocol_version api_version w)
      | Request.MaterializeContinue \<Rightarrow>
          Some (same (reply_error env c ErrorCode.InvalidRequest
            ''materialize progress control requires an active materialize request'' w))
      | Request.MaterializeCancel \<Rightarrow>
          Some (same (reply_error env c ErrorCode.InvalidRequest
            ''materialize progress control requires an active materialize request'' w))
      | _ \<Rightarrow>
          if \<not> cl_negotiated client
          then Some (same (reply_error env c ErrorCode.InvalidRequest (unnegotiated request) w))
          else
            (case request of
               Request.Status \<Rightarrow> Some (same (handle_status env c w))
             | Request.Inspect \<Rightarrow>
                 Some (same (reply env c (Response.Inspect (inspect_from_runtime (ipc_runtime (w_ipc w)))) w))
             | Request.ProviderRegister \<Rightarrow> handle_register env c client w
             | Request.ProviderUnregister provider_id token \<Rightarrow>
                 Some (handle_unregister env c client provider_id token w)
             | Request.PromiseCommit body \<Rightarrow> Some (same (handle_promise_commit env c body w))
             | Request.Materialize body \<Rightarrow> map_option same (handle_materialize env c body w)
             | Request.ProviderReadResponse body \<Rightarrow>
                 (case complete_provider_read (cl_registered client) body (w_ipc w) of
                    (st, r) \<Rightarrow> Some (w\<lparr>w_ipc := st\<rparr>, client, r))))"

partial_function (option) handle_client_requests ::
    "'w Env \<Rightarrow> conn \<Rightarrow> Client \<Rightarrow> 'w World \<Rightarrow> ('w World \<times> Client \<times> unit io_result) option" where
  "handle_client_requests env c client w =
     (case receive env c (env_idle env c w) of
        (w1, Inl e) \<Rightarrow> Some (w1, client, Inl e)
      | (w1, Inr None) \<Rightarrow> Some (w1, client, Inr ())
      | (w1, Inr (Some request)) \<Rightarrow>
          Option.bind (handle_request env c client request w1) (\<lambda>(w2, client2, r).
            case r of
              Inl e \<Rightarrow> Some (w2, client2, Inl e)
            | Inr _ \<Rightarrow> handle_client_requests env c client2 w2))"

definition disconnect_registered_providers :: "ProviderId list \<Rightarrow> IpcState \<Rightarrow> IpcState" where
  "disconnect_registered_providers provider_ids st = fold disconnect_provider provider_ids st"

definition new_client :: Client where
  "new_client = \<lparr>cl_negotiated = False, cl_registered = []\<rparr>"

definition handle_client_with_state ::
    "'w Env \<Rightarrow> conn \<Rightarrow> 'w World \<Rightarrow> ('w World \<times> unit io_result) option" where
  "handle_client_with_state env c w =
     (case validate_peer (env_os env) (w_os w) c of
        Inl e \<Rightarrow> Some (w, Inl e)
      | Inr _ \<Rightarrow>
          map_option (\<lambda>(w1, client, r).
            (w1\<lparr>w_ipc := disconnect_registered_providers (cl_registered client) (w_ipc w1)\<rparr>, r))
          (handle_client_requests env c new_client w))"

section \<open>The control socket\<close>

text \<open>\<open>start c\<close> is the effect of starting a thread that runs \<open>handle_client_with_state\<close> on \<open>c\<close>,
  up to the next \<open>accept\<close>; \<open>thread::spawn\<close> itself only fails by a panic.\<close>

partial_function (option) accept_loop ::
    "'w Env \<Rightarrow> (conn \<Rightarrow> 'w World \<Rightarrow> 'w World) \<Rightarrow> listener \<Rightarrow> 'w World \<Rightarrow> ('w World \<times> unit io_result) option" where
  "accept_loop env start l w =
     (case os_accept (env_os env) l (w_os w) of
        (o1, Inl error) \<Rightarrow> Some (w\<lparr>w_os := o1\<rparr>, Inl error)
      | (o1, Inr c) \<Rightarrow> accept_loop env start l (start c (w\<lparr>w_os := o1\<rparr>)))"

definition bind_status_socket ::
    "'w Env \<Rightarrow> (conn \<Rightarrow> 'w World \<Rightarrow> 'w World) \<Rightarrow> path \<Rightarrow> 'w World \<Rightarrow> ('w World \<times> unit io_result) option" where
  "bind_status_socket env start socket_path w =
     (case io_bind (case path_parent socket_path of
                      Some parent \<Rightarrow> os_create_dir_all (env_os env) parent | None \<Rightarrow> io_return ()) (\<lambda>_.
           io_bind (remove_stale_socket (env_os env) socket_path) (\<lambda>_.
           os_bind (env_os env) socket_path)) (w_os w) of
        (o1, Inl e) \<Rightarrow> Some (w\<lparr>w_os := o1\<rparr>, Inl e)
      | (o1, Inr l) \<Rightarrow> accept_loop env start l (w\<lparr>w_os := o1\<rparr>))"

definition serve_state ::
    "'w Env \<Rightarrow> (conn \<Rightarrow> 'w World \<Rightarrow> 'w World) \<Rightarrow> 'w World \<Rightarrow> ('w World \<times> unit io_result) option" where
  "serve_state env start w =
     (case map_err status_to_io (default_control_socket_path (env_os env) (w_os w)) of
        Inl e \<Rightarrow> Some (w, Inl e)
      | Inr socket_path \<Rightarrow> bind_status_socket env start socket_path w)"

section \<open>The end of a connection\<close>

lemma disconnect_registered_inv: "ipc_inv st \<Longrightarrow> ipc_inv (disconnect_registered_providers pids st)"
  unfolding disconnect_registered_providers_def
  by (induction pids arbitrary: st) (simp_all add: disconnect_provider_def disconnect_provider_id_inv)

lemma disconnect_registered_routes:
  "bt_get (ipc_provider_routes (disconnect_registered_providers pids st)) pid =
     (if pid \<in> set pids then None else bt_get (ipc_provider_routes st) pid)"
  unfolding disconnect_registered_providers_def
  by (induction pids arbitrary: st) (auto simp: disconnect_provider_def)

lemma disconnected_stays:
  assumes "ipc_inv st" and "bt_get (ipc_provider_routes st) pid = None" and "\<not> has_provider (ipc_runtime st) pid"
    and "\<forall>i p. bt_get (ipc_pending_reads st) i = Some p \<longrightarrow> pending_provider_id p \<noteq> pid"
  shows "bt_get (ipc_provider_routes (disconnect_registered_providers pids st)) pid = None \<and>
    \<not> has_provider (ipc_runtime (disconnect_registered_providers pids st)) pid \<and>
    (\<forall>i p. bt_get (ipc_pending_reads (disconnect_registered_providers pids st)) i = Some p \<longrightarrow> pending_provider_id p \<noteq> pid)"
  using assms
proof (induction pids arbitrary: st)
  case (Cons q pids)
  let ?st = "disconnect_provider_id q st"
  have inv: "ipc_inv ?st" by (rule disconnect_provider_id_inv [OF Cons.prems(1)])
  have "\<forall>i p. bt_get (ipc_pending_reads ?st) i = Some p \<longrightarrow> pending_provider_id p \<noteq> pid"
  proof (cases "q = 0")
    case True
    with Cons.prems(4) show ?thesis by (simp add: disconnect_provider_id_def provider_id_from_raw_def)
  next
    case False
    with Cons.prems(4) show ?thesis
      by (auto simp: disconnect_pending [OF Cons.prems(1)] split: option.splits if_splits)
  qed
  moreover have "bt_get (ipc_provider_routes ?st) pid = None"
    using Cons.prems(1,2) ipc_invD(1) by (cases "q = pid") simp_all
  moreover have "\<not> has_provider (ipc_runtime ?st) pid" using Cons.prems(3) by (simp only: has_provider_disconnect) blast
  ultimately show ?case
    using Cons.IH [OF inv] by (simp add: disconnect_registered_providers_def disconnect_provider_def)
qed (simp add: disconnect_registered_providers_def)

lemma disconnect_registered:
  assumes "ipc_inv st" and "pid \<in> set pids" and "pid \<noteq> 0"
  shows "bt_get (ipc_provider_routes (disconnect_registered_providers pids st)) pid = None \<and>
    \<not> has_provider (ipc_runtime (disconnect_registered_providers pids st)) pid \<and>
    (\<forall>i p. bt_get (ipc_pending_reads (disconnect_registered_providers pids st)) i = Some p \<longrightarrow> pending_provider_id p \<noteq> pid)"
proof -
  from assms(2) obtain before after where pids: "pids = before @ pid # after" by (metis split_list)
  let ?st = "disconnect_registered_providers before st"
  have inv: "ipc_inv ?st" by (rule disconnect_registered_inv [OF assms(1)])
  have 1: "bt_get (ipc_provider_routes (disconnect_provider_id pid ?st)) pid = None"
    using ipc_invD(1) [OF inv] by simp
  have 2: "\<not> has_provider (ipc_runtime (disconnect_provider_id pid ?st)) pid"
    using assms(3) by (simp only: has_provider_disconnect) blast
  have 3: "\<forall>i p. bt_get (ipc_pending_reads (disconnect_provider_id pid ?st)) i = Some p \<longrightarrow> pending_provider_id p \<noteq> pid"
    using disconnect_pending [OF inv assms(3)] by (auto split: option.splits if_splits)
  have eq: "disconnect_registered_providers pids st = disconnect_registered_providers after (disconnect_provider_id pid ?st)"
    by (simp add: pids disconnect_registered_providers_def disconnect_provider_def)
  show ?thesis unfolding eq by (rule disconnected_stays [OF disconnect_provider_id_inv [OF inv] 1 2 3])
qed

end
