(* ===== verification/Commit_Wire.thy ===== *)
theory Commit_Wire
  imports Ipc_Server
begin

text \<open>
  A commit across the process boundary: the client turns its builder into a request
  (\<open>from_builder_with_owner_token\<close>, \<open>into_body\<close>), the daemon replays the nodes into a new
  builder (\<open>handle_promise_commit\<close>) and commits that. The lemmas show that the replay always
  succeeds for a builder made with the public operations, that it reproduces the node map up
  to the builder-local numbers, and that committing it has exactly the effect of committing
  the client's own builder. The order of the node map is what makes this work: a directory
  sorts before everything in it.
\<close>

section \<open>Nodes up to their numbers\<close>

definition unnumbered :: "PromiseNode \<Rightarrow> PromiseNode" where
  "unnumbered n = n\<lparr>node_id := 0, node_inode := 0\<rparr>"

abbreviation unnumbered_nodes :: "(string, PromiseNode) btree_map \<Rightarrow> (string, PromiseNode) btree_map" where
  "unnumbered_nodes nodes \<equiv> bt_map_values unnumbered nodes"

lemma unnumbered_simps [simp]:
  "node_relative_path (unnumbered n) = node_relative_path n"
  "node_kind (unnumbered n) = node_kind n" "node_attr (unnumbered n) = node_attr n"
  by (simp_all add: unnumbered_def)

lemma unnumbered_eq_kind: "unnumbered n = unnumbered n' \<Longrightarrow> node_kind n = node_kind n'"
  by (metis unnumbered_simps(2))

lemma is_dir_unnumbered: "is_dir (unnumbered_nodes nodes) p = is_dir nodes p"
  by (auto simp: is_dir_def split: option.splits)

lemma child_keys_unnumbered: "child_keys (unnumbered_nodes nodes) p = child_keys nodes p"
  by (simp add: child_keys_def)

text \<open>The child index is determined by the nodes.\<close>

lemma children_determined:
  assumes "shape_wf nodes children" and "shape_wf nodes' children'"
    and "unnumbered_nodes nodes = unnumbered_nodes nodes'"
  shows "children = children'"
proof (rule bt_ext)
  show "bt_wf children" and "bt_wf children'" using assms(1,2) by (auto simp: shape_wf_def)
  fix p
  have "is_dir nodes p = is_dir nodes' p" "child_keys nodes p = child_keys nodes' p"
    using is_dir_unnumbered child_keys_unnumbered assms(3) by metis+
  with assms(1,2) show "bt_get children p = bt_get children' p"
    by (simp add: shape_wf_iff)
qed

section \<open>What a client's builder holds\<close>

definition root_node :: PromiseNode where
  "root_node =
     \<lparr>node_id = 1, node_inode = 1, node_relative_path = [], node_parent_path = None,
      node_name = [], node_provider_node_id = [], node_materialized_path = None,
      node_kind = NodeKind.Directory, node_attr = node_attr_new 493 0 0\<rparr>"

definition builder_fresh :: "PromiseBuilder \<Rightarrow> bool" where
  "builder_fresh b \<longleftrightarrow>
     bt_get (builder_nodes b) [] = Some root_node \<and>
     (\<forall>p n. bt_get (builder_nodes b) p = Some n \<longrightarrow> node_materialized_path n = None)"

lemma builder_new_nodes: "builder_nodes (builder_new pid) = [([], root_node)]"
  by (simp add: builder_new_def root_node_def)

lemma builder_new_provider: "builder_provider_id (builder_new pid) = pid"
  by (simp add: builder_new_def)

lemma root_node_first:
  assumes "builder_wf b" and "bt_get (builder_nodes b) [] = Some root_node"
  shows "\<exists>es. builder_nodes b = ([], root_node) # es \<and> (\<forall>e \<in> set es. fst e \<noteq> [])"
proof -
  have wf: "bt_wf (builder_nodes b)" using assms(1) by (simp add: builder_wf_def shape_wf_def)
  then have "([], root_node) \<in> set (builder_nodes b)" using assms(2) by (simp add: bt_entries_get)
  with wf show ?thesis by (cases "builder_nodes b") (auto simp: bt_wf_def)
qed

lemma builder_add_node_Inr:
  "add_node_check b path attr pnid kind = Inr p \<Longrightarrow>
     \<exists>b'. builder_add_node b path attr pnid kind = (b', Inr ()) \<and>
       builder_nodes b' = bt_insert p (builder_node b p attr pnid kind) (builder_nodes b) \<and>
       builder_provider_id b' = builder_provider_id b"
  by (simp add: builder_add_node_def Let_def)

lemma builder_add_node_cases:
  obtains (refused) e where "add_node_check b path attr pnid kind = Inl e"
      "builder_add_node b path attr pnid kind = (b, Inl e)"
  | (added) p b' where "add_node_check b path attr pnid kind = Inr p"
      "builder_add_node b path attr pnid kind = (b', Inr ())"
      "builder_nodes b' = bt_insert p (builder_node b p attr pnid kind) (builder_nodes b)"
      "builder_provider_id b' = builder_provider_id b"
proof (cases "add_node_check b path attr pnid kind")
  case (Inl e)
  then show ?thesis by (intro refused) (simp_all add: builder_add_node_def)
next
  case (Inr p)
  then show ?thesis using builder_add_node_Inr [OF Inr] added by blast
qed

lemma builder_reachable_fresh: "builder_reachable b \<Longrightarrow> builder_fresh b"
proof (induction rule: builder_reachable.induct)
  case (new provider_id)
  show ?case by (simp add: builder_fresh_def builder_new_nodes root_node_def)
next
  case (add b path attr provider_node_id kind)
  show ?case
  proof (rule builder_add_node_cases [of b path attr provider_node_id kind])
    fix p b'
    assume *: "add_node_check b path attr provider_node_id kind = Inr p"
      "builder_add_node b path attr provider_node_id kind = (b', Inr ())"
      "builder_nodes b' = bt_insert p (builder_node b p attr provider_node_id kind) (builder_nodes b)"
    from *(1) have "p \<noteq> []" by (auto simp: add_node_check_def outcome_simps)
    with add.IH * show ?thesis by (auto simp: builder_fresh_def)
  qed (use add.IH in simp)
qed

section \<open>Replaying the nodes\<close>

definition wire_node :: "PromiseNode \<Rightarrow> PromiseNodeBody" where
  "wire_node n = node_spec_into_body (node_spec n)"

lemma wire_node_simps [simp]:
  "nb_relative_path (wire_node n) = node_relative_path n"
  "nb_provider_node_id (wire_node n) = node_provider_node_id n"
  "node_attr_new (nb_mode (wire_node n)) (nb_size (wire_node n)) (nb_mtime_nsec (wire_node n)) = node_attr n"
  "nb_kind (wire_node n) = (case node_kind n of NodeKind.File \<Rightarrow> PromiseNodeKindBody.File
     | NodeKind.Directory \<Rightarrow> PromiseNodeKindBody.Directory)"
  by (simp_all add: wire_node_def node_spec_into_body_def node_spec_def node_attr_new_def split: NodeKind.splits)

lemma add_nodes_Cons:
  "add_nodes builder (wire_node n # nodes) =
     (case builder_add_node builder (node_relative_path n) (node_attr n) (node_provider_node_id n) (node_kind n) of
        (_, Inl status) \<Rightarrow> Inl status
      | (builder', Inr _) \<Rightarrow> add_nodes builder' nodes)"
  by (cases "node_kind n") (simp_all add: Let_def builder_add_file_def builder_add_dir_def)

lemma bt_insert_last: "(\<And>x. x \<in> fst ` set m \<Longrightarrow> x < k) \<Longrightarrow> bt_insert k v m = m @ [(k, v)]"
  for k :: "'k::linorder"
  by (induction m) force+

lemma unnumbered_keys: "unnumbered_nodes m = unnumbered_nodes m' \<Longrightarrow> map fst m = map fst m'"
  using bt_keys_map_values [of unnumbered m] bt_keys_map_values [of unnumbered m'] by (simp add: bt_keys_def)

lemma replay_position:
  assumes "shape_wf nodes children" and "nodes = pre @ (p, n) # es" and "pre \<noteq> []"
  obtains m where "p \<noteq> []" "node_ok nodes p n" "\<forall>q \<in> fst ` set pre. q < p"
    "(parent_path p, m) \<in> set pre" "node_kind m = NodeKind.Directory"
proof -
  note d = shape_wfD [OF assms(1)]
  have "(p, n) \<in> set nodes" by (simp add: assms(2))
  then have "bt_get nodes p = Some n" using bt_entries_get [OF d(1)] by simp
  then have ok: "node_ok nodes p n" by (rule d(4))
  have sorted: "sorted_wrt (<) (map fst pre @ p # map fst es)" using d(1) by (simp add: assms(2) bt_wf_def)
  then have before: "q < p" if "q \<in> fst ` set pre" for q using that by (auto simp: sorted_wrt_append)
  have after: "p < q" if "q \<in> fst ` set es" for q using that sorted by (auto simp: sorted_wrt_append)
  obtain q0 where "q0 \<in> fst ` set pre" using assms(3) by (cases pre) auto
  from before [OF this] have "p \<noteq> []" by auto
  with ok have norm: "normal_path p" "is_dir nodes (parent_path p)" by (auto simp: node_ok_def)
  then obtain m where m: "bt_get nodes (parent_path p) = Some m" "node_kind m = NodeKind.Directory"
    by (auto simp: is_dir_def split: option.splits)
  then have mem: "(parent_path p, m) \<in> set nodes" using bt_entries_get [OF d(1)] by simp
  have less: "parent_path p < p" by (rule parent_path_less [OF norm(1) \<open>p \<noteq> []\<close>])
  have "(parent_path p, m) \<in> set pre"
  proof (rule ccontr)
    assume "(parent_path p, m) \<notin> set pre"
    with mem have "parent_path p = p \<or> parent_path p \<in> fst ` set es" by (force simp: assms(2))
    with after less show False by (metis less_asym less_irrefl)
  qed
  with that \<open>p \<noteq> []\<close> ok before m(2) show ?thesis by blast
qed

lemma unnumbered_builder_node:
  assumes "node_ok nodes p n" and "p \<noteq> []" and "node_materialized_path n = None"
  shows "unnumbered (builder_node b p (node_attr n) (node_provider_node_id n) (node_kind n)) = unnumbered n"
  using assms by (intro PromiseNode.equality) (simp_all add: unnumbered_def node_ok_def)

lemma replay_step:
  assumes "shape_wf nodes children" and "nodes = pre @ (p, n) # es" and "pre \<noteq> []"
    and "node_materialized_path n = None"
    and "builder_wf b" and "unnumbered_nodes (builder_nodes b) = unnumbered_nodes pre"
  obtains b1 where
    "builder_add_node b (node_relative_path n) (node_attr n) (node_provider_node_id n) (node_kind n) = (b1, Inr ())"
    "builder_wf b1" "builder_provider_id b1 = builder_provider_id b"
    "unnumbered_nodes (builder_nodes b1) = unnumbered_nodes (pre @ [(p, n)])"
proof -
  obtain m where pos: "p \<noteq> []" "node_ok nodes p n" "\<forall>q \<in> fst ` set pre. q < p"
    "(parent_path p, m) \<in> set pre" "node_kind m = NodeKind.Directory"
    using replay_position [OF assms(1-3)] .
  have path: "node_relative_path n = p" and norm: "normal_path p" using pos(2) by (simp_all add: node_ok_def)
  have keys: "fst ` set (builder_nodes b) = fst ` set pre"
    using arg_cong [OF unnumbered_keys [OF assms(6)], of set] by simp
  have wfb: "bt_wf (builder_nodes b)" using assms(5) by (simp add: builder_wf_def shape_wf_def)
  have none: "bt_get (builder_nodes b) p = None"
    using pos(3) by (intro bt_get_not_key) (auto simp: keys)
  have "(parent_path p, unnumbered m) \<in> set (unnumbered_nodes (builder_nodes b))"
    unfolding assms(6) using pos(4) by (auto simp: bt_map_values_def intro!: image_eqI [where x = "(parent_path p, m)"])
  then have "bt_get (unnumbered_nodes (builder_nodes b)) (parent_path p) = Some (unnumbered m)"
    using bt_entries_get [of "unnumbered_nodes (builder_nodes b)"] wfb by simp
  then have "is_dir (unnumbered_nodes (builder_nodes b)) (parent_path p)"
    by (simp add: is_dir_def pos(5) del: bt_get_map_values)
  then have "is_dir (builder_nodes b) (parent_path p)" by (simp only: is_dir_unnumbered)
  with pos none norm have "add_node_check b (node_relative_path n) (node_attr n) (node_provider_node_id n) (node_kind n) = Inr p"
    by (simp add: add_node_check_Inr node_ok_def normal_path_def)
  then obtain b1 where b1: "builder_add_node b (node_relative_path n) (node_attr n) (node_provider_node_id n) (node_kind n) = (b1, Inr ())"
    "builder_nodes b1 = bt_insert p (builder_node b p (node_attr n) (node_provider_node_id n) (node_kind n)) (builder_nodes b)"
    "builder_provider_id b1 = builder_provider_id b"
    using builder_add_node_Inr by blast
  have "builder_nodes b1 = builder_nodes b @ [(p, builder_node b p (node_attr n) (node_provider_node_id n) (node_kind n))]"
    unfolding b1(2) using pos(3) keys by (intro bt_insert_last) blast
  then have "unnumbered_nodes (builder_nodes b1) = unnumbered_nodes (pre @ [(p, n)])"
    using assms(6) unnumbered_builder_node [OF pos(2,1) assms(4)] by (simp add: bt_map_values_def)
  moreover have "builder_wf b1"
    using builder_add_node_wf [OF assms(5), of "node_relative_path n" "node_attr n" "node_provider_node_id n" "node_kind n"] b1(1)
    by simp
  ultimately show ?thesis using that b1(1,3) by blast
qed

lemma add_nodes_replay:
  assumes "shape_wf nodes children" and "nodes = pre @ es" and "pre \<noteq> []"
    and "\<And>e. e \<in> set es \<Longrightarrow> node_materialized_path (snd e) = None"
    and "builder_wf b" and "unnumbered_nodes (builder_nodes b) = unnumbered_nodes pre"
  shows "\<exists>b'. add_nodes b (map (\<lambda>e. wire_node (snd e)) es) = Inr b' \<and> builder_wf b' \<and>
           builder_provider_id b' = builder_provider_id b \<and>
           unnumbered_nodes (builder_nodes b') = unnumbered_nodes nodes"
  using assms(2-)
proof (induction es arbitrary: pre b)
  case Nil
  then show ?case by auto
next
  case (Cons e es)
  obtain p n where e: "e = (p, n)" by (cases e)
  have mat: "node_materialized_path n = None" using Cons.prems(3) [of e] e by simp
  obtain b1 where b1:
    "builder_add_node b (node_relative_path n) (node_attr n) (node_provider_node_id n) (node_kind n) = (b1, Inr ())"
    "builder_wf b1" "builder_provider_id b1 = builder_provider_id b"
    "unnumbered_nodes (builder_nodes b1) = unnumbered_nodes (pre @ [(p, n)])"
    using replay_step [OF assms(1) Cons.prems(1) [unfolded e] Cons.prems(2) mat Cons.prems(4,5)] .
  have "\<exists>b'. add_nodes b1 (map (\<lambda>e. wire_node (snd e)) es) = Inr b' \<and> builder_wf b' \<and>
      builder_provider_id b' = builder_provider_id b1 \<and> unnumbered_nodes (builder_nodes b') = unnumbered_nodes nodes"
    by (rule Cons.IH [OF _ _ _ b1(2,4)]) (use Cons.prems(1,3) e in simp_all)
  with b1(1,3) show ?case by (simp add: e add_nodes_Cons del: add_nodes.simps(2))
qed

section \<open>The daemon's commit equals the client's\<close>

lemma assign_runtime_ids_unnumbered:
  "unnumbered_nodes es = unnumbered_nodes es' \<Longrightarrow> assign_runtime_ids rt es = assign_runtime_ids rt es'"
proof (induction es arbitrary: es' rt)
  case Nil
  then show ?case by (simp add: bt_map_values_def)
next
  case (Cons e es)
  obtain p n where e: "e = (p, n)" by (cases e)
  from Cons.prems obtain n' fs where es': "es' = (p, n') # fs" "unnumbered n = unnumbered n'"
    "unnumbered_nodes es = unnumbered_nodes fs"
    by (auto simp: bt_map_values_def e map_eq_Cons_conv)
  from es'(2) have "n\<lparr>node_id := i, node_inode := j\<rparr> = n'\<lparr>node_id := i, node_inode := j\<rparr>" for i j
    unfolding unnumbered_def by (cases n, cases n') simp
  then show ?case by (simp add: e es' Cons.IH [OF es'(3)])
qed

lemma commit_promise_unnumbered:
  assumes "unnumbered_nodes (builder_nodes b) = unnumbered_nodes (builder_nodes b')"
    and "builder_children b = builder_children b'" and "builder_provider_id b = builder_provider_id b'"
  shows "commit_promise rt b = commit_promise rt b'"
proof -
  note ids = assign_runtime_ids_unnumbered [OF assms(1)]
  show ?thesis
    unfolding commit_promise_def builder_finish_def Let_def assms(2,3)
    by (simp add: ids split: prod.splits sum.splits)
qed

lemma wire_nodes_of_builder:
  assumes "builder_wf b"
  shows "cb_nodes (commit_request_into_body (from_builder_with_owner_token b token)) =
           map (\<lambda>e. wire_node (snd e)) (filter (\<lambda>e. fst e \<noteq> []) (builder_nodes b))"
proof -
  have "filter (\<lambda>node. node_relative_path node \<noteq> []) (map snd m) = map snd (filter (\<lambda>e. fst e \<noteq> []) m)"
    if "\<forall>e\<in>set m. node_relative_path (snd e) = fst e" for m :: "(string \<times> PromiseNode) list"
    using that by (induction m) auto
  moreover have "\<forall>e\<in>set (builder_nodes b). node_relative_path (snd e) = fst e"
    using assms by (auto simp: builder_wf_def shape_wf_def node_ok_def)
  ultimately show ?thesis
    by (simp add: commit_request_into_body_def from_builder_with_owner_token_def wire_node_def bt_values_def comp_def)
qed

theorem replayed_commit:
  assumes "builder_reachable b"
  obtains b' where
    "add_nodes (builder_new (builder_provider_id b))
       (cb_nodes (commit_request_into_body (from_builder_with_owner_token b token))) = Inr b'"
    "builder_wf b'" "builder_provider_id b' = builder_provider_id b"
    "unnumbered_nodes (builder_nodes b') = unnumbered_nodes (builder_nodes b)"
    "builder_children b' = builder_children b" "\<And>rt. commit_promise rt b' = commit_promise rt b"
proof -
  have wf: "builder_wf b" by (rule builder_reachable_wf [OF assms])
  then have shape: "shape_wf (builder_nodes b) (builder_children b)" by (simp add: builder_wf_def)
  note d = shape_wfD [OF shape]
  have fresh: "bt_get (builder_nodes b) [] = Some root_node"
    and mat: "\<And>p n. bt_get (builder_nodes b) p = Some n \<Longrightarrow> node_materialized_path n = None"
    using builder_reachable_fresh [OF assms] by (auto simp: builder_fresh_def)
  obtain es where es: "builder_nodes b = ([], root_node) # es" "\<forall>e \<in> set es. fst e \<noteq> []"
    using root_node_first [OF wf fresh] by blast
  have "node_materialized_path (snd e) = None" if "e \<in> set es" for e
    using mat [of "fst e" "snd e"] bt_entries_get [OF d(1), of "fst e" "snd e"] that es(1) by simp
  from add_nodes_replay [OF shape, of "[([], root_node)]" es "builder_new (builder_provider_id b)", OF _ _ this]
  obtain b' where b': "add_nodes (builder_new (builder_provider_id b)) (map (\<lambda>e. wire_node (snd e)) es) = Inr b'"
    "builder_wf b'" "builder_provider_id b' = builder_provider_id b"
    "unnumbered_nodes (builder_nodes b') = unnumbered_nodes (builder_nodes b)"
    using builder_new_wf es(1) by (auto simp: builder_new_nodes builder_new_provider)
  have "filter (\<lambda>e. fst e \<noteq> []) (builder_nodes b) = es" using es by (simp add: filter_id_conv)
  with b'(1) have 1: "add_nodes (builder_new (builder_provider_id b))
       (cb_nodes (commit_request_into_body (from_builder_with_owner_token b token))) = Inr b'"
    by (simp add: wire_nodes_of_builder [OF wf])
  have 2: "builder_children b' = builder_children b"
    using children_determined [OF _ shape b'(4)] b'(2) by (simp add: builder_wf_def)
  show ?thesis using that [OF 1 b'(2-4) 2 commit_promise_unnumbered [OF b'(4) 2 b'(3)]] .
qed

end
