(* ===== verification/Ipc_System.thy ===== *)
theory Ipc_System
  imports Commit_Wire
begin

text \<open>
  The daemon as a whole: connections, readers and disconnects interleave on the shared state.
  A step is one locked section of some thread, so a registration is two steps and a disconnect
  three; only taking a pending read out of the table and sending its outcome is one step,
  which no other thread can tell from two. Besides the shared state the system records
  the local state of every connection, the provider ids drawn but not yet routed, the request
  ids that a reader has drawn but not used, the request each channel was made for and the
  channels whose reader has given up. A connection forgets a provider, or closes, only when
  the route is gone. The invariant covers all reachable interleavings:
  an answer in a mailbox always fits the request it was made for, a provider is registered by
  at most one connection, every route leads to a provider that an open connection has
  registered, and request ids never collide. The handlers of \<open>Ipc_Server\<close> only make
  such steps.
\<close>

record System =
  sys_ipc :: IpcState
  sys_clients :: "conn \<Rightarrow> Client option"
  sys_fresh :: "u64 set"
  sys_tickets :: "u64 set"
  sys_routed :: "ProviderReadRequest list"
  sys_abandoned :: "nat set"

definition system_new :: "Runtime \<Rightarrow> System" where
  "system_new rt =
     \<lparr>sys_ipc = ipc_state_new rt, sys_clients = (\<lambda>_. None), sys_fresh = {}, sys_tickets = {},
      sys_routed = [], sys_abandoned = {}\<rparr>"

abbreviation on_ipc :: "(IpcState \<Rightarrow> IpcState) \<Rightarrow> System \<Rightarrow> System" where
  "on_ipc f s \<equiv> s\<lparr>sys_ipc := f (sys_ipc s)\<rparr>"

inductive sys_step :: "System \<Rightarrow> System \<Rightarrow> bool" where
  accept: "sys_clients s c = None \<Longrightarrow> sys_step s (s\<lparr>sys_clients := (sys_clients s)(c \<mapsto> new_client)\<rparr>)"
| hello: "sys_clients s c = Some cl \<Longrightarrow>
    sys_step s (s\<lparr>sys_clients := (sys_clients s)(c \<mapsto> cl\<lparr>cl_negotiated := True\<rparr>)\<rparr>)"
| register: "register_provider (ipc_runtime (sys_ipc s)) = (rt, pid) \<Longrightarrow>
    sys_step s (s\<lparr>sys_ipc := (sys_ipc s)\<lparr>ipc_runtime := rt\<rparr>, sys_fresh := insert pid (sys_fresh s)\<rparr>)"
| route: "sys_clients s c = Some cl \<Longrightarrow> pid \<in> sys_fresh s \<Longrightarrow>
    sys_step s (s\<lparr>sys_ipc := register_provider_route pid token writer (sys_ipc s),
      sys_fresh := sys_fresh s - {pid},
      sys_clients := (sys_clients s)(c \<mapsto> cl\<lparr>cl_registered := cl_registered cl @ [pid]\<rparr>)\<rparr>)"
| runtime: "runtime_step (ipc_runtime (sys_ipc s)) rt \<Longrightarrow> sys_step s (on_ipc (\<lambda>st. st\<lparr>ipc_runtime := rt\<rparr>) s)"
| drop_route: "sys_step s (on_ipc (drop_provider_route pid) s)"
| fail_reads: "sys_step s (on_ipc (fail_provider_pending_reads pid kind) s)"
| forget: "sys_clients s c = Some cl \<Longrightarrow> bt_get (ipc_provider_routes (sys_ipc s)) pid = None \<Longrightarrow>
    sys_step s (s\<lparr>sys_clients := (sys_clients s)(c \<mapsto> cl\<lparr>cl_registered := filter (\<lambda>p. p \<noteq> pid) (cl_registered cl)\<rparr>)\<rparr>)"
| close: "sys_clients s c = Some cl \<Longrightarrow>
    (\<And>pid. pid \<in> set (cl_registered cl) \<Longrightarrow> bt_get (ipc_provider_routes (sys_ipc s)) pid = None) \<Longrightarrow>
    sys_step s (s\<lparr>sys_clients := (sys_clients s)(c := None)\<rparr>)"
| mount: "sys_step s (on_ipc (set_mount_status ms) s)"
| ticket: "next_provider_read_request_id (sys_ipc s) = (st, request_id) \<Longrightarrow>
    sys_step s (s\<lparr>sys_ipc := st, sys_tickets := insert request_id (sys_tickets s)\<rparr>)"
| enter: "rr_request_id request \<in> sys_tickets s \<Longrightarrow> read_request_into_body request = Inr body \<Longrightarrow>
    sys_step s (s\<lparr>sys_ipc := fst (enter_pending_read request (sys_ipc s)),
      sys_tickets := sys_tickets s - {rr_request_id request}, sys_routed := sys_routed s @ [request]\<rparr>)"
| give_up: "bt_get (ipc_pending_reads (sys_ipc s)) request_id = Some p \<Longrightarrow>
    sys_step s (s\<lparr>sys_ipc := remove_pending_read request_id (sys_ipc s),
      sys_abandoned := insert (pending_sender p) (sys_abandoned s)\<rparr>)"
| answer: "sys_clients s c = Some cl \<Longrightarrow>
    sys_step s (on_ipc (\<lambda>st. fst (complete_provider_read (cl_registered cl) body st)) s)"

inductive sys_reachable :: "nat \<Rightarrow> System \<Rightarrow> bool" where
  init: "sys_reachable 0 (system_new runtime_new)"
| step: "sys_reachable k s \<Longrightarrow> sys_step s s' \<Longrightarrow> sys_reachable (Suc k) s'"

text \<open>\<open>k\<close> bounds the number of steps, as in \<open>runtime_reachable\<close>: the counters of the runtime and
  the request counter wrap only after 2^64 steps.\<close>

section \<open>Answers fit their requests\<close>

definition answers_ok :: "System \<Rightarrow> bool" where
  "answers_ok s \<longleftrightarrow>
     length (sys_routed s) = length (ipc_channels (sys_ipc s)) \<and>
     (\<forall>k p. bt_get (ipc_pending_reads (sys_ipc s)) k = Some p \<longrightarrow>
        sys_routed s ! pending_sender p = pending_request p) \<and>
     (\<forall>i r. i < length (ipc_channels (sys_ipc s)) \<longrightarrow> Inr r \<in> set (ipc_channels (sys_ipc s) ! i) \<longrightarrow>
        validate_provider_read_response_for_request (sys_routed s ! i) r = Inr ())"

lemma answers_okD:
  assumes "answers_ok s"
  shows "length (sys_routed s) = length (ipc_channels (sys_ipc s))"
    and "\<And>k p. bt_get (ipc_pending_reads (sys_ipc s)) k = Some p \<Longrightarrow>
        sys_routed s ! pending_sender p = pending_request p"
    and "\<And>i r. i < length (ipc_channels (sys_ipc s)) \<Longrightarrow> Inr r \<in> set (ipc_channels (sys_ipc s) ! i) \<Longrightarrow>
        validate_provider_read_response_for_request (sys_routed s ! i) r = Inr ()"
  using assms unfolding answers_ok_def by blast+

lemma answers_ok_same:
  assumes "answers_ok s" and "ipc_channels st = ipc_channels (sys_ipc s)"
    and "\<And>k p. bt_get (ipc_pending_reads st) k = Some p \<Longrightarrow> bt_get (ipc_pending_reads (sys_ipc s)) k = Some p"
    and "sys_routed s' = sys_routed s" and "sys_ipc s' = st"
  shows "answers_ok s'"
  using answers_okD [OF assms(1)] assms(2-5) unfolding answers_ok_def by metis

lemma answers_ok_fail:
  assumes "answers_ok s" and "ipc_inv (sys_ipc s)"
  shows "answers_ok (on_ipc (fail_provider_pending_reads pid kind) s)" (is "answers_ok ?s")
proof -
  note a = answers_okD [OF assms(1)] and pend = fail_pending [OF assms(2)] and chans = fail_channels [OF assms(2)]
  show ?thesis
    unfolding answers_ok_def
  proof (intro conjI allI impI)
    show "length (sys_routed ?s) = length (ipc_channels (sys_ipc ?s))"
      by (simp add: a(1) fail_provider_pending_reads_simps)
  next
    fix k p assume "bt_get (ipc_pending_reads (sys_ipc ?s)) k = Some p"
    then have "bt_get (ipc_pending_reads (sys_ipc s)) k = Some p" by (simp add: pend split: option.splits if_splits)
    from a(2) [OF this] show "sys_routed ?s ! pending_sender p = pending_request p" by simp
  next
    fix i r
    assume "i < length (ipc_channels (sys_ipc ?s))" and r: "Inr r \<in> set (ipc_channels (sys_ipc ?s) ! i)"
    then have i: "i < length (ipc_channels (sys_ipc s))" by (simp add: fail_provider_pending_reads_simps)
    from r have "Inr r \<in> set (ipc_channels (sys_ipc s) ! i)" by (simp add: chans [OF i] split: if_splits)
    from a(3) [OF i this] show "validate_provider_read_response_for_request (sys_routed ?s ! i) r = Inr ()" by simp
  qed
qed

lemma answers_ok_deliver:
  assumes "answers_ok s" and "bt_get (ipc_pending_reads (sys_ipc s)) k = Some p"
    and "\<And>r. outcome = Inr r \<Longrightarrow> validate_provider_read_response_for_request (pending_request p) r = Inr ()"
    and "pending_sender p < length (ipc_channels (sys_ipc s))"
  shows "answers_ok (on_ipc (\<lambda>st. channel_send (pending_sender p) outcome (remove_pending_read k st)) s)"
proof -
  note a = answers_okD [OF assms(1)]
  have "validate_provider_read_response_for_request (sys_routed s ! i) r = Inr ()"
    if i: "i < length (ipc_channels (sys_ipc s))"
      and r: "Inr r \<in> set ((ipc_channels (sys_ipc s))[pending_sender p := ipc_channels (sys_ipc s) ! pending_sender p @ [outcome]] ! i)"
    for i r
  proof (cases "i = pending_sender p \<and> outcome = Inr r")
    case True
    with assms(3) a(2) [OF assms(2)] show ?thesis by simp
  next
    case False
    with r i have "Inr r \<in> set (ipc_channels (sys_ipc s) ! i)"
      by (cases "i = pending_sender p") auto
    with a(3) i show ?thesis by blast
  qed
  with a(1,2) show ?thesis
    by (auto simp: answers_ok_def split: if_splits)
qed

lemma answers_ok_enter:
  assumes "answers_ok s" and "ipc_inv (sys_ipc s)"
  shows "answers_ok (s\<lparr>sys_ipc := fst (enter_pending_read request (sys_ipc s)),
           sys_tickets := ts, sys_routed := sys_routed s @ [request]\<rparr>)"
proof -
  note a = answers_okD [OF assms(1)]
  have "pending_sender p < length (sys_routed s)" if "bt_get (ipc_pending_reads (sys_ipc s)) k = Some p" for k p
    using ipc_invD(3) [OF assms(2) that] a(1) by (simp add: pending_ok_def)
  with a show ?thesis
    by (auto simp: answers_ok_def enter_pending_read_eq nth_append less_Suc_eq split: if_splits)
qed

section \<open>Every reader is answered\<close>

definition readers_ok :: "System \<Rightarrow> bool" where
  "readers_ok s \<longleftrightarrow>
     (\<forall>i. i < length (ipc_channels (sys_ipc s)) \<longrightarrow> i \<notin> sys_abandoned s \<longrightarrow>
        ipc_channels (sys_ipc s) ! i = [] \<longrightarrow>
        (\<exists>k p. bt_get (ipc_pending_reads (sys_ipc s)) k = Some p \<and> pending_sender p = i))"

definition tickets_ok :: "System \<Rightarrow> bool" where
  "tickets_ok s \<longleftrightarrow>
     0 < ipc_next_read_request_id (sys_ipc s) \<and>
     (\<forall>t\<in>sys_tickets s. 0 < t \<and> t < ipc_next_read_request_id (sys_ipc s) \<and>
        bt_get (ipc_pending_reads (sys_ipc s)) t = None) \<and>
     (\<forall>k p. bt_get (ipc_pending_reads (sys_ipc s)) k = Some p \<longrightarrow> k < ipc_next_read_request_id (sys_ipc s)) \<and>
     (\<forall>q\<in>set (sys_routed s). rr_request_id q < ipc_next_read_request_id (sys_ipc s) \<and>
        rr_request_id q \<notin> sys_tickets s) \<and>
     distinct (map rr_request_id (sys_routed s))"

text \<open>A provider id is on the list of at most one connection, at most once, and a fresh one on none.\<close>

definition owners_ok :: "System \<Rightarrow> bool" where
  "owners_ok s \<longleftrightarrow>
     (\<forall>c cl. sys_clients s c = Some cl \<longrightarrow> distinct (cl_registered cl) \<and>
        (\<forall>pid\<in>set (cl_registered cl). pid \<notin> sys_fresh s \<and>
           bt_get (rt_providers (ipc_runtime (sys_ipc s))) pid \<noteq> None)) \<and>
     (\<forall>c c' cl cl' pid. sys_clients s c = Some cl \<longrightarrow> sys_clients s c' = Some cl' \<longrightarrow>
        pid \<in> set (cl_registered cl) \<longrightarrow> pid \<in> set (cl_registered cl') \<longrightarrow> c = c') \<and>
     (\<forall>pid\<in>sys_fresh s. bt_get (rt_providers (ipc_runtime (sys_ipc s))) pid \<noteq> None)"

text \<open>A route leads to a provider of the runtime that an open connection has registered.\<close>

definition routes_ok :: "System \<Rightarrow> bool" where
  "routes_ok s \<longleftrightarrow>
     (\<forall>pid route. bt_get (ipc_provider_routes (sys_ipc s)) pid = Some route \<longrightarrow>
        pid \<noteq> 0 \<and> bt_get (rt_providers (ipc_runtime (sys_ipc s))) pid \<noteq> None \<and>
        (\<exists>c cl. sys_clients s c = Some cl \<and> pid \<in> set (cl_registered cl)))"

definition sys_inv :: "System \<Rightarrow> bool" where
  "sys_inv s \<longleftrightarrow> rt_inv (ipc_runtime (sys_ipc s)) \<and> ipc_inv (sys_ipc s) \<and> answers_ok s \<and> readers_ok s \<and>
     tickets_ok s \<and> owners_ok s \<and> routes_ok s \<and> (\<forall>i\<in>sys_abandoned s. i < length (ipc_channels (sys_ipc s)))"

lemma sys_invD:
  assumes "sys_inv s"
  shows "rt_inv (ipc_runtime (sys_ipc s))" and "ipc_inv (sys_ipc s)" and "answers_ok s" and "readers_ok s"
    and "tickets_ok s" and "owners_ok s" and "\<forall>i\<in>sys_abandoned s. i < length (ipc_channels (sys_ipc s))"
    and "routes_ok s"
  using assms unfolding sys_inv_def by blast+

lemma readers_ok_fail:
  assumes "readers_ok s" and "ipc_inv (sys_ipc s)"
  shows "readers_ok (on_ipc (fail_provider_pending_reads pid kind) s)" (is "readers_ok ?s")
proof -
  note pend = fail_pending [OF assms(2)] and chans = fail_channels [OF assms(2)]
  show ?thesis
    unfolding readers_ok_def
  proof (intro allI impI)
    fix i
    assume "i < length (ipc_channels (sys_ipc ?s))" and "i \<notin> sys_abandoned ?s" and e: "ipc_channels (sys_ipc ?s) ! i = []"
    then have i: "i < length (ipc_channels (sys_ipc s))" "i \<notin> sys_abandoned s"
      by (simp_all add: fail_provider_pending_reads_simps)
    from e have none: "\<not> (\<exists>k p. bt_get (ipc_pending_reads (sys_ipc s)) k = Some p \<and> pending_provider_id p = pid \<and> pending_sender p = i)"
      and "ipc_channels (sys_ipc s) ! i = []"
      by (auto simp: chans [OF i(1)] split: if_splits)
    with assms(1) i obtain k p where kp: "bt_get (ipc_pending_reads (sys_ipc s)) k = Some p" "pending_sender p = i"
      unfolding readers_ok_def by blast
    with none have "bt_get (ipc_pending_reads (sys_ipc ?s)) k = Some p" by (auto simp: pend)
    with kp(2) show "\<exists>k p. bt_get (ipc_pending_reads (sys_ipc ?s)) k = Some p \<and> pending_sender p = i" by auto
  qed
qed

lemma readers_ok_deliver:
  assumes "readers_ok s" and "bt_get (ipc_pending_reads (sys_ipc s)) k = Some p"
  shows "readers_ok (on_ipc (\<lambda>st. channel_send (pending_sender p) outcome (remove_pending_read k st)) s)"
  unfolding readers_ok_def
proof (intro allI impI)
  fix i
  let ?s = "on_ipc (\<lambda>st. channel_send (pending_sender p) outcome (remove_pending_read k st)) s"
  assume "i < length (ipc_channels (sys_ipc ?s))" "i \<notin> sys_abandoned ?s" and e: "ipc_channels (sys_ipc ?s) ! i = []"
  then have i: "i < length (ipc_channels (sys_ipc s))" "i \<notin> sys_abandoned s" by simp_all
  from e i(1) have ne: "i \<noteq> pending_sender p" by auto
  with e have "ipc_channels (sys_ipc s) ! i = []" by simp
  with assms(1) i obtain k' p' where "bt_get (ipc_pending_reads (sys_ipc s)) k' = Some p'" "pending_sender p' = i"
    unfolding readers_ok_def by blast
  with assms(2) ne have "bt_get (ipc_pending_reads (sys_ipc ?s)) k' = Some p' \<and> pending_sender p' = i" by auto
  then show "\<exists>k p. bt_get (ipc_pending_reads (sys_ipc ?s)) k = Some p \<and> pending_sender p = i" by blast
qed

lemma readers_ok_enter:
  assumes "readers_ok s" and "bt_get (ipc_pending_reads (sys_ipc s)) (rr_request_id request) = None"
  shows "readers_ok (s\<lparr>sys_ipc := fst (enter_pending_read request (sys_ipc s)), sys_tickets := ts, sys_routed := rs\<rparr>)"
  unfolding readers_ok_def
proof (intro allI impI)
  fix i
  let ?s = "s\<lparr>sys_ipc := fst (enter_pending_read request (sys_ipc s)), sys_tickets := ts, sys_routed := rs\<rparr>"
  assume "i < length (ipc_channels (sys_ipc ?s))" and a: "i \<notin> sys_abandoned ?s" and e: "ipc_channels (sys_ipc ?s) ! i = []"
  then consider "i = length (ipc_channels (sys_ipc s))" | "i < length (ipc_channels (sys_ipc s))"
    by (fastforce simp: enter_pending_read_eq)
  then show "\<exists>k p. bt_get (ipc_pending_reads (sys_ipc ?s)) k = Some p \<and> pending_sender p = i"
  proof cases
    case 1
    then show ?thesis by (intro exI [of _ "rr_request_id request"]) (simp add: enter_pending_read_eq)
  next
    case 2
    with a e assms(1) obtain k p where "bt_get (ipc_pending_reads (sys_ipc s)) k = Some p" "pending_sender p = i"
      unfolding readers_ok_def by (auto simp: enter_pending_read_eq nth_append)
    with assms(2) show ?thesis by (intro exI [of _ k] exI [of _ p]) (auto simp: enter_pending_read_eq)
  qed
qed

lemma readers_ok_give_up:
  assumes "readers_ok s" and "bt_get (ipc_pending_reads (sys_ipc s)) k = Some p"
  shows "readers_ok (s\<lparr>sys_ipc := remove_pending_read k (sys_ipc s),
           sys_abandoned := insert (pending_sender p) (sys_abandoned s)\<rparr>)"
  unfolding readers_ok_def
proof (intro allI impI)
  fix i
  let ?s = "s\<lparr>sys_ipc := remove_pending_read k (sys_ipc s), sys_abandoned := insert (pending_sender p) (sys_abandoned s)\<rparr>"
  assume "i < length (ipc_channels (sys_ipc ?s))" "i \<notin> sys_abandoned ?s" "ipc_channels (sys_ipc ?s) ! i = []"
  with assms(1) obtain k' p' where "bt_get (ipc_pending_reads (sys_ipc s)) k' = Some p'" "pending_sender p' = i"
    "i \<noteq> pending_sender p" unfolding readers_ok_def by auto
  with assms(2) have "bt_get (ipc_pending_reads (sys_ipc ?s)) k' = Some p' \<and> pending_sender p' = i" by auto
  then show "\<exists>k p. bt_get (ipc_pending_reads (sys_ipc ?s)) k = Some p \<and> pending_sender p = i" by blast
qed

section \<open>Preservation\<close>

lemma sys_step_abandoned:
  assumes "sys_step s s'" and "ipc_inv (sys_ipc s)" and "\<forall>i\<in>sys_abandoned s. i < length (ipc_channels (sys_ipc s))"
  shows "\<forall>i\<in>sys_abandoned s'. i < length (ipc_channels (sys_ipc s'))"
  using assms(1)
proof cases
  case (fail_reads pid kind)
  with assms(3) show ?thesis by (simp add: fail_provider_pending_reads_simps)
next
  case (give_up request_id p)
  with ipc_invD(3) [OF assms(2) give_up(2)] assms(3) show ?thesis by (auto simp: pending_ok_def)
next
  case (answer c cl body)
  with assms(3) show ?thesis
    by (cases rule: complete_provider_read_cases [of body "cl_registered cl" "sys_ipc s"]) simp_all
next
  case (enter request body)
  with assms(3) show ?thesis by (auto simp: enter_pending_read_eq)
qed (use assms(3) in \<open>auto simp: register_provider_route_def set_mount_status_def next_provider_read_request_id_def\<close>)

lemma runtime_step_providers:
  assumes "runtime_step rt rt'" and "bt_get (rt_providers rt) pid \<noteq> None"
  shows "bt_get (rt_providers rt') pid \<noteq> None"
  using assms
proof (induction rule: runtime_step.induct)
  case (commit b rt)
  then show ?case by (cases rule: commit_promise_cases [where rt = rt and b = b]) auto
qed (auto simp: set_cache_policy_def Let_def register_provider_def unregister_provider_def
    mark_node_materialized_def record_cached_read_def outcome_simps split: sum.splits option.splits)

lemma sys_step_runtime:
  assumes "sys_step s s'"
  shows "ipc_runtime (sys_ipc s') = ipc_runtime (sys_ipc s) \<or>
         runtime_step (ipc_runtime (sys_ipc s)) (ipc_runtime (sys_ipc s'))"
  using assms
proof cases
  case (register rt pid)
  then have "rt = fst (register_provider (ipc_runtime (sys_ipc s)))" by simp
  with register(1) show ?thesis by (simp add: runtime_step.register)
next
  case (answer c cl body)
  then show ?thesis
    by (cases rule: complete_provider_read_cases [of body "cl_registered cl" "sys_ipc s"]) simp_all
qed (auto simp: set_mount_status_def next_provider_read_request_id_def enter_pending_read_eq
    register_provider_route_def fail_provider_pending_reads_simps)

lemma register_provider_new:
  assumes "register_provider rt = (rt', pid)" and "rt_inv rt"
  shows "pid = rt_next_provider_id rt" and "pid \<noteq> 0" and "bt_get (rt_providers rt) pid = None"
    and "bt_get (rt_providers rt') q \<noteq> None \<longleftrightarrow> q = pid \<or> bt_get (rt_providers rt) q \<noteq> None"
proof -
  have p: "pid = rt_next_provider_id rt"
    and rt': "rt_providers rt' = bt_insert pid \<lparr>session_id = pid, session_state = Live\<rparr> (rt_providers rt)"
    using assms(1) by (auto simp: register_provider_def Let_def)
  show "pid = rt_next_provider_id rt" by (rule p)
  show "pid \<noteq> 0" using rt_invD(7) [OF assms(2)] by (simp add: p)
  show "bt_get (rt_providers rt) pid = None"
    using rt_invD(3) [OF assms(2), of pid] by (cases "bt_get (rt_providers rt) pid") (auto simp: provider_ok_def p)
  show "bt_get (rt_providers rt') q \<noteq> None \<longleftrightarrow> q = pid \<or> bt_get (rt_providers rt) q \<noteq> None"
    by (simp add: rt')
qed

lemma sys_step_ipc_inv:
  assumes "sys_step s s'" and "ipc_inv (sys_ipc s)"
  shows "ipc_inv (sys_ipc s')"
  using assms(1)
proof cases
  case (register rt pid)
  with ipc_inv_runtime [OF assms(2)] show ?thesis by simp
next
  case (runtime rt)
  with ipc_inv_runtime [OF assms(2)] show ?thesis by simp
next
  case (ticket st request_id)
  with next_request_id_inv [OF assms(2)] show ?thesis by simp
next
  case (enter request body)
  from enter(3) have "read_request_ok request" by (auto simp: read_request_into_body_Inr)
  from enter_pending_read_inv [OF assms(2) this] enter(1) show ?thesis by simp
qed (use assms(2) in \<open>simp_all add: register_provider_route_inv drop_provider_route_inv fail_provider_pending_reads_inv
      set_mount_status_inv remove_pending_read_inv complete_provider_read_inv\<close>)

lemma sys_step_answers_ok:
  assumes "sys_step s s'" and "ipc_inv (sys_ipc s)" and "answers_ok s"
  shows "answers_ok s'"
  using assms(1)
proof cases
  case (fail_reads pid kind)
  with answers_ok_fail [OF assms(3,2)] show ?thesis by simp
next
  case (enter request body)
  with answers_ok_enter [OF assms(3,2)] show ?thesis by simp
next
  case (answer c cl body)
  show ?thesis
  proof (cases rule: complete_provider_read_cases [of body "cl_registered cl" "sys_ipc s"])
    case (answered response p)
    have "pending_sender p < length (ipc_channels (sys_ipc s))"
      using ipc_invD(3) [OF assms(2) answered(2)] by (simp add: pending_ok_def)
    from answers_ok_deliver [OF assms(3) answered(2) _ this, of "answer_of (cl_registered cl) p response"]
    show ?thesis by (simp add: answer(1) answered(3) answer_of_Inr)
  qed (use answer assms(3) in simp_all)
qed (use assms(3) in \<open>auto simp: answers_ok_def register_provider_route_def set_mount_status_def
      next_provider_read_request_id_def split: if_splits\<close>)

lemma sys_step_readers_ok:
  assumes "sys_step s s'" and "ipc_inv (sys_ipc s)" and "tickets_ok s" and "readers_ok s"
  shows "readers_ok s'"
  using assms(1)
proof cases
  case (fail_reads pid kind)
  with readers_ok_fail [OF assms(4,2)] show ?thesis by simp
next
  case (enter request body)
  with assms(3) have "bt_get (ipc_pending_reads (sys_ipc s)) (rr_request_id request) = None"
    by (simp add: tickets_ok_def)
  from readers_ok_enter [OF assms(4) this] enter show ?thesis by simp
next
  case (give_up request_id p)
  with readers_ok_give_up [OF assms(4)] show ?thesis by simp
next
  case (answer c cl body)
  show ?thesis
  proof (cases rule: complete_provider_read_cases [of body "cl_registered cl" "sys_ipc s"])
    case (answered response p)
    from readers_ok_deliver [OF assms(4) answered(2), of "answer_of (cl_registered cl) p response"]
    show ?thesis by (simp add: answer(1) answered(3))
  qed (use answer assms(4) in simp_all)
qed (use assms(4) in \<open>auto simp: readers_ok_def register_provider_route_def set_mount_status_def
      next_provider_read_request_id_def\<close>)

lemma tickets_ok_same:
  assumes "tickets_ok s" and "ipc_next_read_request_id (sys_ipc s') = ipc_next_read_request_id (sys_ipc s)"
    and "sys_tickets s' \<subseteq> sys_tickets s" and "sys_routed s' = sys_routed s"
    and "\<And>k p. bt_get (ipc_pending_reads (sys_ipc s')) k = Some p \<Longrightarrow>
          \<exists>p. bt_get (ipc_pending_reads (sys_ipc s)) k = Some p"
  shows "tickets_ok s'"
proof -
  have "bt_get (ipc_pending_reads (sys_ipc s')) t = None" if "bt_get (ipc_pending_reads (sys_ipc s)) t = None" for t
    using assms(5) [of t] that by (cases "bt_get (ipc_pending_reads (sys_ipc s')) t") auto
  moreover have "k < ipc_next_read_request_id (sys_ipc s)" if "bt_get (ipc_pending_reads (sys_ipc s')) k = Some p" for k p
    using assms(5) [OF that] assms(1) by (auto simp: tickets_ok_def)
  ultimately show ?thesis
    using assms(1,3) unfolding tickets_ok_def assms(2,4) by blast
qed

lemma tickets_ok_ticket:
  assumes "tickets_ok s" and "ipc_next_read_request_id (sys_ipc s) \<noteq> - 1"
    and "next_provider_read_request_id (sys_ipc s) = (st, t)"
  shows "tickets_ok (s\<lparr>sys_ipc := st, sys_tickets := insert t (sys_tickets s)\<rparr>)"
proof -
  let ?n = "ipc_next_read_request_id (sys_ipc s)"
  have up: "a < ?n + 1" if "a \<le> ?n" for a using less_plus_one [OF assms(2) that] .
  have "bt_get (ipc_pending_reads (sys_ipc s)) ?n = None"
    using assms(1) by (cases "bt_get (ipc_pending_reads (sys_ipc s)) ?n") (auto simp: tickets_ok_def)
  moreover have "0 < ?n + 1" by (rule up) simp
  moreover have "q < ?n + 1" if "q < ?n" for q by (rule up) (use that in simp)
  moreover have "st = (sys_ipc s)\<lparr>ipc_next_read_request_id := ?n + 1\<rparr>" "t = ?n"
    using assms(3) by (auto simp: next_provider_read_request_id_def)
  ultimately show ?thesis
    using assms(1) up [of ?n] unfolding tickets_ok_def by auto
qed

lemma sys_step_tickets_ok:
  assumes "sys_step s s'" and "ipc_inv (sys_ipc s)" and "tickets_ok s" and "ipc_next_read_request_id (sys_ipc s) \<noteq> - 1"
  shows "tickets_ok s'"
  using assms(1)
proof cases
  case (fail_reads pid kind)
  show ?thesis
    by (rule tickets_ok_same [OF assms(3)])
      (simp_all add: fail_reads fail_pending [OF assms(2)] fail_provider_pending_reads_simps split: option.splits if_splits)
next
  case (ticket st request_id)
  with tickets_ok_ticket [OF assms(3,4)] show ?thesis by simp
next
  case (enter request body)
  with assms(3) show ?thesis by (auto simp: tickets_ok_def enter_pending_read_eq)
next
  case (give_up request_id p)
  with assms(3) show ?thesis by (auto simp: tickets_ok_def)
next
  case (answer c cl body)
  show ?thesis
  proof (cases rule: complete_provider_read_cases [of body "cl_registered cl" "sys_ipc s"])
    case (answered response p)
    show ?thesis
      by (rule tickets_ok_same [OF assms(3)]) (simp_all add: answer(1) answered(3) split: if_splits)
  qed (use answer assms(3) in simp_all)
qed (use assms(3) in \<open>simp_all add: tickets_ok_def register_provider_route_def set_mount_status_def\<close>)

lemma owners_ok_shrink:
  assumes "owners_ok s"
    and "\<And>c cl. sys_clients s' c = Some cl \<Longrightarrow> cl_registered cl = [] \<or>
          (\<exists>cl0 P. sys_clients s c = Some cl0 \<and> cl_registered cl = filter P (cl_registered cl0))"
    and "\<And>pid. bt_get (rt_providers (ipc_runtime (sys_ipc s))) pid \<noteq> None \<Longrightarrow>
          bt_get (rt_providers (ipc_runtime (sys_ipc s'))) pid \<noteq> None"
    and "sys_fresh s' = sys_fresh s"
  shows "owners_ok s'"
proof -
  have old: "\<exists>cl0. sys_clients s c = Some cl0 \<and> pid \<in> set (cl_registered cl0)"
    if "sys_clients s' c = Some cl" "pid \<in> set (cl_registered cl)" for c cl pid
    using assms(2) [OF that(1)] that(2) by (elim disjE exE conjE) simp_all
  have d: "distinct (cl_registered cl)" if "sys_clients s' c = Some cl" for c cl
    using assms(2) [OF that] assms(1) unfolding owners_ok_def by (elim disjE exE conjE) simp_all
  show ?thesis
    unfolding owners_ok_def assms(4)
  proof (intro conjI allI impI ballI)
    fix c cl assume c: "sys_clients s' c = Some cl"
    then show "distinct (cl_registered cl)" by (rule d)
    fix pid assume "pid \<in> set (cl_registered cl)"
    note o = old [OF c this]
    from o assms(1) show "pid \<notin> sys_fresh s" unfolding owners_ok_def by blast
    from o assms(1,3) show "bt_get (rt_providers (ipc_runtime (sys_ipc s'))) pid \<noteq> None"
      unfolding owners_ok_def by blast
  next
    fix c c' cl cl' pid
    assume "sys_clients s' c = Some cl" "sys_clients s' c' = Some cl'"
      "pid \<in> set (cl_registered cl)" "pid \<in> set (cl_registered cl')"
    with old [of c cl pid] old [of c' cl' pid] assms(1) show "c = c'" unfolding owners_ok_def by blast
  next
    fix pid assume "pid \<in> sys_fresh s"
    with assms(1,3) show "bt_get (rt_providers (ipc_runtime (sys_ipc s'))) pid \<noteq> None" unfolding owners_ok_def by blast
  qed
qed

lemma owners_ok_register:
  assumes "owners_ok s" and "rt_inv (ipc_runtime (sys_ipc s))"
    and "register_provider (ipc_runtime (sys_ipc s)) = (rt, pid)"
  shows "owners_ok (s\<lparr>sys_ipc := (sys_ipc s)\<lparr>ipc_runtime := rt\<rparr>, sys_fresh := insert pid (sys_fresh s)\<rparr>)"
proof -
  note new = register_provider_new [OF assms(3,2)]
  have "pid \<notin> set (cl_registered cl')" if "sys_clients s c' = Some cl'" for c' cl'
    using that assms(1) new(3) unfolding owners_ok_def by blast
  with assms(1) new(4) show ?thesis unfolding owners_ok_def by auto
qed

lemma owners_ok_route:
  assumes "owners_ok s" and "sys_clients s c = Some cl" and "pid \<in> sys_fresh s" and "ipc_runtime st = ipc_runtime (sys_ipc s)"
  shows "owners_ok (s\<lparr>sys_ipc := st, sys_fresh := sys_fresh s - {pid},
           sys_clients := (sys_clients s)(c \<mapsto> cl\<lparr>cl_registered := cl_registered cl @ [pid]\<rparr>)\<rparr>)"
proof -
  have "pid \<notin> set (cl_registered cl')" if "sys_clients s c' = Some cl'" for c' cl'
    using that assms(1,3) unfolding owners_ok_def by blast
  with assms show ?thesis unfolding owners_ok_def by (auto split: if_splits)
qed

lemma sys_step_owners_ok:
  assumes "sys_step s s'" and "rt_inv (ipc_runtime (sys_ipc s))" and "owners_ok s"
  shows "owners_ok s'"
proof -
  have keep: "bt_get (rt_providers (ipc_runtime (sys_ipc s'))) pid \<noteq> None"
    if "bt_get (rt_providers (ipc_runtime (sys_ipc s))) pid \<noteq> None" for pid
    using sys_step_runtime [OF assms(1)] runtime_step_providers that by metis
  have same: "\<exists>cl0 P. sys_clients s c = Some cl0 \<and> cl_registered cl = filter P (cl_registered cl0)"
    if "sys_clients s c = Some cl" for c cl
    using that by (intro exI [of _ cl] exI [of _ "\<lambda>_. True"]) simp
  have unchanged: "owners_ok s'" if "sys_clients s' = sys_clients s" "sys_fresh s' = sys_fresh s"
    by (rule owners_ok_shrink [OF assms(3) _ keep]) (use same that in auto)
  from assms(1) show ?thesis
  proof cases
    case (register rt pid)
    with owners_ok_register [OF assms(3,2) register(2)] show ?thesis by simp
  next
    case (route c cl pid token writer)
    with owners_ok_route [OF assms(3) route(2,3)] show ?thesis by (simp add: register_provider_route_def)
  next
    case (accept c)
    show ?thesis
      by (rule owners_ok_shrink [OF assms(3) _ keep])
        (use same in \<open>auto simp: accept new_client_def split: if_splits\<close>)
  next
    case (forget c cl pid)
    show ?thesis
      by (rule owners_ok_shrink [OF assms(3) _ keep])
        (use same forget(2) in \<open>auto simp: forget(1) split: if_splits\<close>)
  next
    case (hello c cl)
    show ?thesis
      by (rule owners_ok_shrink [OF assms(3) _ keep])
        (use same same [OF hello(2)] hello(2) in \<open>auto simp: hello(1) split: if_splits\<close>)
  next
    case (close c cl)
    show ?thesis
      by (rule owners_ok_shrink [OF assms(3) _ keep]) (use same in \<open>simp_all add: close(1) split: if_splits\<close>)
  qed (rule unchanged; simp)+
qed

lemma routes_ok_shrink:
  assumes "routes_ok s"
    and "\<And>pid route. bt_get (ipc_provider_routes (sys_ipc s')) pid = Some route \<Longrightarrow>
          bt_get (ipc_provider_routes (sys_ipc s)) pid = Some route \<and>
          (\<forall>c cl. sys_clients s c = Some cl \<longrightarrow> pid \<in> set (cl_registered cl) \<longrightarrow>
             (\<exists>cl'. sys_clients s' c = Some cl' \<and> pid \<in> set (cl_registered cl')))"
    and "\<And>pid. bt_get (rt_providers (ipc_runtime (sys_ipc s))) pid \<noteq> None \<Longrightarrow>
          bt_get (rt_providers (ipc_runtime (sys_ipc s'))) pid \<noteq> None"
  shows "routes_ok s'"
  unfolding routes_ok_def
proof (intro allI impI)
  fix pid route assume "bt_get (ipc_provider_routes (sys_ipc s')) pid = Some route"
  note r = assms(2) [OF this]
  with assms(1) obtain c cl where "pid \<noteq> 0" "bt_get (rt_providers (ipc_runtime (sys_ipc s))) pid \<noteq> None"
    "sys_clients s c = Some cl" "pid \<in> set (cl_registered cl)" unfolding routes_ok_def by blast
  with r assms(3) show "pid \<noteq> 0 \<and> bt_get (rt_providers (ipc_runtime (sys_ipc s'))) pid \<noteq> None \<and>
      (\<exists>c cl. sys_clients s' c = Some cl \<and> pid \<in> set (cl_registered cl))" by blast
qed

lemma sys_step_routes_ok:
  assumes "sys_step s s'" and "rt_inv (ipc_runtime (sys_ipc s))" and "owners_ok s" and "routes_ok s"
  shows "routes_ok s'"
proof -
  have keep: "bt_get (rt_providers (ipc_runtime (sys_ipc s'))) pid \<noteq> None"
    if "bt_get (rt_providers (ipc_runtime (sys_ipc s))) pid \<noteq> None" for pid
    using sys_step_runtime [OF assms(1)] runtime_step_providers that by metis
  note shrink = routes_ok_shrink [OF assms(4) _ keep]
  from assms(1) show ?thesis
  proof cases
    case (route c cl pid token writer)
    have "pid \<noteq> 0" and "bt_get (rt_providers (ipc_runtime (sys_ipc s))) pid \<noteq> None"
      using assms(2,3) route(3) rt_invD(3) [OF assms(2), of pid] by (auto simp: owners_ok_def provider_ok_def)
    note known = this
    show ?thesis
      unfolding routes_ok_def
    proof (intro allI impI)
      fix q r assume r: "bt_get (ipc_provider_routes (sys_ipc s')) q = Some r"
      show "q \<noteq> 0 \<and> bt_get (rt_providers (ipc_runtime (sys_ipc s'))) q \<noteq> None \<and>
          (\<exists>c cl. sys_clients s' c = Some cl \<and> q \<in> set (cl_registered cl))"
      proof (cases "q = pid")
        case True
        with known keep show ?thesis by (intro conjI exI [of _ c]) (simp_all add: route(1))
      next
        case False
        with r have "bt_get (ipc_provider_routes (sys_ipc s)) q = Some r"
          by (simp add: route(1) register_provider_route_def)
        with assms(4) obtain d dl where "q \<noteq> 0" "bt_get (rt_providers (ipc_runtime (sys_ipc s))) q \<noteq> None"
          "sys_clients s d = Some dl" "q \<in> set (cl_registered dl)" unfolding routes_ok_def by blast
        with keep route(2) show ?thesis by (intro conjI exI [of _ d]) (auto simp: route(1))
      qed
    qed
  next
    case (answer c cl body)
    with assms(4) show ?thesis
      by (cases rule: complete_provider_read_cases [of body "cl_registered cl" "sys_ipc s"])
        (simp_all add: routes_ok_def)
  next
    case (ticket st i)
    then show ?thesis by (intro shrink) (auto simp: next_provider_read_request_id_def)
  next
    case (accept c)
    then show ?thesis by (intro shrink) auto
  next
    case (hello c cl)
    then show ?thesis by (intro shrink) auto
  next
    case (forget c cl pid)
    then show ?thesis by (intro shrink) auto
  next
    case (close c cl)
    then show ?thesis by (intro shrink) auto
  next
    case (drop_route pid)
    then show ?thesis by (intro shrink) (auto split: if_splits)
  qed (rule shrink; simp add: set_mount_status_def enter_pending_read_eq fail_provider_pending_reads_simps)+
qed

lemma sys_step_inv:
  assumes "sys_step s s'" and "sys_inv s" and "rt_next_provider_id (ipc_runtime (sys_ipc s)) \<noteq> - 1"
    and "rt_next_promise_id (ipc_runtime (sys_ipc s)) \<noteq> - 1" and "ipc_next_read_request_id (sys_ipc s) \<noteq> - 1"
  shows "sys_inv s'"
proof -
  note inv = sys_invD [OF assms(2)]
  have "rt_inv (ipc_runtime (sys_ipc s'))"
    using sys_step_runtime [OF assms(1)] step_inv [OF _ inv(1) assms(3,4)] inv(1) by auto
  then show ?thesis
    using sys_step_ipc_inv [OF assms(1) inv(2)] sys_step_answers_ok [OF assms(1) inv(2,3)]
      sys_step_readers_ok [OF assms(1) inv(2,5,4)] sys_step_tickets_ok [OF assms(1) inv(2,5) assms(5)]
      sys_step_owners_ok [OF assms(1) inv(1,6)] sys_step_abandoned [OF assms(1) inv(2,7)]
      sys_step_routes_ok [OF assms(1) inv(1,6,8)]
    by (simp add: sys_inv_def)
qed

lemma sys_step_request_counter:
  assumes "sys_step s s'"
  shows "ipc_next_read_request_id (sys_ipc s') = ipc_next_read_request_id (sys_ipc s) \<or>
         ipc_next_read_request_id (sys_ipc s') = ipc_next_read_request_id (sys_ipc s) + 1"
  using assms
proof cases
  case (answer c cl body)
  then show ?thesis
    by (cases rule: complete_provider_read_cases [of body "cl_registered cl" "sys_ipc s"]) simp_all
qed (auto simp: set_mount_status_def next_provider_read_request_id_def enter_pending_read_eq register_provider_route_def
    fail_provider_pending_reads_simps)

lemma system_new_inv: "sys_inv (system_new runtime_new)"
  using ipc_inv_new [of runtime_new]
  by (simp add: sys_inv_def system_new_def rt_inv_new answers_ok_def readers_ok_def tickets_ok_def
      owners_ok_def routes_ok_def ipc_state_new_def)

text \<open>That answers fit their requests does not depend on the counters: it holds after any number
  of steps.\<close>

theorem sys_reachable_answers:
  assumes "sys_reachable k s"
  shows "ipc_inv (sys_ipc s)" and "answers_ok s"
proof -
  from assms have "ipc_inv (sys_ipc s) \<and> answers_ok s"
  proof (induction rule: sys_reachable.induct)
    case init
    show ?case using system_new_inv by (simp add: sys_inv_def)
  next
    case (step k s s')
    then show ?case by (blast intro: sys_step_ipc_inv sys_step_answers_ok)
  qed
  then show "ipc_inv (sys_ipc s)" and "answers_ok s" by blast+
qed

lemma sys_reachable_cache_wf: "sys_reachable k s \<Longrightarrow> cache_wf (rt_read_cache (ipc_runtime (sys_ipc s)))"
proof (induction rule: sys_reachable.induct)
  case init
  show ?case by (simp add: system_new_def ipc_state_new_def runtime_new_def)
next
  case (step k s s')
  then show ?case using sys_step_runtime [OF step(2)] runtime_step_cache_wf by auto
qed

theorem sys_reachable_inv:
  assumes "sys_reachable k s" and "k < 2 ^ 64 - 1"
  shows "sys_inv s"
proof -
  have "sys_inv s \<and> unat (rt_next_provider_id (ipc_runtime (sys_ipc s))) \<le> Suc k \<and>
      unat (rt_next_promise_id (ipc_runtime (sys_ipc s))) \<le> Suc k \<and> unat (ipc_next_read_request_id (sys_ipc s)) \<le> Suc k"
    using assms
  proof (induction rule: sys_reachable.induct)
    case init
    show ?case by (simp add: system_new_inv, simp add: system_new_def ipc_state_new_def runtime_new_def)
  next
    case (step k s s')
    let ?rt = "ipc_runtime (sys_ipc s)" and ?rt' = "ipc_runtime (sys_ipc s')"
    from step have inv: "sys_inv s" and le: "unat (rt_next_provider_id ?rt) \<le> Suc k"
      "unat (rt_next_promise_id ?rt) \<le> Suc k" "unat (ipc_next_read_request_id (sys_ipc s)) \<le> Suc k"
      by simp_all
    have ne: "rt_next_provider_id ?rt \<noteq> - 1" "rt_next_promise_id ?rt \<noteq> - 1" "ipc_next_read_request_id (sys_ipc s) \<noteq> - 1"
      using le step.prems by (auto simp: word_unat_eq_iff)
    have "rt_next_provider_id ?rt' = rt_next_provider_id ?rt \<or> rt_next_provider_id ?rt' = rt_next_provider_id ?rt + 1"
      "rt_next_promise_id ?rt' = rt_next_promise_id ?rt \<or> rt_next_promise_id ?rt' = rt_next_promise_id ?rt + 1"
      using sys_step_runtime [OF step.hyps(2)] step_counters by metis+
    with sys_step_inv [OF step.hyps(2) inv ne] show ?case
      using sys_step_request_counter [OF step.hyps(2)] unat_plus_one [OF ne(1)] unat_plus_one [OF ne(2)]
        unat_plus_one [OF ne(3)] le by auto
  qed
  then show ?thesis ..
qed

end
