(* ===== verification/Fuse_Adapter.thy ===== *)
theory Fuse_Adapter
  imports Materialize
begin

text \<open>
  The file-system callbacks of \<open>crates/fuse-promise-daemon/src/fuse_adapter.rs\<close>, with the
  feature \<open>fuse-mount-backend\<close> enabled. A callback of the \<open>fuser\<close> crate answers through a
  reply object; here the answer is the returned value, an \<open>Errno\<close> or the data. The directory
  reply is a buffer with an \<open>add\<close> operation that reports when it is full; the buffer is a
  parameter. The read callback is modelled with everything it triggers: planning, routing the
  request, recording the bytes and the read ahead.
\<close>

section \<open>Errors\<close>

datatype Errno = EIO | EINVAL | EACCES | ENOENT | EEXIST | ETIMEDOUT | ECANCELED | EROFS | EISDIR

type_synonym 'a reply = "Errno + 'a"

fun status_to_errno :: "Status \<Rightarrow> Errno" where
  "status_to_errno Status.Ok = EIO"
| "status_to_errno Status.InvalidArgument = EINVAL"
| "status_to_errno Status.VersionMismatch = EINVAL"
| "status_to_errno Status.Unavailable = EIO"
| "status_to_errno Status.ProviderGone = EIO"
| "status_to_errno Status.Io = EIO"
| "status_to_errno Status.Permission = EACCES"
| "status_to_errno Status.NotFound = ENOENT"
| "status_to_errno Status.AlreadyExists = EEXIST"
| "status_to_errno Status.Timeout = ETIMEDOUT"
| "status_to_errno Status.Cancelled = ECANCELED"

fun provider_status_to_errno :: "ProviderReadStatus \<Rightarrow> Errno" where
  "provider_status_to_errno ProviderReadStatus.Ok = EIO"
| "provider_status_to_errno ProviderReadStatus.InvalidArgument = EINVAL"
| "provider_status_to_errno ProviderReadStatus.Permission = EACCES"
| "provider_status_to_errno ProviderReadStatus.NotFound = ENOENT"
| "provider_status_to_errno ProviderReadStatus.ProviderGone = EIO"
| "provider_status_to_errno ProviderReadStatus.Io = EIO"
| "provider_status_to_errno ProviderReadStatus.Timeout = ETIMEDOUT"
| "provider_status_to_errno ProviderReadStatus.Cancelled = ECANCELED"

definition io_error_to_errno :: "io_error \<Rightarrow> Errno" where
  "io_error_to_errno error =
     (case err_kind error of
        KInvalidInput \<Rightarrow> EINVAL
      | KInvalidData \<Rightarrow> EINVAL
      | KNotFound \<Rightarrow> ENOENT
      | KPermissionDenied \<Rightarrow> EACCES
      | KTimedOut \<Rightarrow> ETIMEDOUT
      | KInterrupted \<Rightarrow> ECANCELED
      | _ \<Rightarrow> EIO)"

definition mount_status_to_io :: "Status \<Rightarrow> io_error" where
  "mount_status_to_io status =
     (case status of
        Status.InvalidArgument \<Rightarrow> io_error_new KInvalidInput (status_as_str status)
      | Status.Permission \<Rightarrow> io_error_new KPermissionDenied (status_as_str status)
      | Status.AlreadyExists \<Rightarrow> io_error_new KAlreadyExists (status_as_str status)
      | Status.NotFound \<Rightarrow> io_error_new KNotFound (status_as_str status)
      | _ \<Rightarrow> io_error_other (status_as_str status))"

section \<open>Attributes\<close>

datatype FuseFileType = RegularFile | Directory

text \<open>A \<open>SystemTime\<close> is its distance from the epoch in nanoseconds.\<close>

type_synonym system_time = int

record FileAttr =
  fa_ino :: u64
  fa_size :: u64
  fa_blocks :: u64
  fa_atime :: system_time
  fa_mtime :: system_time
  fa_ctime :: system_time
  fa_crtime :: system_time
  fa_kind :: FuseFileType
  fa_perm :: u16
  fa_nlink :: u32
  fa_uid :: u32
  fa_gid :: u32
  fa_rdev :: u32
  fa_blksize :: u32
  fa_flags :: u32

definition mtime :: "i64 \<Rightarrow> system_time" where
  "mtime mtime_nsec =
     (if sint mtime_nsec \<ge> 0 then uint mtime_nsec
      else - min \<bar>sint mtime_nsec\<bar> (2 ^ 63 - 1))"

fun node_kind_to_file_type :: "NodeKind \<Rightarrow> FuseFileType" where
  "node_kind_to_file_type NodeKind.File = RegularFile"
| "node_kind_to_file_type NodeKind.Directory = FuseFileType.Directory"

definition div_ceil :: "u64 \<Rightarrow> u64 \<Rightarrow> u64" where
  "div_ceil a b = (if a mod b > 0 then a div b + 1 else a div b)"

definition fuse_node_attr :: "PromiseNode \<Rightarrow> u32 \<Rightarrow> u32 \<Rightarrow> FileAttr" where
  "fuse_node_attr node uid gid =
     \<lparr>fa_ino = node_inode node, fa_size = attr_size (node_attr node),
      fa_blocks = div_ceil (attr_size (node_attr node)) 512,
      fa_atime = mtime (attr_mtime_nsec (node_attr node)), fa_mtime = mtime (attr_mtime_nsec (node_attr node)),
      fa_ctime = mtime (attr_mtime_nsec (node_attr node)), fa_crtime = mtime (attr_mtime_nsec (node_attr node)),
      fa_kind = node_kind_to_file_type (node_kind node),
      fa_perm = ucast (attr_mode (node_attr node) AND 4095),
      fa_nlink = (if node_kind node = NodeKind.Directory then 2 else 1),
      fa_uid = uid, fa_gid = gid, fa_rdev = 0, fa_blksize = 4096, fa_flags = 0\<rparr>"

definition entry_attr :: "RuntimeEntry \<Rightarrow> u32 \<Rightarrow> u32 \<Rightarrow> FileAttr" where
  "entry_attr entry uid gid =
     (case entry of
        MountRoot \<Rightarrow>
          \<lparr>fa_ino = FUSE_ROOT_INODE, fa_size = 0, fa_blocks = 0, fa_atime = 0, fa_mtime = 0,
           fa_ctime = 0, fa_crtime = 0, fa_kind = FuseFileType.Directory, fa_perm = 493, fa_nlink = 2,
           fa_uid = uid, fa_gid = gid, fa_rdev = 0, fa_blksize = 4096, fa_flags = 0\<rparr>
      | PromiseNode _ node \<Rightarrow> fuse_node_attr node uid gid)"

section \<open>Lookup, attributes and open\<close>

definition fuse_lookup :: "Runtime \<Rightarrow> u32 \<Rightarrow> u32 \<Rightarrow> u64 \<Rightarrow> string \<Rightarrow> FileAttr reply" where
  "fuse_lookup rt uid gid parent name =
     (if \<not> utf8_valid name then Inl EINVAL
      else map_ok (\<lambda>entry. entry_attr entry uid gid) (map_err status_to_errno (lookup_child rt parent name)))"

definition fuse_getattr :: "Runtime \<Rightarrow> u32 \<Rightarrow> u32 \<Rightarrow> u64 \<Rightarrow> FileAttr reply" where
  "fuse_getattr rt uid gid ino =
     map_ok (\<lambda>entry. entry_attr entry uid gid) (map_err status_to_errno (lookup_inode rt ino))"

text \<open>The handle of an opened file is its inode number.\<close>

definition fuse_open :: "Runtime \<Rightarrow> u64 \<Rightarrow> bool \<Rightarrow> u64 reply" where
  "fuse_open rt ino read_only =
     (if \<not> read_only then Inl EROFS
      else case lookup_inode rt ino of
          Inr (PromiseNode _ node) \<Rightarrow> if node_kind node = NodeKind.File then Inr ino else Inl EISDIR
        | Inr MountRoot \<Rightarrow> Inl EISDIR
        | Inl e \<Rightarrow> Inl (status_to_errno e))"

definition fuse_release :: "unit reply" where
  "fuse_release = Inr ()"

section \<open>Directories\<close>

definition parent_inode :: "Runtime \<Rightarrow> RuntimeEntry \<Rightarrow> u64 reply" where
  "parent_inode rt entry =
     (case entry of
        MountRoot \<Rightarrow> Inr FUSE_ROOT_INODE
      | PromiseNode promise_id node \<Rightarrow>
          (case node_parent_path node of
             None \<Rightarrow> Inr FUSE_ROOT_INODE
           | Some parent \<Rightarrow>
               ok_or (map_option node_inode
                 (Option.bind (promise rt promise_id) (\<lambda>tree. bt_get (tree_nodes tree) parent))) ENOENT))"

definition fuse_directory_entries :: "Runtime \<Rightarrow> u64 \<Rightarrow> DirectoryEntry list reply" where
  "fuse_directory_entries rt inode =
     res_bind (map_err status_to_errno (lookup_inode rt inode)) (\<lambda>entry.
     res_bind (parent_inode rt entry) (\<lambda>parent.
     res_bind (map_err status_to_errno (read_dir rt inode)) (\<lambda>entries.
     Inr ([\<lparr>dirent_name = ''.'', dirent_inode = entry_inode entry, dirent_kind = NodeKind.Directory\<rparr>,
           \<lparr>dirent_name = ''..'', dirent_inode = parent, dirent_kind = NodeKind.Directory\<rparr>] @ entries))))"

text \<open>\<open>add buf inode offset kind name\<close> returns the new buffer and whether it was full, in which
  case the entry was not added.\<close>

type_synonym 'b dir_add = "'b \<Rightarrow> u64 \<Rightarrow> u64 \<Rightarrow> FuseFileType \<Rightarrow> string \<Rightarrow> 'b \<times> bool"

fun fill_directory :: "'b dir_add \<Rightarrow> (nat \<times> DirectoryEntry) list \<Rightarrow> 'b \<Rightarrow> 'b" where
  "fill_directory add [] buf = buf"
| "fill_directory add ((index, entry) # rest) buf =
     (case add buf (dirent_inode entry) (of_nat (index + 1)) (node_kind_to_file_type (dirent_kind entry))
             (dirent_name entry) of
        (buf', is_full) \<Rightarrow> if is_full then buf' else fill_directory add rest buf')"

definition fuse_readdir :: "Runtime \<Rightarrow> 'b dir_add \<Rightarrow> 'b \<Rightarrow> u64 \<Rightarrow> u64 \<Rightarrow> 'b reply" where
  "fuse_readdir rt add buf ino offset =
     map_ok (\<lambda>entries. fill_directory add (drop (unat offset) (enumerate 0 entries)) buf)
       (fuse_directory_entries rt ino)"

section \<open>Reading\<close>

datatype FuseReadPlan =
    Provider ProviderReadRequest u32 u32
  | Materialized path u64 u32
  | Cached bytes

definition fuse_plan_read :: "IpcState \<Rightarrow> u64 \<Rightarrow> u64 \<Rightarrow> u32 \<Rightarrow> IpcState \<times> FuseReadPlan option reply" where
  "fuse_plan_read st inode offset sz =
     (let rt = ipc_runtime st in
      case lookup_inode rt inode of
        Inl e \<Rightarrow> (st, Inl (status_to_errno e))
      | Inr MountRoot \<Rightarrow> (st, Inl EISDIR)
      | Inr (PromiseNode promise_id node) \<Rightarrow>
          (case plan_read rt promise_id (node_relative_path node) offset sz of
             Inl e \<Rightarrow> (st, Inl (status_to_errno e))
           | Inr ReadPlan.Eof \<Rightarrow> (st, Inr None)
           | Inr (ReadPlan.Request plan) \<Rightarrow>
               (case plan_coalesced_provider_read rt plan of
                  Inl e \<Rightarrow> (st, Inl (status_to_errno e))
                | Inr coalesced \<Rightarrow>
                    (case next_provider_read_request_id st of
                       (st1, request_id) \<Rightarrow>
                         (st1, Inr (Some (Provider
                            (read_request_of_plan request_id (coalesced_provider coalesced))
                            (coalesced_response_offset coalesced) (coalesced_response_length coalesced))))))
           | Inr (ReadPlan.Materialized plan) \<Rightarrow>
               (st, Inr (Some (FuseReadPlan.Materialized (materialized_path plan)
                  (materialized_offset plan) (materialized_length plan))))
           | Inr (ReadPlan.Cached plan) \<Rightarrow> (st, Inr (Some (FuseReadPlan.Cached (cached_bytes plan))))))"

definition fuse_record_cached_read :: "ProviderReadRequest \<Rightarrow> bytes \<Rightarrow> 'w World \<Rightarrow> 'w World \<times> unit reply" where
  "fuse_record_cached_read request bytes w =
     (case record_cached_read (ipc_runtime (w_ipc w)) (rr_promise_id request) (rr_relative_path request)
             (rr_offset request) bytes of
        (rt, r) \<Rightarrow> (w\<lparr>w_ipc := (w_ipc w)\<lparr>ipc_runtime := rt\<rparr>\<rparr>, map_err status_to_errno r))"

definition prefetch_after_provider_read :: "'w Env \<Rightarrow> ProviderReadRequest \<Rightarrow> nat \<Rightarrow> 'w World \<Rightarrow> 'w World" where
  "prefetch_after_provider_read env request bytes_read w =
     (if bytes_read \<noteq> unat (rr_length request) then w
      else if \<not> bytes_read < 2 ^ 32 then w
      else
        (case plan_sequential_prefetch (ipc_runtime (w_ipc w)) (rr_promise_id request)
                (rr_relative_path request) (rr_offset request) (of_nat bytes_read) of
           Inr (Some plan) \<Rightarrow>
             (case next_provider_read_request_id (w_ipc w) of
                (st, request_id) \<Rightarrow>
                  (let prefetch_request = read_request_of_plan request_id plan in
                   case route_provider_read env prefetch_request (w\<lparr>w_ipc := st\<rparr>) of
                     (w1, Inl _) \<Rightarrow> w1
                   | (w1, Inr response) \<Rightarrow>
                       if rs_status response = ProviderReadStatus.Ok
                       then fst (fuse_record_cached_read prefetch_request (rs_bytes response) w1)
                       else w1))
         | _ \<Rightarrow> w))"

definition provider_reply_bytes :: "bytes \<Rightarrow> u32 \<Rightarrow> u32 \<Rightarrow> bytes reply" where
  "provider_reply_bytes bytes response_offset response_length =
     (let start = unat response_offset; len = unat response_length in
      if start = 0 \<and> length bytes \<le> len then Inr bytes
      else if start + len > length bytes then Inl EIO
      else Inr (subslice bytes start (start + len)))"

definition read_materialized_file :: "'w Os \<Rightarrow> path \<Rightarrow> u64 \<Rightarrow> u32 \<Rightarrow> 'w World \<Rightarrow> 'w World \<times> bytes reply" where
  "read_materialized_file os p offset len w =
     (case os_open os p (w_os w) of
        (o1, Inl e) \<Rightarrow> (w\<lparr>w_os := o1\<rparr>, Inl (io_error_to_errno e))
      | (o1, Inr f) \<Rightarrow>
          (w\<lparr>w_os := o1\<rparr>,
           res_bind (map_err io_error_to_errno (os_file_read_at os o1 f offset (unat len))) (\<lambda>bytes.
           if length bytes \<noteq> unat len then Inl EIO else Inr bytes)))"

definition fuse_read :: "'w Env \<Rightarrow> u64 \<Rightarrow> u64 \<Rightarrow> u32 \<Rightarrow> 'w World \<Rightarrow> 'w World \<times> bytes reply" where
  "fuse_read env ino offset sz w =
     (case fuse_plan_read (w_ipc w) ino offset (min sz MAX_PROVIDER_READ_LEN) of
        (st, planned) \<Rightarrow>
          (let w1 = w\<lparr>w_ipc := st\<rparr> in
           case planned of
             Inl errno \<Rightarrow> (w1, Inl errno)
           | Inr None \<Rightarrow> (w1, Inr [])
           | Inr (Some (FuseReadPlan.Provider request response_offset response_length)) \<Rightarrow>
               (case route_provider_read env request w1 of
                  (w2, Inl error) \<Rightarrow> (w2, Inl (io_error_to_errno error))
                | (w2, Inr response) \<Rightarrow>
                    if rs_status response \<noteq> ProviderReadStatus.Ok
                    then (w2, Inl (provider_status_to_errno (rs_status response)))
                    else
                      (case fuse_record_cached_read request (rs_bytes response) w2 of
                         (w3, Inl errno) \<Rightarrow> (w3, Inl errno)
                       | (w3, Inr _) \<Rightarrow>
                           (prefetch_after_provider_read env request (length (rs_bytes response)) w3,
                            provider_reply_bytes (rs_bytes response) response_offset response_length)))
           | Inr (Some (FuseReadPlan.Materialized p off len)) \<Rightarrow> read_materialized_file (env_os env) p off len w1
           | Inr (Some (FuseReadPlan.Cached bytes)) \<Rightarrow> (w1, Inr bytes)))"

section \<open>Mounting\<close>

text \<open>\<open>spawn\<close> is \<open>fuser::spawn_mount2\<close> with the options of \<open>start\<close>.\<close>

definition fuse_start :: "'w Os \<Rightarrow> (path \<Rightarrow> ('w, 's) io) \<Rightarrow> path \<Rightarrow> ('w, 's option) io" where
  "fuse_start os spawn mount_path =
     io_bind (io_map_err mount_status_to_io (prepare_mount_dir os mount_path)) (\<lambda>_.
     io_bind (spawn mount_path) (\<lambda>session.
     io_return (Some session)))"

definition disabled_mount_status :: "path \<Rightarrow> IpcMountStatus" where
  "disabled_mount_status mount_path = not_mounted"

definition fuse_mount_status :: "path \<Rightarrow> 's option \<Rightarrow> IpcMountStatus" where
  "fuse_mount_status mount_path mount =
     (if mount \<noteq> None then commit_ready mount_path else disabled_mount_status mount_path)"

text \<open>Dropping the mount takes its session and ends it with \<open>umount_and_join\<close>, a method of the
  \<open>fuser\<close> session; its result is ignored.\<close>

definition fuse_mount_drop :: "('s \<Rightarrow> ('w, unit) io) \<Rightarrow> 's option \<Rightarrow> 'w \<Rightarrow> 'w" where
  "fuse_mount_drop umount_and_join session w =
     (case session of Some s \<Rightarrow> fst (umount_and_join s w) | None \<Rightarrow> w)"

end
