(* ===== verification/World_Steps.thy ===== *)
theory World_Steps
  imports Ipc_Server
begin

text \<open>
  How the computations of a daemon thread compose. A computation obeys a relation on states
  if it always leads to a related state. For a preorder, \<open>step_preorder\<close> gives one rule per
  construct of the monadic code; for one that ignores the world outside the process,
  \<open>world_preorder\<close> adds one per function of materialisation and of the replies, with the reading
  of chunks left open. They are used with the relation "the shared state makes steps of the
  system", with invariants of the world and with what a call leaves of the file system.
\<close>

named_theorems thread_intros

section \<open>The loops in monadic form\<close>

lemma write_chunks_round:
  "write_chunks env promise_id entry f target report offset =
     (if \<not> offset < me_size entry then io_return offset
      else
        io_bind (io_map_err (\<lambda>status. with_target status target offset)
          (read_materialize_chunk env promise_id entry offset
            (ucast (min (me_size entry - offset) (u64_of_u32 MAX_PROVIDER_READ_LEN))))) (\<lambda>bytes.
        if bytes = [] then io_fail (with_target Status.Io target offset)
        else
          io_bind (io_map_err (\<lambda>status. with_target status target offset)
            (on_os (os_file_write_all (env_os env) f bytes))) (\<lambda>_.
          case Option.bind (u64_try_from (length bytes)) (checked_add offset) of
            None \<Rightarrow> io_fail (with_target Status.InvalidArgument target offset)
          | Some offset' \<Rightarrow>
              io_bind (io_map_err (\<lambda>status. with_target status target offset') (report offset')) (\<lambda>_.
              write_chunks env promise_id entry f target report offset'))))"
  (is "?lhs = ?rhs")
proof (rule ext)
  fix w
  show "?lhs w = ?rhs w"
    by (subst write_chunks.simps)
      (auto simp: io_bind_def io_map_err_def map_err_def split: prod.split sum.split option.split)
qed

lemma create_directories_Cons:
  "create_directories env policy report (entry # entries) progress created =
     io_bind (io_map_err (\<lambda>status. (status, progress, created))
       (create_materialized_directory (env_os env) entry policy)) (\<lambda>target.
     let progress1 = (if ct_remove_on_cleanup target
           then update_counts (\<lambda>c. c\<lparr>mc_directories_created := mc_directories_created c + 1\<rparr>) progress
           else progress);
         progress2 = update_counts (\<lambda>c. c\<lparr>mc_entries_done := mc_entries_done c + 1\<rparr>) progress1 in
     io_bind (io_map_err (\<lambda>status. (status, progress2, created @ [target])) (report progress2)) (\<lambda>_.
     create_directories env policy report entries progress2 (created @ [target])))"
  by (rule ext) (auto simp: io_bind_def io_map_err_def map_err_def Let_def split: prod.split sum.split)

lemma write_files_Cons:
  "write_files env promise_id policy report (entry # entries) progress created =
     (let at = (\<lambda>n. update_counts (\<lambda>c. c\<lparr>mc_bytes_written := mc_bytes_written (mpr_counts progress) + n\<rparr>) progress) in
      io_bind (io_map_err (\<lambda>error. (mwe_status error, at (mwe_bytes_written error),
          created @ (case mwe_target error of Some target \<Rightarrow> [target] | None \<Rightarrow> [])))
        (write_materialized_file env promise_id entry policy (\<lambda>n. report (at n)))) (\<lambda>outcome.
      let progress1 = update_counts (\<lambda>c. c\<lparr>mc_files_written := mc_files_written c + 1,
            mc_entries_done := mc_entries_done c + 1\<rparr>) (at (mfo_bytes_written outcome)) in
      io_bind (io_map_err (\<lambda>status. (status, progress1, created @ [mfo_target outcome])) (report progress1)) (\<lambda>_.
      write_files env promise_id policy report entries progress1 (created @ [mfo_target outcome]))))"
  by (rule ext) (auto simp: io_bind_def io_map_err_def map_err_def Let_def split: prod.split sum.split)

lemma materialize_node_cases:
  assumes "materialize_node_in_state env body report w = Some (w', r)"
  obtains (rejected) status where "w' = w" "r = Inl (without_progress status)"
  | (failed) request plan w1 status progress created where
      "materialize_request_from_body body = Inr request" "plan_materialize (env_os env) w request = Some (Inr plan)"
      "materialize_plan env plan report w = (w1, Inl (status, progress, created))"
      "w' = w1\<lparr>w_os := cleanup_created_targets (env_os env) created (w_os w1)\<rparr>"
      "r = Inl (with_progress status progress)"
  | (copied) request plan progress where
      "materialize_request_from_body body = Inr request" "plan_materialize (env_os env) w request = Some (Inr plan)"
      "materialize_plan env plan report w = (w', Inr progress)"
      "r = Inr \<lparr>md_target_path = to_string_lossy (mpl_target_path plan), md_counts = mpr_counts progress\<rparr>"
proof (cases "materialize_request_from_body body")
  case (Inl status)
  with assms show ?thesis by (intro rejected) (auto simp: materialize_node_in_state_def)
next
  case req: (Inr request)
  with assms obtain planned where planned: "plan_materialize (env_os env) w request = Some planned"
    by (auto simp: materialize_node_in_state_def)
  show ?thesis
  proof (cases planned)
    case (Inl status)
    with assms req planned show ?thesis by (intro rejected) (auto simp: materialize_node_in_state_def)
  next
    case (Inr plan)
    obtain w1 x where x: "materialize_plan env plan report w = (w1, x)" by (metis surj_pair)
    show ?thesis
    proof (cases x)
      case (Inl e)
      obtain status progress created where e: "e = (status, progress, created)" by (cases e)
      show ?thesis
        by (rule failed [OF req]) (use assms req planned Inr x Inl e in \<open>auto simp: materialize_node_in_state_def\<close>)
    next
      case ok: (Inr progress)
      show ?thesis
        by (rule copied [OF req]) (use assms req planned Inr x ok in \<open>auto simp: materialize_node_in_state_def\<close>)
    qed
  qed
qed

section \<open>Relations that computations respect\<close>

definition obeys :: "('s \<Rightarrow> 's \<Rightarrow> bool) \<Rightarrow> ('s \<Rightarrow> 's \<times> 'r) \<Rightarrow> bool" where
  "obeys R m \<longleftrightarrow> (\<forall>w. R w (fst (m w)))"

locale step_preorder =
  fixes R :: "'s \<Rightarrow> 's \<Rightarrow> bool"
  assumes refl: "R s s" and trans: "R s s' \<Longrightarrow> R s' s'' \<Longrightarrow> R s s''"
begin

lemma obeysD: "obeys R m \<Longrightarrow> m w = (w', r) \<Longrightarrow> R w w'"
  unfolding obeys_def by (metis fst_conv)

lemma obeysI: "(\<And>w w' r. m w = (w', r) \<Longrightarrow> R w w') \<Longrightarrow> obeys R m"
  unfolding obeys_def by (metis prod.collapse)

lemma obeys_bind [thread_intros]:
  assumes "obeys R m" and "\<And>x. obeys R (f x)"
  shows "obeys R (io_bind m f)"
  unfolding obeys_def
proof
  fix w
  obtain w1 r where m: "m w = (w1, r)" by (cases "m w")
  from obeysD [OF assms(1) m] have 1: "R w w1" .
  show "R w (fst (io_bind m f w))"
  proof (cases r)
    case (Inr x)
    with assms(2) have "R w1 (fst (f x w1))" by (simp add: obeys_def)
    with 1 m Inr show ?thesis by (simp add: io_bind_def trans)
  qed (use 1 m in \<open>simp add: io_bind_def\<close>)
qed

lemma obeys_return [thread_intros]: "obeys R (io_return x)"
  by (simp add: obeys_def refl)

lemma obeys_fail [thread_intros]: "obeys R (io_fail e)"
  by (simp add: obeys_def refl)

lemma obeys_lift [thread_intros]: "obeys R (io_lift r)"
  by (simp add: obeys_def refl)

lemma obeys_map_err [thread_intros]: "obeys R m \<Longrightarrow> obeys R (io_map_err f m)"
  by (auto simp: obeys_def io_map_err_def split: prod.split dest: spec intro: obeysD)

lemma obeys_if [thread_intros]:
  "(b \<Longrightarrow> obeys R m) \<Longrightarrow> (\<not> b \<Longrightarrow> obeys R m') \<Longrightarrow> obeys R (if b then m else m')"
  by simp

lemma obeys_Let [thread_intros]: "(\<And>x. obeys R (f x)) \<Longrightarrow> obeys R (let x = e in f x)"
  by (simp add: Let_def)

lemma obeys_case_prod [thread_intros]: "(\<And>a b. obeys R (f a b)) \<Longrightarrow> obeys R (case p of (a, b) \<Rightarrow> f a b)"
  by (cases p) simp

lemma obeys_case_option [thread_intros]:
  "(x = None \<Longrightarrow> obeys R m) \<Longrightarrow> (\<And>y. x = Some y \<Longrightarrow> obeys R (f y)) \<Longrightarrow>
   obeys R (case x of None \<Rightarrow> m | Some y \<Rightarrow> f y)"
  by (cases x) simp_all

end

locale world_preorder = step_preorder R for R :: "'w World \<Rightarrow> 'w World \<Rightarrow> bool" +
  assumes same: "w_ipc w' = w_ipc w \<Longrightarrow> R w w'"
begin

lemma obeys_on_os [thread_intros]: "obeys R (on_os call)"
  by (auto simp: obeys_def on_os_def intro: same split: prod.split)

lemma obeys_same: "(\<And>w. w_ipc (fst (m w)) = w_ipc w) \<Longrightarrow> obeys R m"
  by (simp add: obeys_def same)

lemma obeys_local_chunk [thread_intros]: "obeys R (read_local_materialized_chunk os p offset len)"
  unfolding read_local_materialized_chunk_def by (intro thread_intros)

lemma obeys_create_directory [thread_intros]:
  "obeys R (create_materialized_directory os entry policy)"
proof (rule obeysI)
  fix w w' :: "'w World" and r
  assume m: "create_materialized_directory os entry policy w = (w', r)"
  let ?rest = "io_bind (on_os (os_create_dir os (me_target_path entry) 448)) (\<lambda>_.
      io_bind (on_os (\<lambda>o'. (o', os_symlink_metadata os o' (me_target_path entry)))) (\<lambda>metadata.
      io_return \<lparr>ct_path = me_target_path entry, ct_identity = identity_from_metadata metadata,
         ct_kind = MaterializeTargetKind.Directory, ct_remove_on_cleanup = True\<rparr>))"
  have "obeys R ?rest" by (intro thread_intros)
  with m show "R w w'"
    unfolding create_materialized_directory_def
    by (auto intro: same obeysD split: sum.splits if_splits)
qed

lemma obeys_directory_metadata [thread_intros]: "obeys R (apply_directory_metadata os entry expected)"
  unfolding apply_directory_metadata_def apply_mtime_def by (intro thread_intros)

lemma obeys_open_output [thread_intros]: "obeys R (open_materialize_output os p)"
  unfolding open_materialize_output_def by (intro thread_intros)

lemma obeys_open_final [thread_intros]: "obeys R (open_final_materialized_file os entry remove)"
  unfolding open_final_materialized_file_def by (intro thread_intros)

lemma obeys_try_replacements [thread_intros]: "obeys R (try_replacements os entry n)"
proof (induction n)
  case (Suc n)
  show ?case
  proof (rule obeysI)
    fix w w' :: "'w World" and r
    assume m: "try_replacements os entry (Suc n) w = (w', r)"
    let ?w1 = "w\<lparr>w_temp_counter := w_temp_counter w + 1\<rparr>"
    have e1: "R w ?w1" by (simp add: same)
    show "R w w'"
    proof (cases "materialize_temp_path os (me_target_path entry) (w_temp_counter w)")
      case (Inr temp)
      obtain w2 r2 where o: "open_materialize_output os temp ?w1 = (w2, r2)" by (metis surj_pair)
      have e2: "R w w2" by (rule trans [OF e1 obeysD [OF obeys_open_output o]])
      with m Inr o show ?thesis
        by (auto simp: Let_def intro: trans obeysD [OF Suc] split: sum.splits if_splits)
    qed (use m e1 in auto)
  qed
qed (simp add: obeys_same)

lemma obeys_open_file [thread_intros]: "obeys R (open_materialized_file os entry policy)"
proof (rule obeysI)
  fix w w' :: "'w World" and r
  assume "open_materialized_file os entry policy w = (w', r)"
  then show "R w w'"
    unfolding open_materialized_file_def open_replacement_materialized_file_def
    by (auto intro: same obeysD [OF obeys_open_final] obeysD [OF obeys_try_replacements]
        split: sum.splits if_splits MaterializeConflictPolicy.splits)
qed

lemma obeys_write_chunks [thread_intros]:
  assumes "\<And>offset len. obeys R (read_materialize_chunk env promise_id entry offset len)"
    and report: "\<And>n. obeys R (report n)"
  shows "obeys R (write_chunks env promise_id entry f target report offset)"
proof (induction "unat (me_size entry) - unat offset" arbitrary: offset rule: less_induct)
  case less
  have "obeys R (write_chunks env promise_id entry f target report offset')"
    if "offset < me_size entry" "bytes \<noteq> []"
      "Option.bind (u64_try_from (length bytes)) (checked_add offset) = Some offset'" for bytes :: bytes and offset'
    using that by (intro less chunk_measure)
  then show ?case
    by (subst write_chunks_round) (auto intro!: thread_intros assms)
qed

lemma obeys_finalize [thread_intros]:
  "obeys R (finalize_materialized_file os t p rm replace n)"
  unfolding finalize_materialized_file_def by (intro thread_intros)

lemma obeys_write_file [thread_intros]:
  assumes "\<And>offset len. obeys R (read_materialize_chunk env promise_id entry offset len)"
    and "\<And>n. obeys R (report n)"
  shows "obeys R (write_materialized_file env promise_id entry policy report)"
  unfolding write_materialized_file_def apply_mtime_def by (intro thread_intros assms)

lemma obeys_create_directories [thread_intros]:
  assumes "\<And>p. obeys R (report p)"
  shows "obeys R (create_directories env policy report entries progress created)"
proof (induction entries arbitrary: progress created)
  case (Cons entry entries)
  show ?case unfolding create_directories_Cons by (intro thread_intros assms Cons)
qed (simp add: obeys_same)

lemma obeys_write_files [thread_intros]:
  assumes "\<And>entry offset len. obeys R (read_materialize_chunk env promise_id entry offset len)"
    and "\<And>p. obeys R (report p)"
  shows "obeys R (write_files env promise_id policy report entries progress created)"
proof (induction entries arbitrary: progress created)
  case (Cons entry entries)
  show ?case unfolding write_files_Cons by (intro thread_intros assms Cons)
qed (simp add: obeys_same)

lemma obeys_apply_metadata [thread_intros]: "obeys R (apply_metadata env entries progress created)"
proof (induction entries)
  case (Cons entry entries)
  show ?case
  proof (rule obeysI)
    fix w w' :: "'w World" and r
    assume "apply_metadata env (entry # entries) progress created w = (w', r)"
    then show "R w w'"
      by (auto intro: same trans obeysD [OF obeys_directory_metadata] obeysD [OF Cons]
          split: option.splits prod.splits sum.splits)
  qed
qed (simp add: obeys_same)

lemma obeys_reply [thread_intros]: "obeys R (reply env k response)"
  by (rule obeys_same) (simp add: reply_def split: prod.split)

lemma obeys_reply_error [thread_intros]: "obeys R (reply_error env k code message)"
  by (rule obeys_same) (simp add: reply_error_def split: prod.split)

lemma obeys_reply_status_error [thread_intros]: "obeys R (reply_status_error env k status)"
  by (rule obeys_same) (simp add: reply_status_error_def split: prod.split)

lemma obeys_receive [thread_intros]: "obeys R (receive env k)"
  by (rule obeys_same) (simp add: receive_def split: prod.split)

lemma obeys_report_to_client [thread_intros]: "obeys R (report_to_client env k progress)"
proof (rule obeysI)
  fix w w' :: "'w World" and r
  assume "report_to_client env k progress w = (w', r)"
  then show "R w w'"
    unfolding report_to_client_def
    by (auto intro: trans obeysD [OF obeys_reply] obeysD [OF obeys_receive]
        split: prod.splits sum.splits option.splits Request.splits)
qed

lemma obeys_materialize_plan [thread_intros]:
  assumes "\<And>entry offset len. obeys R (read_materialize_chunk env (mpl_promise_id plan) entry offset len)"
    and "\<And>p. obeys R (report p)"
    and "\<And>entries progress created. obeys R (mark_entries (mpl_promise_id plan) entries progress created)"
  shows "obeys R (materialize_plan env plan report)"
  unfolding materialize_plan_def by (intro thread_intros assms)

end

end
