(* ===== verification/Ipc_Threads.thy ===== *)
theory Ipc_Threads
  imports Ipc_System Fuse_Adapter World_Steps
begin

text \<open>
  The threads of the daemon make only steps of \<open>sys_step\<close>, whatever the other threads do
  meanwhile. The rely condition is an invariant \<open>G\<close> of the system that the steps of the thread
  itself keep; a computation \<open>evolves\<close> the world if, from every system state of \<open>G\<close> with the
  same shared state, the change is a run of the system back into \<open>G\<close> that leaves the local
  state of the thread's own connection alone. What other threads do while the thread waits is
  assumed to be of that form. The rules in \<open>thread_intros\<close> follow the way the code is
  composed, so that the proof for a handler follows its text.
\<close>

section \<open>The handlers in monadic form\<close>

lemma bt_remove_absent: "bt_get m k = None \<Longrightarrow> bt_remove k m = m"
  by (induction m) (auto simp: bt_remove_def split: if_splits)

lemma fuse_plan_read_provider:
  assumes "fuse_plan_read st ino offset sz = (st', Inr (Some (FuseReadPlan.Provider request ro rl)))"
  shows "next_provider_read_request_id st = (st', rr_request_id request)"
  using assms by (auto simp: fuse_plan_read_def Let_def read_request_of_plan_def
      split: sum.splits RuntimeEntry.splits ReadPlan.splits prod.splits)

lemma fuse_plan_read_other:
  assumes "fuse_plan_read st ino offset sz = (st', r)" and "\<And>q ro rl. r \<noteq> Inr (Some (FuseReadPlan.Provider q ro rl))"
  shows "st' = st"
  using assms by (auto simp: fuse_plan_read_def Let_def
      split: sum.splits RuntimeEntry.splits ReadPlan.splits prod.splits)

lemma add_nodes_reachable:
  assumes "add_nodes b nodes = Inr b'" and "builder_reachable b"
  shows "builder_reachable b'"
  using assms
proof (induction nodes arbitrary: b)
  case (Cons node nodes)
  let ?add = "case nb_kind node of
      PromiseNodeKindBody.File \<Rightarrow> builder_add_file b (nb_relative_path node)
        (node_attr_new (nb_mode node) (nb_size node) (nb_mtime_nsec node)) (nb_provider_node_id node)
    | PromiseNodeKindBody.Directory \<Rightarrow> builder_add_dir b (nb_relative_path node)
        (node_attr_new (nb_mode node) (nb_size node) (nb_mtime_nsec node)) (nb_provider_node_id node)"
  obtain b1 r where add: "?add = (b1, r)" by (metis surj_pair)
  from Cons.prems(1) add have rest: "add_nodes b1 nodes = Inr b'" by (auto simp: Let_def split: sum.splits)
  have "builder_reachable (fst ?add)"
    by (cases "nb_kind node") (simp_all add: builder_add_file_def builder_add_dir_def builder_reachable.add Cons.prems(2))
  with add have "builder_reachable b1" by simp
  from Cons.IH [OF rest this] show ?case .
qed simp

lemma w_ipc_reply [simp]:
  "w_ipc (fst (reply env c response w)) = w_ipc w"
  "w_ipc (fst (reply_error env c code message w)) = w_ipc w"
  "w_ipc (fst (reply_status_error env c status w)) = w_ipc w"
  "w_ipc (fst (receive env c w)) = w_ipc w"
  by (simp_all add: reply_def reply_error_def reply_status_error_def receive_def split: prod.split)

lemma replyD:
  "reply env c response w = (w', r) \<Longrightarrow> w_ipc w' = w_ipc w"
  "reply_error env c code message w = (w', r) \<Longrightarrow> w_ipc w' = w_ipc w"
  "reply_status_error env c status w = (w', r) \<Longrightarrow> w_ipc w' = w_ipc w"
  by (metis w_ipc_reply(1) fst_conv, metis w_ipc_reply(2) fst_conv, metis w_ipc_reply(3) fst_conv)

lemma handle_promise_commit_ipc:
  "w_ipc (fst (handle_promise_commit env c request w)) = w_ipc w \<or>
   (\<exists>b. cb_provider_id request \<noteq> 0 \<and>
      validate_provider_owner (w_ipc w) (cb_provider_id request) (cb_provider_owner_token request) = Inr () \<and>
      ms_ready_for_commits (ipc_mount_status (w_ipc w)) \<and>
      add_nodes (builder_new (cb_provider_id request)) (cb_nodes request) = Inr b \<and>
      w_ipc (fst (handle_promise_commit env c request w)) =
        (w_ipc w)\<lparr>ipc_runtime := fst (commit_promise (ipc_runtime (w_ipc w)) b)\<rparr>)"
  by (auto simp: handle_promise_commit_def provider_id_from_raw_def Let_def split: sum.split prod.split)

lemma requests_induct [consumes 1, case_names closed eof failed round]:
  assumes "handle_client_requests env c client w = Some (w', client', r)"
    and closed: "\<And>client w w1 e. receive env c (env_idle env c w) = (w1, Inl e) \<Longrightarrow> P client w w1 client (Inl e)"
    and eof: "\<And>client w w1. receive env c (env_idle env c w) = (w1, Inr None) \<Longrightarrow> P client w w1 client (Inr ())"
    and failed: "\<And>client w w1 request w2 client2 e. receive env c (env_idle env c w) = (w1, Inr (Some request)) \<Longrightarrow>
        handle_request env c client request w1 = Some (w2, client2, Inl e) \<Longrightarrow> P client w w2 client2 (Inl e)"
    and round: "\<And>client w w1 request w2 client2 w3 client3 r.
        receive env c (env_idle env c w) = (w1, Inr (Some request)) \<Longrightarrow>
        handle_request env c client request w1 = Some (w2, client2, Inr ()) \<Longrightarrow>
        P client2 w2 w3 client3 r \<Longrightarrow> P client w w3 client3 r"
  shows "P client w w' client' r"
proof -
  have "env0 = env \<longrightarrow> c0 = c \<longrightarrow> P client w (fst y) (fst (snd y)) (snd (snd y))"
    if "handle_client_requests env0 c0 client w = Some y" for env0 c0 client w y
  proof (rule handle_client_requests.raw_induct [of "\<lambda>env0 c0 client w y. env0 = env \<longrightarrow> c0 = c \<longrightarrow>
      P client w (fst y) (fst (snd y)) (snd (snd y))", OF _ that], intro impI)
    fix f env0 c0 client w y
    assume IH: "\<And>env0 c0 client w y. f env0 c0 client w = Some y \<Longrightarrow> env0 = env \<longrightarrow> c0 = c \<longrightarrow>
        P client w (fst y) (fst (snd y)) (snd (snd y))"
      and body: "(case receive env0 c0 (env_idle env0 c0 w) of
          (w1, Inl e) \<Rightarrow> Some (w1, client, Inl e)
        | (w1, Inr None) \<Rightarrow> Some (w1, client, Inr ())
        | (w1, Inr (Some request)) \<Rightarrow>
            Option.bind (handle_request env0 c0 client request w1) (\<lambda>(w2, client2, r).
              case r of Inl e \<Rightarrow> Some (w2, client2, Inl e) | Inr _ \<Rightarrow> f env0 c0 client2 w2)) = Some y"
      and eqs: "env0 = env" "c0 = c"
    obtain w1 got where recv: "receive env c (env_idle env c w) = (w1, got)" by (metis surj_pair)
    show "P client w (fst y) (fst (snd y)) (snd (snd y))"
    proof (cases "\<exists>request. got = Inr (Some request)")
      case True
      then obtain request where got: "got = Inr (Some request)" by blast
      with body recv eqs obtain w2 client2 r2 where h: "handle_request env c client request w1 = Some (w2, client2, r2)"
        by (auto simp: bind_eq_Some_conv)
      show ?thesis
      proof (cases r2)
        case (Inl e)
        with body recv eqs got h have "y = (w2, client2, Inl e)" by simp
        with failed [OF recv [unfolded got] h [unfolded Inl]] show ?thesis by simp
      next
        case (Inr u)
        with body recv eqs got h have "f env c client2 w2 = Some y" by simp
        from IH [OF this] have "P client2 w2 (fst y) (fst (snd y)) (snd (snd y))" by simp
        with h Inr show ?thesis by (intro round [OF recv [unfolded got]]) simp_all
      qed
    next
      case False
      with body recv eqs closed eof show ?thesis
        by (cases got) (auto split: option.splits)
    qed
  qed
  from this [OF assms(1)] show ?thesis by simp
qed

section \<open>Rely and guarantee\<close>

definition evolves :: "(System \<Rightarrow> bool) \<Rightarrow> conn option \<Rightarrow> 'w World \<Rightarrow> 'w World \<Rightarrow> bool" where
  "evolves G me w w' \<longleftrightarrow>
     (\<forall>s. G s \<longrightarrow> sys_ipc s = w_ipc w \<longrightarrow>
        (\<exists>s'. sys_step\<^sup>*\<^sup>* s s' \<and> G s' \<and> sys_ipc s' = w_ipc w' \<and>
           (\<forall>c. me = Some c \<longrightarrow> sys_clients s' c = sys_clients s c)))"

text \<open>The assumption on the rest of the daemon.\<close>

definition env_evolves :: "(System \<Rightarrow> bool) \<Rightarrow> conn option \<Rightarrow> 'w Env \<Rightarrow> bool" where
  "env_evolves G me env \<longleftrightarrow>
     (\<forall>ch w. evolves G me w (env_wait env ch w)) \<and>
     (\<forall>c w. me = Some c \<longrightarrow> evolves G me w (env_idle env c w))"

text \<open>A request may also change the local state of its connection.\<close>

definition serves :: "(System \<Rightarrow> bool) \<Rightarrow> conn \<Rightarrow> 'w World \<times> Client \<Rightarrow> 'w World \<times> Client \<Rightarrow> bool" where
  "serves G c before after \<longleftrightarrow>
     (\<forall>s. G s \<longrightarrow> sys_ipc s = w_ipc (fst before) \<longrightarrow> sys_clients s c = Some (snd before) \<longrightarrow>
        (\<exists>s'. sys_step\<^sup>*\<^sup>* s s' \<and> G s' \<and> sys_ipc s' = w_ipc (fst after) \<and> sys_clients s' c = Some (snd after)))"

locale rely_invariant =
  fixes G :: "System \<Rightarrow> bool" and me :: "conn option"
  assumes own_step: "G s \<Longrightarrow> sys_step s s' \<Longrightarrow>
    (\<And>d. me \<noteq> Some d \<Longrightarrow> sys_clients s' d = sys_clients s d) \<Longrightarrow> G s'"
begin

lemma evolves_same: "w_ipc w' = w_ipc w \<Longrightarrow> evolves G me w w'"
  unfolding evolves_def by (metis rtranclp.rtrancl_refl)

lemma evolves_trans: "evolves G me w w' \<Longrightarrow> evolves G me w' w'' \<Longrightarrow> evolves G me w w''"
  unfolding evolves_def by (metis rtranclp_trans)

sublocale world_preorder "evolves G me"
  by unfold_locales (simp_all add: evolves_same, fact evolves_trans)

lemma evolves_step:
  assumes "\<And>s. w_ipc w = sys_ipc s \<Longrightarrow> sys_step s (F s) \<and> sys_ipc (F s) = w_ipc w' \<and> sys_clients (F s) = sys_clients s"
  shows "evolves G me w w'"
  unfolding evolves_def
proof (intro allI impI)
  fix s assume G: "G s" and "sys_ipc s = w_ipc w"
  then have F: "sys_step s (F s)" "sys_ipc (F s) = w_ipc w'" "sys_clients (F s) = sys_clients s"
    using assms [of s] by simp_all
  with own_step [OF G F(1)] show "\<exists>s'. sys_step\<^sup>*\<^sup>* s s' \<and> G s' \<and> sys_ipc s' = w_ipc w' \<and>
      (\<forall>c. me = Some c \<longrightarrow> sys_clients s' c = sys_clients s c)" by auto
qed

lemma evolves_runtime:
  assumes "runtime_step (ipc_runtime (w_ipc w)) rt"
  shows "evolves G me w (w\<lparr>w_ipc := (w_ipc w)\<lparr>ipc_runtime := rt\<rparr>\<rparr>)"
  by (rule evolves_step [where F = "on_ipc (\<lambda>st. st\<lparr>ipc_runtime := rt\<rparr>)"]) (use assms in \<open>simp add: sys_step.runtime\<close>)

section \<open>Routed reads\<close>

lemma evolves_ticket_enter:
  assumes "next_provider_read_request_id (w_ipc w) = (st, rr_request_id request)"
    and "read_request_into_body request = Inr body"
    and "w_ipc w' = fst (enter_pending_read request st)"
  shows "evolves G me w w'"
  unfolding evolves_def
proof (intro allI impI)
  fix s :: System assume G: "G s" and s: "sys_ipc s = w_ipc w"
  let ?s1 = "s\<lparr>sys_ipc := st, sys_tickets := insert (rr_request_id request) (sys_tickets s)\<rparr>"
  let ?s2 = "?s1\<lparr>sys_ipc := fst (enter_pending_read request (sys_ipc ?s1)),
      sys_tickets := sys_tickets ?s1 - {rr_request_id request}, sys_routed := sys_routed ?s1 @ [request]\<rparr>"
  from s assms(1) have 1: "sys_step s ?s1" by (intro sys_step.ticket) simp
  have 2: "sys_step ?s1 ?s2" by (rule sys_step.enter [OF _ assms(2)]) simp
  have "G ?s1" by (rule own_step [OF G 1]) simp
  then have "G ?s2" by (rule own_step [OF _ 2]) simp
  moreover from 1 2 have "sys_step\<^sup>*\<^sup>* s ?s2" by (meson r_into_rtranclp rtranclp_trans)
  moreover have "sys_ipc ?s2 = w_ipc w'" by (simp add: assms(3))
  moreover have "\<forall>c. me = Some c \<longrightarrow> sys_clients ?s2 c = sys_clients s c" by simp
  ultimately show "\<exists>s'. sys_step\<^sup>*\<^sup>* s s' \<and> G s' \<and> sys_ipc s' = w_ipc w' \<and>
      (\<forall>c. me = Some c \<longrightarrow> sys_clients s' c = sys_clients s c)" by blast
qed

lemma evolves_give_up: "w_ipc w' = remove_pending_read k (w_ipc w) \<Longrightarrow> evolves G me w w'"
proof (cases "bt_get (ipc_pending_reads (w_ipc w)) k")
  case None
  assume w': "w_ipc w' = remove_pending_read k (w_ipc w)"
  from None have "bt_remove k (ipc_pending_reads (w_ipc w)) = ipc_pending_reads (w_ipc w)" by (rule bt_remove_absent)
  with w' show ?thesis by (intro evolves_same) (simp add: remove_pending_read_def)
next
  case (Some p)
  assume w': "w_ipc w' = remove_pending_read k (w_ipc w)"
  show ?thesis
    by (rule evolves_step [where F = "\<lambda>s. s\<lparr>sys_ipc := remove_pending_read k (sys_ipc s),
          sys_abandoned := insert (pending_sender p) (sys_abandoned s)\<rparr>"])
      (use Some w' in \<open>simp add: sys_step.give_up\<close>)
qed

lemma evolves_drop_route: "w_ipc w' = drop_provider_route pid (w_ipc w) \<Longrightarrow> evolves G me w w'"
  by (rule evolves_step [where F = "on_ipc (drop_provider_route pid)"]) (simp add: sys_step.drop_route)

lemma evolves_fail_reads: "w_ipc w' = fail_provider_pending_reads pid kind (w_ipc w) \<Longrightarrow> evolves G me w w'"
  by (rule evolves_step [where F = "on_ipc (fail_provider_pending_reads pid kind)"]) (simp add: sys_step.fail_reads)

lemma evolves_disconnect:
  assumes "w_ipc w' = disconnect_provider_id pid (w_ipc w)"
  shows "evolves G me w w'"
proof (cases "pid = 0")
  case True
  with assms show ?thesis by (intro evolves_drop_route) (simp add: disconnect_provider_id_sections)
next
  case False
  let ?w1 = "w\<lparr>w_ipc := drop_provider_route pid (w_ipc w)\<rparr>"
  let ?w2 = "?w1\<lparr>w_ipc := (w_ipc ?w1)\<lparr>ipc_runtime := fst (unregister_provider (ipc_runtime (w_ipc ?w1)) pid)\<rparr>\<rparr>"
  have "evolves G me w ?w1" by (rule evolves_drop_route) simp
  moreover have "evolves G me ?w1 ?w2" by (rule evolves_runtime) (rule runtime_step.unregister)
  moreover have "evolves G me ?w2 w'"
    by (rule evolves_fail_reads) (simp add: assms disconnect_provider_id_sections(1) [OF False])
  ultimately show ?thesis by (blast intro: evolves_trans)
qed

lemma evolves_finish: "w_ipc w' = fst (finish_routed_read k ch (w_ipc w)) \<Longrightarrow> evolves G me w w'"
  by (auto simp: finish_routed_read_def intro: evolves_same evolves_give_up split: Recv.splits)

text \<open>A read that draws its id and is then routed, as every caller does it.\<close>

lemma evolves_routed_read:
  assumes env: "env_evolves G me env"
    and "next_provider_read_request_id (w_ipc w) = (st, rr_request_id request)"
    and "route_provider_read env request (w\<lparr>w_ipc := st\<rparr>) = (w', r)"
  shows "evolves G me w w'"
proof -
  have ticket: "evolves G me w (w\<lparr>w_ipc := st\<rparr>)"
    by (rule evolves_step [where F = "\<lambda>s. s\<lparr>sys_ipc := st, sys_tickets := insert (rr_request_id request) (sys_tickets s)\<rparr>"])
      (use assms(2) in \<open>simp add: sys_step.ticket\<close>)
  show ?thesis
  proof (cases "res_bind (read_request_into_body request) (\<lambda>body.
      res_bind (route_lookup st request) (\<lambda>route. Inr (body, route)))")
    case (Inl e)
    with assms(3) ticket show ?thesis by (simp add: route_provider_read_def)
  next
    case (Inr br)
    obtain body route where br: "br = (body, route)" by (cases br)
    from Inr br have body: "read_request_into_body request = Inr body" by (auto simp: outcome_simps)
    obtain st2 e where en: "enter_pending_read request st = (st2, e)" by (cases "enter_pending_read request st")
    have enter: "evolves G me w w2" if "w_ipc w2 = st2" for w2
      by (rule evolves_ticket_enter [OF assms(2) body]) (simp add: en that)
    show ?thesis
    proof (cases e)
      case (Inl err)
      with assms(3) Inr br en show ?thesis by (auto simp: route_provider_read_def intro: enter)
    next
      case ch: (Inr ch)
      obtain o1 wr where wr: "write_frame (stream_writer (env_os env) (route_writer route)) (env_responses env)
          (Response.ProviderReadRequest body) (w_os w) = (o1, wr)" by (metis surj_pair)
      let ?w1 = "w\<lparr>w_ipc := st2, w_os := o1\<rparr>"
      have e1: "evolves G me w ?w1" by (rule enter) simp
      show ?thesis
      proof (cases wr)
        case (Inl err)
        have "evolves G me ?w1 (?w1\<lparr>w_ipc := remove_pending_read (rrb_request_id body) st2\<rparr>)"
          by (rule evolves_give_up) simp
        moreover have "evolves G me (?w1\<lparr>w_ipc := remove_pending_read (rrb_request_id body) st2\<rparr>) w'"
          by (rule evolves_disconnect [where pid = "rrb_provider_id body"])
            (use assms(3) Inr br en ch wr Inl in \<open>auto simp: route_provider_read_def\<close>)
        ultimately show ?thesis using e1 by (blast intro: evolves_trans)
      next
        case (Inr u)
        let ?w2 = "env_wait env ch ?w1"
        have "evolves G me ?w1 ?w2" using env by (simp add: env_evolves_def)
        moreover have "evolves G me ?w2 w'"
          by (rule evolves_finish [where k = "rrb_request_id body" and ch = ch])
            (use assms(3) \<open>_ = Inr br\<close> br en ch wr Inr in \<open>auto simp: route_provider_read_def Let_def split: prod.splits\<close>)
        ultimately show ?thesis using e1 by (blast intro: evolves_trans)
      qed
    qed
  qed
qed

lemma thread_record_cached_read [thread_intros]: "obeys (evolves G me) (fuse_record_cached_read request bytes)"
proof (rule obeysI)
  fix w w' :: "'a World" and r
  assume "fuse_record_cached_read request bytes w = (w', r)"
  then have "w' = w\<lparr>w_ipc := (w_ipc w)\<lparr>ipc_runtime := fst (record_cached_read (ipc_runtime (w_ipc w))
      (rr_promise_id request) (rr_relative_path request) (rr_offset request) bytes)\<rparr>\<rparr>"
    by (auto simp: fuse_record_cached_read_def split: prod.splits)
  then show "evolves G me w w'" by (simp add: evolves_runtime runtime_step.cached)
qed

lemma evolves_prefetch:
  assumes "env_evolves G me env"
  shows "evolves G me w (prefetch_after_provider_read env request n w)"
proof (cases "\<exists>plan. n = unat (rr_length request) \<and> n < 2 ^ 32 \<and>
    plan_sequential_prefetch (ipc_runtime (w_ipc w)) (rr_promise_id request) (rr_relative_path request)
      (rr_offset request) (of_nat n) = Inr (Some plan)")
  case True
  then obtain plan where plan: "n = unat (rr_length request)" "n < 2 ^ 32"
    "plan_sequential_prefetch (ipc_runtime (w_ipc w)) (rr_promise_id request) (rr_relative_path request)
      (rr_offset request) (of_nat n) = Inr (Some plan)" by blast
  obtain st rid where t: "next_provider_read_request_id (w_ipc w) = (st, rid)" by (metis surj_pair)
  let ?q = "read_request_of_plan rid plan"
  obtain w1 r where r: "route_provider_read env ?q (w\<lparr>w_ipc := st\<rparr>) = (w1, r)" by (metis surj_pair)
  have "evolves G me w w1"
    by (rule evolves_routed_read [OF assms _ r]) (simp add: t read_request_of_plan_def)
  moreover have "evolves G me w1 (fst (fuse_record_cached_read ?q bs w1))" for bs
    using thread_record_cached_read [of ?q bs] unfolding obeys_def by blast
  ultimately show ?thesis
    using plan t r by (auto simp: prefetch_after_provider_read_def Let_def intro: evolves_trans split: sum.split)
qed (auto simp: prefetch_after_provider_read_def intro: evolves_same split: sum.split option.split)

text \<open>The read callback of the file system.\<close>

theorem evolves_fuse_read:
  assumes "env_evolves G me env" and "fuse_read env ino offset sz w = (w', r)"
  shows "evolves G me w w'"
proof -
  obtain st planned where p: "fuse_plan_read (w_ipc w) ino offset (min sz MAX_PROVIDER_READ_LEN) = (st, planned)"
    by (metis surj_pair)
  show ?thesis
  proof (cases "\<exists>q ro rl. planned = Inr (Some (FuseReadPlan.Provider q ro rl))")
    case True
    then obtain q ro rl where q: "planned = Inr (Some (FuseReadPlan.Provider q ro rl))" by blast
    with p have t: "next_provider_read_request_id (w_ipc w) = (st, rr_request_id q)"
      by (auto intro: fuse_plan_read_provider)
    obtain w2 resp where r: "route_provider_read env q (w\<lparr>w_ipc := st\<rparr>) = (w2, resp)" by (metis surj_pair)
    have e2: "evolves G me w w2" by (rule evolves_routed_read [OF assms(1) t r])
    show ?thesis
    proof (cases "\<exists>rs. resp = Inr rs \<and> rs_status rs = ProviderReadStatus.Ok")
      case True
      then obtain rs where rs: "resp = Inr rs" "rs_status rs = ProviderReadStatus.Ok" by blast
      obtain w3 cr where cr: "fuse_record_cached_read q (rs_bytes rs) w2 = (w3, cr)" by (metis surj_pair)
      have "evolves G me w w3"
        using evolves_trans [OF e2 obeysD [OF thread_record_cached_read cr]] .
      with assms(2) p q r rs cr evolves_prefetch [OF assms(1)] show ?thesis
        by (auto simp: fuse_read_def Let_def intro: evolves_trans split: sum.splits)
    next
      case False
      with assms(2) p q r e2 show ?thesis
        by (auto simp: fuse_read_def Let_def split: sum.splits if_splits)
    qed
  next
    case False
    with p have "st = w_ipc w" by (auto intro: fuse_plan_read_other)
    with assms(2) p False show ?thesis
      by (auto simp: fuse_read_def Let_def read_materialized_file_def intro!: evolves_same
          split: sum.splits option.splits FuseReadPlan.splits prod.splits)
  qed
qed

section \<open>Materialise\<close>

lemma thread_provider_chunk [thread_intros]:
  assumes "env_evolves G me env"
  shows "obeys (evolves G me) (read_materialize_provider_chunk env plan)"
proof (rule obeysI)
  fix w w' r
  assume m: "read_materialize_provider_chunk env plan w = (w', r)"
  obtain st rid where t: "next_provider_read_request_id (w_ipc w) = (st, rid)" by (metis surj_pair)
  obtain w1 r1 where r1: "route_provider_read env (read_request_of_plan rid plan) (w\<lparr>w_ipc := st\<rparr>) = (w1, r1)"
    by (metis surj_pair)
  have "evolves G me w w1"
    by (rule evolves_routed_read [OF assms _ r1]) (simp add: t read_request_of_plan_def)
  moreover have "w' = w1"
    using m t r1 by (auto simp: read_materialize_provider_chunk_def io_bind_def io_map_err_def
        split: sum.splits if_splits)
  ultimately show "evolves G me w w'" by simp
qed

lemma thread_chunk [thread_intros]:
  assumes "env_evolves G me env"
  shows "obeys (evolves G me) (read_materialize_chunk env promise_id entry offset len)"
proof (rule obeysI)
  fix w w' r
  assume "read_materialize_chunk env promise_id entry offset len w = (w', r)"
  then show "evolves G me w w'"
    unfolding read_materialize_chunk_def
    by (auto intro: evolves_same obeysD [OF thread_provider_chunk [OF assms]] obeysD [OF obeys_local_chunk]
        split: sum.splits if_splits ReadPlan.splits)
qed

lemma thread_mark_entries [thread_intros]: "obeys (evolves G me) (mark_entries promise_id entries progress created)"
proof (induction entries)
  case (Cons entry entries)
  show ?case
  proof (rule obeysI)
    fix w w' :: "'a World" and r
    assume m: "mark_entries promise_id (entry # entries) progress created w = (w', r)"
    obtain rt r1 where mk: "mark_node_materialized (ipc_runtime (w_ipc w)) promise_id (me_relative_path entry)
        (me_target_path entry) = (rt, r1)" by (metis surj_pair)
    then have "rt = fst (mark_node_materialized (ipc_runtime (w_ipc w)) promise_id (me_relative_path entry)
        (me_target_path entry))" by simp
    then have "evolves G me w (w\<lparr>w_ipc := (w_ipc w)\<lparr>ipc_runtime := rt\<rparr>\<rparr>)"
      by (simp add: evolves_runtime runtime_step.materialized)
    with m mk show "evolves G me w w'"
      by (auto intro: evolves_trans obeysD [OF Cons] split: sum.splits)
  qed
qed (simp add: obeys_same)

lemma thread_materialize_plan [thread_intros]:
  assumes "env_evolves G me env" and "\<And>p. obeys (evolves G me) (report p)"
  shows "obeys (evolves G me) (materialize_plan env plan report)"
  by (intro thread_intros assms)

lemma evolves_materialize_node:
  assumes "env_evolves G me env" and "\<And>p. obeys (evolves G me) (report p)"
    and "materialize_node_in_state env body report w = Some (w', r)"
  shows "evolves G me w w'"
  using assms(3)
proof (cases rule: materialize_node_cases)
  case (failed request plan w1 status progress created)
  have "evolves G me w w1" by (rule obeysD [OF thread_materialize_plan [OF assms(1,2)] failed(3)])
  moreover have "evolves G me w1 w'" by (simp add: evolves_same failed(4))
  ultimately show ?thesis by (rule evolves_trans)
next
  case (copied request plan progress)
  show ?thesis by (rule obeysD [OF thread_materialize_plan [OF assms(1,2)] copied(3)])
qed (simp add: evolves_same)

section \<open>Connections\<close>

lemma thread_handle_status [thread_intros]: "obeys (evolves G me) (handle_status env k)"
proof (rule obeysI)
  fix w w' :: "'a World" and r
  assume "handle_status env k w = (w', r)"
  then show "evolves G me w w'"
    unfolding handle_status_def by (auto intro: evolves_same obeysD [OF obeys_reply] split: sum.splits)
qed

lemma thread_handle_promise_commit [thread_intros]: "obeys (evolves G me) (handle_promise_commit env k request)"
proof (rule obeysI)
  fix w w' :: "'a World" and r
  assume "handle_promise_commit env k request w = (w', r)"
  then have w': "w' = fst (handle_promise_commit env k request w)" by simp
  from handle_promise_commit_ipc [of env k request w] show "evolves G me w w'"
  proof (elim disjE exE conjE)
    assume "w_ipc (fst (handle_promise_commit env k request w)) = w_ipc w"
    then show ?thesis by (simp add: w' evolves_same)
  next
    fix b
    let ?rt = "fst (commit_promise (ipc_runtime (w_ipc w)) b)"
    assume "add_nodes (builder_new (cb_provider_id request)) (cb_nodes request) = Inr b"
      and ipc: "w_ipc (fst (handle_promise_commit env k request w)) = (w_ipc w)\<lparr>ipc_runtime := ?rt\<rparr>"
    then have "builder_reachable b" by (auto intro: add_nodes_reachable builder_reachable.new)
    then have "evolves G me w (w\<lparr>w_ipc := (w_ipc w)\<lparr>ipc_runtime := ?rt\<rparr>\<rparr>)"
      by (simp add: evolves_runtime runtime_step.commit)
    moreover have "evolves G me (w\<lparr>w_ipc := (w_ipc w)\<lparr>ipc_runtime := ?rt\<rparr>\<rparr>) w'"
      by (rule evolves_same) (simp add: w' ipc)
    ultimately show ?thesis by (rule evolves_trans)
  qed
qed

lemma evolves_handle_materialize:
  assumes "env_evolves G me env" and "handle_materialize env k body w = Some (w', r)"
  shows "evolves G me w w'"
proof -
  from assms(2) obtain w1 outcome where m: "materialize_node_in_state env body (report_to_client env k) w = Some (w1, outcome)"
    by (auto simp: handle_materialize_def)
  from evolves_materialize_node [OF assms(1) obeys_report_to_client m] have e: "evolves G me w w1" .
  from assms(2) m show ?thesis
    by (auto simp: handle_materialize_def intro: evolves_trans [OF e] obeysD [OF obeys_reply]
        obeysD [OF obeys_reply_status_error] split: sum.splits option.splits if_splits)
qed

end

locale connection_thread = rely_invariant G "Some c" for G :: "System \<Rightarrow> bool" and c :: conn
begin

lemma serves_evolves: "evolves G (Some c) w w' \<Longrightarrow> serves G c (w, client) (w', client)"
  unfolding evolves_def serves_def fst_conv snd_conv by metis

lemma serves_trans: "serves G c a b \<Longrightarrow> serves G c b d \<Longrightarrow> serves G c a d"
  unfolding serves_def by (metis rtranclp_trans)

lemma serves_step:
  assumes "\<And>s. w_ipc w = sys_ipc s \<Longrightarrow> sys_clients s c = Some client \<Longrightarrow>
      sys_step s (F s) \<and> sys_ipc (F s) = w_ipc w' \<and> sys_clients (F s) = (sys_clients s)(c \<mapsto> client')"
  shows "serves G c (w, client) (w', client')"
  unfolding serves_def fst_conv snd_conv
proof (intro allI impI)
  fix s assume G: "G s" and "sys_ipc s = w_ipc w" "sys_clients s c = Some client"
  then have F: "sys_step s (F s)" "sys_ipc (F s) = w_ipc w'" "sys_clients (F s) = (sys_clients s)(c \<mapsto> client')"
    using assms [of s] by simp_all
  have "G (F s)" by (rule own_step [OF G F(1)]) (simp add: F(3))
  with F show "\<exists>s'. sys_step\<^sup>*\<^sup>* s s' \<and> G s' \<and> sys_ipc s' = w_ipc w' \<and> sys_clients s' c = Some client'"
    by (intro exI [of _ "F s"]) auto
qed

lemma serves_hello:
  assumes "handle_hello env c client v a w = (w', client', r)"
  shows "serves G c (w, client) (w', client')"
proof (cases "v = IPC_PROTOCOL_VERSION \<and> a = API_VERSION")
  case True
  with assms have client': "client' = client\<lparr>cl_negotiated := True\<rparr>" and w': "w_ipc w' = w_ipc w"
    by (auto simp: handle_hello_def dest: replyD split: prod.splits)
  show ?thesis
    by (rule serves_step [where F = "\<lambda>s. s\<lparr>sys_clients := (sys_clients s)(c \<mapsto> client')\<rparr>"])
      (simp add: client' w' sys_step.hello)
next
  case False
  with assms show ?thesis
    by (auto simp: handle_hello_def intro: serves_evolves obeysD [OF obeys_reply_error] split: prod.splits)
qed

lemma serves_register_route:
  assumes "register_provider (ipc_runtime (w_ipc w)) = (rt, pid)"
    and "w_ipc w' = register_provider_route pid token writer ((w_ipc w)\<lparr>ipc_runtime := rt\<rparr>)"
  shows "serves G c (w, client) (w', client\<lparr>cl_registered := cl_registered client @ [pid]\<rparr>)"
  unfolding serves_def fst_conv snd_conv
proof (intro allI impI)
  fix s assume G: "G s" and s: "sys_ipc s = w_ipc w" "sys_clients s c = Some client"
  let ?s1 = "s\<lparr>sys_ipc := (sys_ipc s)\<lparr>ipc_runtime := rt\<rparr>, sys_fresh := insert pid (sys_fresh s)\<rparr>"
  let ?cl = "client\<lparr>cl_registered := cl_registered client @ [pid]\<rparr>"
  let ?s2 = "?s1\<lparr>sys_ipc := register_provider_route pid token writer (sys_ipc ?s1),
      sys_fresh := sys_fresh ?s1 - {pid}, sys_clients := (sys_clients ?s1)(c \<mapsto> ?cl)\<rparr>"
  have 1: "sys_step s ?s1" using assms(1) s by (intro sys_step.register) simp
  have 2: "sys_step ?s1 ?s2" using s(2) by (intro sys_step.route) simp_all
  have "G ?s1" by (rule own_step [OF G 1]) simp
  then have "G ?s2" by (rule own_step [OF _ 2]) simp
  moreover from 1 2 have "sys_step\<^sup>*\<^sup>* s ?s2" by (meson r_into_rtranclp rtranclp_trans)
  moreover have "sys_ipc ?s2 = w_ipc w' \<and> sys_clients ?s2 c = Some ?cl" by (simp add: assms(2) s)
  ultimately show "\<exists>s'. sys_step\<^sup>*\<^sup>* s s' \<and> G s' \<and> sys_ipc s' = w_ipc w' \<and> sys_clients s' c = Some ?cl" by blast
qed

lemma serves_register:
  assumes "handle_register env c client w = Some (w', client', r)"
  shows "serves G c (w, client) (w', client')"
proof -
  obtain rt pid where reg: "register_provider (ipc_runtime (w_ipc w)) = (rt, pid)" by (metis surj_pair)
  let ?st = "(w_ipc w)\<lparr>ipc_runtime := rt\<rparr>"
  from assms reg obtain o2 tok where gen: "generate_provider_owner_token (env_os env) (w_os w) = Some (o2, tok)"
    by (auto simp: handle_register_def Let_def)
  have failed: "serves G c (w, client) (w1, client)" if "w_ipc w1 = ?st" for w1 :: "'a World"
  proof (rule serves_evolves)
    have "evolves G (Some c) w (w\<lparr>w_ipc := ?st\<rparr>)"
      using runtime_step.register [of "ipc_runtime (w_ipc w)"] reg by (simp add: evolves_runtime)
    moreover have "evolves G (Some c) (w\<lparr>w_ipc := ?st\<rparr>) w1" by (simp add: evolves_same that)
    ultimately show "evolves G (Some c) w w1" by (rule evolves_trans)
  qed
  show ?thesis
  proof (cases tok)
    case (Inl e)
    with assms reg gen have "w_ipc w' = ?st \<and> client' = client" by (auto simp: handle_register_def)
    then show ?thesis using failed by blast
  next
    case tok: (Inr token)
    obtain o3 cl where clone: "os_try_clone (env_os env) c o2 = (o3, cl)" by (metis surj_pair)
    show ?thesis
    proof (cases cl)
      case (Inl e)
      with assms reg gen tok clone have "w_ipc w' = ?st \<and> client' = client" by (auto simp: handle_register_def)
      then show ?thesis using failed by blast
    next
      case (Inr writer)
      let ?st2 = "register_provider_route pid token writer ?st"
      from assms reg gen tok clone Inr have client': "client' = client\<lparr>cl_registered := cl_registered client @ [pid]\<rparr>"
        and w': "w_ipc w' = ?st2"
        by (auto simp: handle_register_def dest: replyD split: prod.splits)
      from serves_register_route [OF reg w'] show ?thesis by (simp add: client')
    qed
  qed
qed

lemma serves_unregister:
  assumes "handle_unregister env c client raw token w = (w', client', r)"
  shows "serves G c (w, client) (w', client')"
proof -
  let ?rt = "fst (unregister_provider (ipc_runtime (w_ipc w)) raw)"
  let ?w1 = "w\<lparr>w_ipc := (w_ipc w)\<lparr>ipc_runtime := ?rt\<rparr>\<rparr>"
  let ?w2 = "?w1\<lparr>w_ipc := disconnect_provider raw (w_ipc ?w1)\<rparr>"
  let ?client = "client\<lparr>cl_registered := filter (\<lambda>p. p \<noteq> raw) (cl_registered client)\<rparr>"
  have e1: "evolves G (Some c) w ?w1" by (simp add: evolves_runtime runtime_step.unregister)
  have e2: "evolves G (Some c) ?w1 ?w2" by (rule evolves_disconnect [where pid = raw]) (simp add: disconnect_provider_def)
  have e12: "serves G c (w, client) (?w2, client)"
    by (rule serves_evolves [OF evolves_trans [OF e1 e2]])
  have "w_ipc w' = w_ipc w \<and> client' = client \<or> w_ipc w' = w_ipc ?w1 \<and> client' = client \<or>
      w_ipc w' = w_ipc ?w2 \<and> client' = ?client"
    using assms unfolding handle_unregister_def
    by (auto simp: Let_def provider_id_from_raw_def dest!: replyD split: prod.splits sum.splits if_splits)
  then consider "w_ipc w' = w_ipc w" "client' = client" | "w_ipc w' = w_ipc ?w1" "client' = client"
    | "w_ipc w' = w_ipc ?w2" "client' = ?client" by blast
  then show ?thesis
  proof cases
    case 1
    then show ?thesis by (simp add: serves_evolves evolves_same)
  next
    case 2
    from evolves_trans [OF e1 evolves_same [OF 2(1)]] 2(2) show ?thesis by (simp add: serves_evolves)
  next
    case 3
    have "bt_get (ipc_provider_routes (w_ipc ?w2)) raw = None" by (simp add: disconnect_provider_def)
    then have "serves G c (?w2, client) (w', ?client)"
      by (intro serves_step [where F = "\<lambda>s. s\<lparr>sys_clients := (sys_clients s)(c \<mapsto> ?client)\<rparr>"])
        (use 3 in \<open>simp add: sys_step.forget\<close>)
    with e12 3(2) show ?thesis by (auto intro: serves_trans)
  qed
qed

text \<open>One round of the request loop, whatever the request.\<close>

theorem serves_request:
  assumes "env_evolves G (Some c) env" and "handle_request env c client request w = Some (w', client', r)"
  shows "serves G c (w, client) (w', client')"
proof -
  have answer: "serves G c (w, cl) (w\<lparr>w_ipc := st\<rparr>, cl)"
    if "complete_provider_read (cl_registered cl) body (w_ipc w) = (st, x)" for body st x cl
  proof (rule serves_step [where F = "on_ipc (\<lambda>st. fst (complete_provider_read (cl_registered cl) body st))"])
    fix s :: System
    assume "w_ipc w = sys_ipc s" "sys_clients s c = Some cl"
    with that sys_step.answer [of s c cl body]
    show "sys_step s (on_ipc (\<lambda>st. fst (complete_provider_read (cl_registered cl) body st)) s) \<and>
        sys_ipc (on_ipc (\<lambda>st. fst (complete_provider_read (cl_registered cl) body st)) s) = w_ipc (w\<lparr>w_ipc := st\<rparr>) \<and>
        sys_clients (on_ipc (\<lambda>st. fst (complete_provider_read (cl_registered cl) body st)) s) = (sys_clients s)(c \<mapsto> cl)"
      by (auto simp: fun_eq_iff)
  qed
  have same: "serves G c (w, cl) (w1, cl)" if "obeys (evolves G (Some c)) m" "m w = (w1, x)"
    for m :: "'a World \<Rightarrow> 'a World \<times> unit io_result" and w1 x cl
    by (rule serves_evolves [OF obeysD [OF that]])
  have mat: "serves G c (w, cl) (w1, cl)" if "handle_materialize env c body w = Some (w1, x)" for body w1 x cl
    by (rule serves_evolves [OF evolves_handle_materialize [OF assms(1) that]])
  show ?thesis
    using assms(2)
    by (cases request)
      (auto simp: handle_request_def Let_def
        intro: serves_hello serves_register serves_unregister mat answer same [OF obeys_reply]
          same [OF obeys_reply_error] same [OF thread_handle_status] same [OF thread_handle_promise_commit]
        split: if_splits prod.splits)
qed

lemma evolves_receive:
  assumes "env_evolves G (Some c) env" and "receive env c (env_idle env c w) = (w1, got)"
  shows "evolves G (Some c) w w1"
proof -
  have "evolves G (Some c) w (env_idle env c w)" using assms(1) by (simp add: env_evolves_def)
  then show ?thesis using obeysD [OF obeys_receive assms(2)] by (rule evolves_trans)
qed

theorem serves_requests:
  assumes "env_evolves G (Some c) env" and "handle_client_requests env c client w = Some (w', client', r)"
  shows "serves G c (w, client) (w', client')"
  using assms(2)
proof (induction rule: requests_induct)
  case (closed client w w1 e)
  show ?case by (rule serves_evolves [OF evolves_receive [OF assms(1) closed]])
next
  case (eof client w w1)
  show ?case by (rule serves_evolves [OF evolves_receive [OF assms(1) eof]])
next
  case (failed client w w1 request w2 client2 e)
  from serves_evolves [OF evolves_receive [OF assms(1) failed(1)]] serves_request [OF assms(1) failed(2)]
  show ?case by (rule serves_trans)
next
  case (round client w w1 request w2 client2 w3 client3 r)
  from serves_evolves [OF evolves_receive [OF assms(1) round(1)]] serves_request [OF assms(1) round(2)]
  have "serves G c (w, client) (w2, client2)" by (rule serves_trans)
  then show ?case using round(3) by (rule serves_trans)
qed

lemma evolves_disconnect_registered:
  "evolves G (Some c) w (w\<lparr>w_ipc := disconnect_registered_providers pids (w_ipc w)\<rparr>)"
proof (induction pids arbitrary: w)
  case Nil
  show ?case by (simp add: evolves_same disconnect_registered_providers_def)
next
  case (Cons pid pids)
  let ?w1 = "w\<lparr>w_ipc := disconnect_provider_id pid (w_ipc w)\<rparr>"
  have "evolves G (Some c) w ?w1" by (rule evolves_disconnect) simp
  moreover have "evolves G (Some c) ?w1 (?w1\<lparr>w_ipc := disconnect_registered_providers pids (w_ipc ?w1)\<rparr>)" by (rule Cons)
  ultimately show ?case
    by (auto simp: disconnect_registered_providers_def disconnect_provider_def intro: evolves_trans)
qed

lemma requests_system:
  assumes "env_evolves G (Some c) env" and "handle_client_requests env c new_client w = Some (w1, client, r)"
    and "G s" and "sys_ipc s = w_ipc w" and "sys_clients s c = None"
  shows "\<exists>s1. sys_step\<^sup>*\<^sup>* s s1 \<and> G s1 \<and> sys_ipc s1 = w_ipc w1 \<and> sys_clients s1 c = Some client"
proof -
  let ?s0 = "s\<lparr>sys_clients := (sys_clients s)(c \<mapsto> new_client)\<rparr>"
  have 0: "sys_step s ?s0" using assms(5) by (rule sys_step.accept)
  have "G ?s0" by (rule own_step [OF assms(3) 0]) simp
  moreover have "sys_ipc ?s0 = w_ipc (fst (w, new_client))" "sys_clients ?s0 c = Some (snd (w, new_client))"
    using assms(4) by simp_all
  ultimately obtain s1 where "sys_step\<^sup>*\<^sup>* ?s0 s1" "G s1" "sys_ipc s1 = w_ipc w1" "sys_clients s1 c = Some client"
    using serves_requests [OF assms(1,2)] unfolding serves_def by (metis fst_conv snd_conv)
  with 0 show ?thesis by (meson converse_rtranclp_into_rtranclp)
qed

text \<open>The life of a connection, from the accepted socket to the cleanup.\<close>

theorem connection_run:
  assumes "env_evolves G (Some c) env" and "handle_client_with_state env c w = Some (w', r)"
    and "G s" and "sys_ipc s = w_ipc w" and "sys_clients s c = None"
  shows "\<exists>s'. sys_step\<^sup>*\<^sup>* s s' \<and> G s' \<and> sys_ipc s' = w_ipc w' \<and> sys_clients s' c = None"
proof (cases "validate_peer (env_os env) (w_os w) c")
  case (Inl e)
  with assms(2-5) show ?thesis by (auto simp: handle_client_with_state_def)
next
  case (Inr u)
  with assms(2) obtain w1 client where run: "handle_client_requests env c new_client w = Some (w1, client, r)"
    and w': "w' = w1\<lparr>w_ipc := disconnect_registered_providers (cl_registered client) (w_ipc w1)\<rparr>"
    by (auto simp: handle_client_with_state_def)
  from requests_system [OF assms(1) run assms(3-5)] obtain s1 where
    s1: "sys_step\<^sup>*\<^sup>* s s1" "G s1" "sys_ipc s1 = w_ipc w1" "sys_clients s1 c = Some client" by blast
  from evolves_disconnect_registered [of w1 "cl_registered client"] s1(2,3) obtain s2 where
    s2: "sys_step\<^sup>*\<^sup>* s1 s2" "G s2" "sys_ipc s2 = w_ipc w'" "sys_clients s2 c = sys_clients s1 c"
    unfolding evolves_def w' by blast
  let ?s3 = "s2\<lparr>sys_clients := (sys_clients s2)(c := None)\<rparr>"
  have "bt_get (ipc_provider_routes (sys_ipc s2)) pid = None" if "pid \<in> set (cl_registered client)" for pid
    using that by (simp add: s2(3) w' disconnect_registered_routes)
  then have 3: "sys_step s2 ?s3" using s1(4) s2(4) by (intro sys_step.close [of _ _ client]) simp_all
  have "G ?s3" by (rule own_step [OF s2(2) 3]) simp
  moreover from 3 s1(1) s2(1) have "sys_step\<^sup>*\<^sup>* s ?s3"
    by (meson rtranclp.rtrancl_into_rtrancl rtranclp_trans)
  moreover have "sys_ipc ?s3 = w_ipc w' \<and> sys_clients ?s3 c = None" using s2(3) by simp
  ultimately show ?thesis by blast
qed

end

text \<open>The rely condition of a thread while the other connections stay as they are: they answer
  reads, commit and materialise, but none registers or disappears. \<open>others\<close> gives their local
  state.\<close>

definition peers_fixed :: "conn option \<Rightarrow> (conn \<Rightarrow> Client option) \<Rightarrow> System \<Rightarrow> bool" where
  "peers_fixed me others s \<longleftrightarrow>
     (\<exists>k. sys_reachable k s) \<and> (\<forall>d. me \<noteq> Some d \<longrightarrow> sys_clients s d = others d)"

interpretation peers: rely_invariant "peers_fixed me others" me for me others
  by unfold_locales (auto simp: peers_fixed_def intro: sys_reachable.step)

text \<open>Without any assumption on the others, the reachable states are one rely condition.\<close>

interpretation daemon: rely_invariant "\<lambda>s. \<exists>k. sys_reachable k s" me for me
  by unfold_locales (auto intro: sys_reachable.step)

interpretation peers_conn: connection_thread "peers_fixed (Some c) others" c for c others
  by unfold_locales

end
