(* ===== verification/Routed_Reads.thy ===== *)
theory Routed_Reads
  imports Ipc_Threads
begin

text \<open>
  What the caller of \<open>route_provider_read\<close> gets, in every interleaving: a response that was
  validated against its own request, or an error of the connection or the provider; never a
  duplicate request id and never a channel that was closed without an answer. Afterwards the
  read is no longer pending.
\<close>

section \<open>Runs of bounded length\<close>

lemma sys_reachable_run: "sys_reachable k s \<Longrightarrow> (sys_step ^^ n) s s' \<Longrightarrow> sys_reachable (k + n) s'"
  by (induction n arbitrary: s') (auto intro: sys_reachable.step)

lemma sys_step_routed:
  assumes "sys_step s s'"
  shows "take (length (sys_routed s)) (sys_routed s') = sys_routed s"
  using assms by cases simp_all

lemma sys_run_routed:
  assumes "(sys_step ^^ n) s s'"
  shows "take (length (sys_routed s)) (sys_routed s') = sys_routed s"
  using assms
proof (induction n arbitrary: s')
  case (Suc n)
  then obtain s1 where s1: "(sys_step ^^ n) s s1" "sys_step s1 s'" by auto
  have 1: "take (length (sys_routed s)) (sys_routed s1) = sys_routed s" by (rule Suc.IH [OF s1(1)])
  then have "length (take (length (sys_routed s)) (sys_routed s1)) = length (sys_routed s)" by simp
  then have le: "length (sys_routed s) \<le> length (sys_routed s1)" by simp
  have "sys_routed s = take (length (sys_routed s)) (take (length (sys_routed s1)) (sys_routed s'))"
    using 1 sys_step_routed [OF s1(2)] by simp
  with le show ?case by (simp add: min_def)
qed simp

lemma sys_reachable_star:
  assumes "sys_reachable k s" and "sys_step\<^sup>*\<^sup>* s s'"
  shows "\<exists>k'. sys_reachable k' s'"
  using assms(2) sys_reachable_run [OF assms(1)] by (auto simp: rtranclp_power)

text \<open>While a reader waits on channel \<open>ch\<close>, the other threads make at most \<open>N\<close> steps, and none
  of them gives up the read of this channel: only its reader does that.\<close>

definition env_waits :: "(System \<Rightarrow> bool) \<Rightarrow> nat \<Rightarrow> 'w Env \<Rightarrow> bool" where
  "env_waits G N env \<longleftrightarrow>
     (\<forall>ch w s. G s \<longrightarrow> sys_ipc s = w_ipc w \<longrightarrow>
        (\<exists>n\<le>N. \<exists>s'. (sys_step ^^ n) s s' \<and> sys_ipc s' = w_ipc (env_wait env ch w) \<and>
           (ch \<in> sys_abandoned s' \<longrightarrow> ch \<in> sys_abandoned s)))"

section \<open>The end of a wait\<close>

lemma finish_routed_read_result:
  assumes "sys_inv s" and "ch < length (sys_routed s)" and "ch \<notin> sys_abandoned s"
    and "finish_routed_read (rr_request_id (sys_routed s ! ch)) ch (sys_ipc s) = (st, r)"
  shows "\<And>response. r = Inr response \<Longrightarrow> validate_provider_read_response_for_request (sys_routed s ! ch) response = Inr ()"
    and "channel_recv (sys_ipc s) ch \<noteq> RecvDisconnected"
    and "bt_get (ipc_pending_reads st) (rr_request_id (sys_routed s ! ch)) = None"
proof -
  note inv = sys_invD [OF assms(1)]
  let ?id = "rr_request_id (sys_routed s ! ch)"
  from answers_okD(1) [OF inv(3)] assms(2) have ch: "ch < length (ipc_channels (sys_ipc s))" by simp
  have pend: "pending_sender p = ch" if "bt_get (ipc_pending_reads (sys_ipc s)) ?id = Some p" for p
  proof -
    from ipc_invD(3) [OF inv(2) that] have ok: "rr_request_id (pending_request p) = ?id"
      "pending_sender p < length (ipc_channels (sys_ipc s))" by (simp_all add: pending_ok_def)
    with answers_okD(1,2) [OF inv(3)] that have "pending_sender p < length (sys_routed s)"
      "rr_request_id (sys_routed s ! pending_sender p) = ?id" by auto
    moreover from inv(5) have "distinct (map rr_request_id (sys_routed s))" by (simp add: tickets_ok_def)
    ultimately show ?thesis using assms(2) by (auto simp: distinct_conv_nth)
  qed
  have waiting: "\<exists>p. bt_get (ipc_pending_reads (sys_ipc s)) ?id = Some p \<and> pending_sender p = ch"
    if "ipc_channels (sys_ipc s) ! ch = []"
  proof -
    from that inv(4) ch assms(3) obtain k p where kp: "bt_get (ipc_pending_reads (sys_ipc s)) k = Some p"
      "pending_sender p = ch" unfolding readers_ok_def by blast
    from ipc_invD(3) [OF inv(2) kp(1)] answers_okD(2) [OF inv(3) kp(1)] kp(2) have "k = ?id"
      by (simp add: pending_ok_def)
    with kp show ?thesis by blast
  qed
  have answered: "bt_get (ipc_pending_reads (sys_ipc s)) ?id = None" if "ipc_channels (sys_ipc s) ! ch \<noteq> []"
    using that pend ipc_invD(3) [OF inv(2), of ?id]
    by (cases "bt_get (ipc_pending_reads (sys_ipc s)) ?id") (auto simp: pending_ok_def)
  show "channel_recv (sys_ipc s) ch \<noteq> RecvDisconnected"
  proof (cases "ipc_channels (sys_ipc s) ! ch")
    case Nil
    from waiting [OF Nil] obtain p where p: "bt_get (ipc_pending_reads (sys_ipc s)) ?id = Some p" "pending_sender p = ch"
      by blast
    with bt_entries_get [OF ipc_invD(2) [OF inv(2)], of ?id p] have "p \<in> set (bt_values (ipc_pending_reads (sys_ipc s)))"
      by (force simp: bt_values_def)
    with p(2) Nil show ?thesis by (auto simp: channel_recv_def list_ex_iff)
  qed (simp add: channel_recv_def)
  show "validate_provider_read_response_for_request (sys_routed s ! ch) response = Inr ()"
    if "r = Inr response" for response
  proof (rule answers_okD(3) [OF inv(3) ch])
    from that assms(4) have "channel_recv (sys_ipc s) ch = Received (Inr response)"
      by (auto simp: finish_routed_read_def split: Recv.splits)
    then show "Inr response \<in> set (ipc_channels (sys_ipc s) ! ch)"
      by (auto simp: channel_recv_def split: list.splits if_splits)
  qed
  show "bt_get (ipc_pending_reads st) ?id = None"
  proof (cases "ipc_channels (sys_ipc s) ! ch")
    case Nil
    with \<open>channel_recv (sys_ipc s) ch \<noteq> RecvDisconnected\<close> have "channel_recv (sys_ipc s) ch = RecvTimeout"
      by (auto simp: channel_recv_def split: if_splits)
    with assms(4) show ?thesis by (auto simp: finish_routed_read_def)
  next
    case (Cons x xs)
    then have "channel_recv (sys_ipc s) ch = Received x" by (simp add: channel_recv_def)
    with assms(4) have "st = sys_ipc s" by (auto simp: finish_routed_read_def)
    with answered Cons show ?thesis by simp
  qed
qed

section \<open>The whole call\<close>

text \<open>The state in which the thread waits: the request is entered, its channel is new.\<close>

lemma entered_read:
  assumes "sys_reachable k s" and "k + 2 < 2 ^ 64 - 1" and "sys_ipc s = st0"
    and "next_provider_read_request_id st0 = (st, rr_request_id request)"
    and "read_request_into_body request = Inr body" and "rely_invariant G me" and "G s"
  obtains s1 where "(sys_step ^^ 2) s s1" "G s1"
    "enter_pending_read request st = (sys_ipc s1, Inr (length (sys_routed s)))"
    "sys_routed s1 = sys_routed s @ [request]" "length (sys_routed s) \<notin> sys_abandoned s1"
proof -
  let ?s1 = "s\<lparr>sys_ipc := st, sys_tickets := insert (rr_request_id request) (sys_tickets s)\<rparr>"
  let ?s2 = "?s1\<lparr>sys_ipc := fst (enter_pending_read request (sys_ipc ?s1)),
      sys_tickets := sys_tickets ?s1 - {rr_request_id request}, sys_routed := sys_routed ?s1 @ [request]\<rparr>"
  have 1: "sys_step s ?s1" by (rule sys_step.ticket) (simp add: assms(3,4))
  have 2: "sys_step ?s1 ?s2" by (rule sys_step.enter [OF _ assms(5)]) simp
  have "G ?s1" by (rule rely_invariant.own_step [OF assms(6,7) 1]) simp
  then have G: "G ?s2" by (rule rely_invariant.own_step [OF assms(6) _ 2]) simp
  have "sys_reachable (Suc k) ?s1" by (rule sys_reachable.step [OF assms(1) 1])
  then have inv1: "sys_inv ?s1" by (rule sys_reachable_inv) (use assms(2) in simp)
  from assms(1) have inv: "sys_inv s" by (rule sys_reachable_inv) (use assms(2) in simp)
  have "bt_get (ipc_pending_reads st) (rr_request_id request) = None"
    using sys_invD(5) [OF inv1] by (simp add: tickets_ok_def)
  moreover have len: "length (ipc_channels st) = length (sys_routed s)"
    using answers_okD(1) [OF sys_invD(3) [OF inv1]] by simp
  ultimately have "enter_pending_read request st = (sys_ipc ?s2, Inr (length (sys_routed s)))"
    by (simp add: enter_pending_read_eq)
  moreover have "length (sys_routed s) \<notin> sys_abandoned ?s2"
    using sys_invD(7) [OF inv] answers_okD(1) [OF sys_invD(3) [OF inv]] by auto
  moreover have "(sys_step ^^ 2) s ?s2" using 1 2 by (auto simp: numeral_2_eq_2)
  ultimately show ?thesis using G by (intro that [of ?s2]) simp_all
qed

theorem routed_read:
  assumes "sys_reachable k s" and "sys_ipc s = w_ipc w" and "k + N + 2 < 2 ^ 64 - 1"
    and "rely_invariant G me" and "G s" and "env_waits G N env"
    and "next_provider_read_request_id (w_ipc w) = (st, rr_request_id request)"
    and "route_provider_read env request (w\<lparr>w_ipc := st\<rparr>) = (w', r)"
  shows "\<And>response. r = Inr response \<Longrightarrow> validate_provider_read_response_for_request request response = Inr ()"
    and "bt_get (ipc_pending_reads (w_ipc w')) (rr_request_id request) = None"
proof -
  let ?ok = "(\<forall>response. r = Inr response \<longrightarrow> validate_provider_read_response_for_request request response = Inr ()) \<and>
    bt_get (ipc_pending_reads (w_ipc w')) (rr_request_id request) = None"
  have ?ok
  proof (cases "res_bind (read_request_into_body request) (\<lambda>body.
      res_bind (route_lookup st request) (\<lambda>route. Inr (body, route)))")
    case (Inl e)
    have "sys_reachable (Suc k) (s\<lparr>sys_ipc := st, sys_tickets := insert (rr_request_id request) (sys_tickets s)\<rparr>)"
      by (rule sys_reachable.step [OF assms(1) sys_step.ticket]) (simp add: assms(2,7))
    then have "sys_inv (s\<lparr>sys_ipc := st, sys_tickets := insert (rr_request_id request) (sys_tickets s)\<rparr>)"
      by (rule sys_reachable_inv) (use assms(3) in simp)
    from sys_invD(5) [OF this] have "bt_get (ipc_pending_reads st) (rr_request_id request) = None"
      by (simp add: tickets_ok_def)
    with Inl assms(8) show ?thesis by (auto simp: route_provider_read_def)
  next
    case (Inr br)
    obtain body route where br: "br = (body, route)" by (cases br)
    from Inr br have body: "read_request_into_body request = Inr body" by (auto simp: outcome_simps)
    then have ids: "rrb_request_id body = rr_request_id request" by (auto simp: read_request_into_body_Inr)
    let ?ch = "length (sys_routed s)"
    have "k + 2 < 2 ^ 64 - 1" using assms(3) by simp
    from entered_read [OF assms(1) this assms(2,7) body assms(4,5)] obtain s1 where
      s1: "(sys_step ^^ 2) s s1" "G s1" "enter_pending_read request st = (sys_ipc s1, Inr ?ch)"
        "sys_routed s1 = sys_routed s @ [request]" "?ch \<notin> sys_abandoned s1" by blast
    obtain o1 wr where wr: "write_frame (stream_writer (env_os env) (route_writer route)) (env_responses env)
        (Response.ProviderReadRequest body) (w_os w) = (o1, wr)" by (metis surj_pair)
    show ?thesis
    proof (cases wr)
      case (Inl e)
      let ?st1 = "remove_pending_read (rr_request_id request) (sys_ipc s1)"
      have "ipc_inv (sys_ipc s1)"
        using sys_invD(2) [OF sys_reachable_inv [OF sys_reachable_run [OF assms(1) s1(1)]]] assms(3) by simp
      then have inv: "ipc_inv ?st1" by (rule remove_pending_read_inv)
      have "bt_get (ipc_pending_reads (disconnect_provider_id (rrb_provider_id body) ?st1)) (rr_request_id request) = None"
        using disconnect_pending [OF inv, of "rrb_provider_id body" "rr_request_id request"]
        by (cases "rrb_provider_id body = 0") (simp_all add: disconnect_provider_id_def provider_id_from_raw_def)
      with assms(8) Inr br s1(3) wr Inl ids show ?thesis by (auto simp: route_provider_read_def)
    next
      case wrote: (Inr u)
      let ?w1 = "w\<lparr>w_ipc := sys_ipc s1, w_os := o1\<rparr>"
      have "sys_ipc s1 = w_ipc ?w1" by simp
      with assms(6) s1(2) obtain n s2 where s2: "n \<le> N" "(sys_step ^^ n) s1 s2" "sys_ipc s2 = w_ipc (env_wait env ?ch ?w1)"
        and "?ch \<in> sys_abandoned s2 \<longrightarrow> ?ch \<in> sys_abandoned s1" unfolding env_waits_def by meson
      with s1(5) have kept: "?ch \<notin> sys_abandoned s2" by blast
      from sys_reachable_run [OF sys_reachable_run [OF assms(1) s1(1)] s2(2)] have inv2: "sys_inv s2"
        by (rule sys_reachable_inv) (use s2(1) assms(3) in simp)
      from sys_run_routed [OF s2(2)] have "take (Suc ?ch) (sys_routed s2) = sys_routed s @ [request]"
        by (simp add: s1(4))
      then have "length (take (Suc ?ch) (sys_routed s2)) = Suc ?ch" "take (Suc ?ch) (sys_routed s2) ! ?ch = request"
        by simp_all
      then have at: "?ch < length (sys_routed s2)" "sys_routed s2 ! ?ch = request" by simp_all
      obtain st3 r3 where fin: "finish_routed_read (rr_request_id request) ?ch (sys_ipc s2) = (st3, r3)" by (metis surj_pair)
      with assms(8) Inr br s1(3) wr wrote ids s2(3) have "r = r3" "w_ipc w' = st3"
        by (auto simp: route_provider_read_def Let_def split: prod.splits)
      with finish_routed_read_result [OF inv2 at(1) kept, unfolded at(2), OF fin] show ?thesis by simp
    qed
  qed
  then show "\<And>response. r = Inr response \<Longrightarrow> validate_provider_read_response_for_request request response = Inr ()"
    and "bt_get (ipc_pending_reads (w_ipc w')) (rr_request_id request) = None" by blast+
qed

text \<open>That a response fits its request needs no bound on the number of steps.\<close>

theorem routed_read_validated:
  assumes "sys_reachable k s" and "sys_ipc s = w_ipc w" and "rely_invariant G me" and "G s" and "env_evolves G me env"
    and "next_provider_read_request_id (w_ipc w) = (st, rr_request_id request)"
    and "route_provider_read env request (w\<lparr>w_ipc := st\<rparr>) = (w', Inr response)"
  shows "validate_provider_read_response_for_request request response = Inr ()"
proof -
  obtain body route where br: "res_bind (read_request_into_body request) (\<lambda>body.
      res_bind (route_lookup st request) (\<lambda>route. Inr (body, route))) = Inr (body, route)"
    using assms(7) by (cases "res_bind (read_request_into_body request) (\<lambda>body.
      res_bind (route_lookup st request) (\<lambda>route. Inr (body, route)))") (auto simp: route_provider_read_def)
  then have body: "read_request_into_body request = Inr body" by (auto simp: outcome_simps)
  obtain st2 e where en': "enter_pending_read request st = (st2, e)" by (metis surj_pair)
  with assms(7) br obtain ch where en: "enter_pending_read request st = (st2, Inr ch)"
    by (cases e) (simp_all add: route_provider_read_def)
  obtain o1 wr where wr: "write_frame (stream_writer (env_os env) (route_writer route)) (env_responses env)
      (Response.ProviderReadRequest body) (w_os w) = (o1, wr)" by (metis surj_pair)
  with assms(7) br en have fin: "snd (finish_routed_read (rrb_request_id body) ch
      (w_ipc (env_wait env ch (w\<lparr>w_ipc := st2, w_os := o1\<rparr>)))) = Inr response"
    by (cases wr) (auto simp: route_provider_read_def Let_def split: prod.splits)
  let ?s1 = "s\<lparr>sys_ipc := st, sys_tickets := insert (rr_request_id request) (sys_tickets s)\<rparr>"
  let ?s2 = "?s1\<lparr>sys_ipc := fst (enter_pending_read request (sys_ipc ?s1)),
      sys_tickets := sys_tickets ?s1 - {rr_request_id request}, sys_routed := sys_routed ?s1 @ [request]\<rparr>"
  have 1: "sys_step s ?s1" by (rule sys_step.ticket) (simp add: assms(2,6))
  have 2: "sys_step ?s1 ?s2" by (rule sys_step.enter [OF _ body]) simp
  have "G ?s1" by (rule rely_invariant.own_step [OF assms(3,4) 1]) simp
  then have G: "G ?s2" by (rule rely_invariant.own_step [OF assms(3) _ 2]) simp
  let ?w1 = "w\<lparr>w_ipc := st2, w_os := o1\<rparr>"
  have "sys_ipc ?s2 = w_ipc ?w1" by (simp add: en)
  with assms(5) G obtain s3 where s3: "sys_step\<^sup>*\<^sup>* ?s2 s3" "sys_ipc s3 = w_ipc (env_wait env ch ?w1)"
    unfolding env_evolves_def evolves_def by meson
  from sys_reachable.step [OF assms(1) 1] have r1: "sys_reachable (Suc k) ?s1" .
  from sys_reachable_star [OF sys_reachable.step [OF r1 2] s3(1)] obtain k3 where r3: "sys_reachable k3 s3" by blast
  note ok = answers_okD [OF sys_reachable_answers(2) [OF r3]]
  from answers_okD(1) [OF sys_reachable_answers(2) [OF r1]] en have ch: "ch = length (sys_routed s)"
    by (auto simp: enter_pending_read_eq split: if_splits option.splits)
  from s3(1) obtain n where "(sys_step ^^ n) ?s2 s3" by (auto simp: rtranclp_power)
  from sys_run_routed [OF this] have "take (Suc ch) (sys_routed s3) = sys_routed s @ [request]" by (simp add: ch)
  then have "length (take (Suc ch) (sys_routed s3)) = Suc ch" "take (Suc ch) (sys_routed s3) ! ch = request"
    by (simp_all add: ch)
  then have at: "ch < length (sys_routed s3)" "sys_routed s3 ! ch = request" by simp_all
  from fin s3(2) have "channel_recv (sys_ipc s3) ch = Received (Inr response)"
    by (auto simp: finish_routed_read_def split: Recv.splits)
  then have "Inr response \<in> set (ipc_channels (sys_ipc s3) ! ch)"
    by (auto simp: channel_recv_def split: list.splits if_splits)
  with ok(3) [of ch response] at ok(1) show ?thesis by simp
qed

section \<open>Honest providers\<close>

text \<open>What is assumed of the providers: an answer that arrives in an empty mailbox while its reader
  waits holds the bytes of the file at the requested offset. \<open>content\<close> gives the bytes of each
  file.\<close>

definition answers_honest :: "'w Env \<Rightarrow> (CacheKey \<Rightarrow> nat \<Rightarrow> u8 option) \<Rightarrow> bool" where
  "answers_honest env content \<longleftrightarrow>
     (\<forall>w k p response. bt_get (ipc_pending_reads (w_ipc w)) k = Some p \<longrightarrow>
        ipc_channels (w_ipc w) ! pending_sender p = [] \<longrightarrow>
        Inr response \<in> set (ipc_channels (w_ipc (env_wait env (pending_sender p) w)) ! pending_sender p) \<longrightarrow>
        rs_status response = ProviderReadStatus.Ok \<longrightarrow>
        holds_at (content (CacheKey (rr_promise_id (pending_request p)) (rr_relative_path (pending_request p))))
          (unat (rr_offset (pending_request p))) (rs_bytes response))"

text \<open>What one successful call does to the world: the request is entered and sent, the others run,
  the answer is taken.\<close>

lemma route_provider_read_Inr:
  assumes "route_provider_read env request w = (w', Inr response)"
  obtains body st ch o1 w2 and route :: ProviderRoute where "read_request_into_body request = Inr body"
    "enter_pending_read request (w_ipc w) = (st, Inr ch)"
    "write_frame (stream_writer (env_os env) (route_writer route)) (env_responses env)
       (Response.ProviderReadRequest body) (w_os w) = (o1, Inr ())"
    "w2 = env_wait env ch (w\<lparr>w_ipc := st, w_os := o1\<rparr>)"
    "channel_recv (w_ipc w2) ch = Received (Inr response)" "w' = w2"
proof -
  obtain body route where br: "res_bind (read_request_into_body request) (\<lambda>body.
      res_bind (route_lookup (w_ipc w) request) (\<lambda>route. Inr (body, route))) = Inr (body, route)"
    using assms by (cases "res_bind (read_request_into_body request) (\<lambda>body.
      res_bind (route_lookup (w_ipc w) request) (\<lambda>route. Inr (body, route)))") (auto simp: route_provider_read_def)
  then have body: "read_request_into_body request = Inr body" by (auto simp: outcome_simps)
  obtain st e where "enter_pending_read request (w_ipc w) = (st, e)" by (metis surj_pair)
  with assms br obtain ch where en: "enter_pending_read request (w_ipc w) = (st, Inr ch)"
    by (cases e) (simp_all add: route_provider_read_def)
  obtain o1 wr where wr: "write_frame (stream_writer (env_os env) (route_writer route)) (env_responses env)
      (Response.ProviderReadRequest body) (w_os w) = (o1, wr)" by (metis surj_pair)
  let ?w2 = "env_wait env ch (w\<lparr>w_ipc := st, w_os := o1\<rparr>)"
  from assms br en wr have u: "wr = Inr ()" by (cases wr) (simp_all add: route_provider_read_def)
  with assms br en wr have "channel_recv (w_ipc ?w2) ch = Received (Inr response)" "w' = ?w2"
    by (auto simp: route_provider_read_def Let_def finish_routed_read_def split: prod.splits Recv.splits)
  then show ?thesis by (rule that [OF body en wr [unfolded u] refl])
qed

lemma channel_recv_Received: "channel_recv st ch = Received r \<Longrightarrow> r \<in> set (ipc_channels st ! ch)"
  by (auto simp: channel_recv_def split: list.splits if_splits)

lemma routed_read_honest:
  assumes "answers_honest env content" and "route_provider_read env request w = (w', Inr response)"
    and "rs_status response = ProviderReadStatus.Ok"
  shows "holds_at (content (CacheKey (rr_promise_id request) (rr_relative_path request))) (unat (rr_offset request)) (rs_bytes response)"
proof -
  from assms(2) obtain st ch o1 w2 where en: "enter_pending_read request (w_ipc w) = (st, Inr ch)"
    and w2: "w2 = env_wait env ch (w\<lparr>w_ipc := st, w_os := o1\<rparr>)" "channel_recv (w_ipc w2) ch = Received (Inr response)"
    by (rule route_provider_read_Inr) blast
  let ?p = "\<lparr>pending_provider_id = rr_provider_id request, pending_request = request, pending_sender = ch\<rparr>"
  from en have "bt_get (ipc_pending_reads st) (rr_request_id request) = Some ?p"
    by (auto simp: enter_pending_read_eq split: if_splits option.splits)
  then have p: "bt_get (ipc_pending_reads (w_ipc (w\<lparr>w_ipc := st, w_os := o1\<rparr>))) (rr_request_id request) = Some ?p" by simp
  from en have fresh: "ipc_channels (w_ipc (w\<lparr>w_ipc := st, w_os := o1\<rparr>)) ! pending_sender ?p = []"
    by (auto simp: enter_pending_read_eq split: if_splits)
  from channel_recv_Received [OF w2(2)] w2(1) have "Inr response \<in> set (ipc_channels (w_ipc (env_wait env (pending_sender ?p)
      (w\<lparr>w_ipc := st, w_os := o1\<rparr>))) ! pending_sender ?p)" by simp
  with assms(1,3) p fresh have "holds_at (content (CacheKey (rr_promise_id (pending_request ?p)) (rr_relative_path (pending_request ?p))))
      (unat (rr_offset (pending_request ?p))) (rs_bytes response)" unfolding answers_honest_def by blast
  then show ?thesis by simp
qed

end
