(* ===== verification/Fuse_Reads.thy ===== *)
theory Fuse_Reads
  imports Routed_Reads
begin

text \<open>
  The file system seen through its callbacks: a read returns bytes of the file at the
  requested offset whatever path it takes (cache, local copy, provider, widened request), and
  a client that pages through a directory sees every entry once.
\<close>

section \<open>The plan of a read\<close>

lemma provider_reply_bytes_Inr:
  assumes "provider_reply_bytes bs ro rl = Inr out"
  shows "out = subslice bs (unat ro) (unat ro + length out)" and "length out \<le> unat rl"
    and "unat ro + length out \<le> length bs" and "length bs < unat ro + unat rl \<Longrightarrow> unat ro = 0 \<and> out = bs"
  using assms by (auto simp: provider_reply_bytes_def Let_def subslice_def split: if_splits)

lemma plan_coalesced_Inr:
  assumes "promise rt (plan_promise_id plan) = Some t" and "tree_get t (plan_relative_path plan) = Some n"
    and "node_kind n = NodeKind.File"
    and "unat (plan_offset plan) + unat (plan_length plan) \<le> unat (attr_size (node_attr n))"
    and "plan_coalesced_provider_read rt plan = Inr c"
  shows "coalesced_ok (attr_size (node_attr n)) plan c"
proof -
  have "unat (chunk_base (plan_offset plan) cs) + unat cs < 2 ^ 64"
    if "cache_policy_chunk_size (rt_cache_policy rt) = Some cs" for cs
  proof (rule ccontr)
    assume "\<not> ?thesis"
    then have "2 ^ 64 \<le> unat (chunk_base (plan_offset plan) cs) + unat cs" by simp
    from plan_coalesced_last_chunk [OF assms(1-3) that this] assms(5) show False by simp
  qed
  from plan_coalesced_ok [OF assms(1-4) this] assms(5) show ?thesis by auto
qed

text \<open>What \<open>fuse_plan_read\<close> returns for a node, by the outcome of \<open>plan_read\<close>.\<close>

lemma fuse_plan_read_node:
  assumes "rt_inv (ipc_runtime st)" and "node_at (ipc_runtime st) pid path = Some n"
    and "fuse_plan_read st (node_inode n) offset sz = (st', Inr planned)"
  obtains "plan_read (ipc_runtime st) pid path offset sz = Inr ReadPlan.Eof" "planned = None"
  | (cached) c where "plan_read (ipc_runtime st) pid path offset sz = Inr (ReadPlan.Cached c)"
      "planned = Some (FuseReadPlan.Cached (cached_bytes c))"
  | (local_copy) m where "plan_read (ipc_runtime st) pid path offset sz = Inr (ReadPlan.Materialized m)"
      "planned = Some (FuseReadPlan.Materialized (materialized_path m) (materialized_offset m) (materialized_length m))"
  | (provider) plan c rid where "plan_read (ipc_runtime st) pid path offset sz = Inr (ReadPlan.Request plan)"
      "plan_coalesced_provider_read (ipc_runtime st) plan = Inr c"
      "next_provider_read_request_id st = (st', rid)"
      "planned = Some (FuseReadPlan.Provider (read_request_of_plan rid (coalesced_provider c))
         (coalesced_response_offset c) (coalesced_response_length c))"
  using assms(3) lookup_inode_node [OF assms(1,2)] rt_inv_path [OF assms(1,2)]
  by (auto simp: fuse_plan_read_def Let_def split: sum.splits ReadPlan.splits prod.splits)

lemma planned_file:
  assumes "rt_inv rt" and "node_at rt pid path = Some n" and "plan_read rt pid path offset sz = Inr plan"
  obtains t where "promise rt pid = Some t" "tree_get t path = Some n" "node_kind n = NodeKind.File"
    "plan = ReadPlan.Eof \<longleftrightarrow> sz = 0 \<or> attr_size (node_attr n) \<le> offset"
proof -
  from plan_read_Inr_file [OF assms(3)] obtain t m where t: "promise rt pid = Some t" "tree_get t path = Some m"
    "node_kind m = NodeKind.File" "plan = ReadPlan.Eof \<longleftrightarrow> sz = 0 \<or> attr_size (node_attr m) \<le> offset" by blast
  from assms(2) t(1) have "bt_get (tree_nodes t) path = Some n" by (simp add: node_at_def)
  moreover have "normal_path path" using rt_inv_node [OF assms(1,2)] by blast
  ultimately have "m = n" using t(2) by (simp add: tree_get_def normal_path_def)
  with t show ?thesis by (intro that) simp_all
qed

text \<open>A provider request covers the bytes asked for, at the recorded place in the response.\<close>

lemma provider_plan:
  assumes "rt_inv rt" and "node_at rt pid path = Some n"
    and "plan_read rt pid path offset sz = Inr (ReadPlan.Request plan)"
    and "plan_coalesced_provider_read rt plan = Inr c"
    and q_def: "q = read_request_of_plan rid (coalesced_provider c)"
  shows "rr_promise_id q = pid" and "rr_relative_path q = path"
    and "coalesced_response_length c = clip_length (attr_size (node_attr n)) offset sz"
    and "unat offset = unat (rr_offset q) + unat (coalesced_response_offset c)"
    and "unat (coalesced_response_offset c) + unat (coalesced_response_length c) \<le> unat (rr_length q)"
    and "unat (rr_offset q) + unat (rr_length q) \<le> unat (attr_size (node_attr n))"
proof -
  from planned_file [OF assms(1-3)] obtain t where t: "promise rt pid = Some t" "tree_get t path = Some n"
    "node_kind n = NodeKind.File" "\<not> (sz = 0 \<or> attr_size (node_attr n) \<le> offset)" by auto
  have pos: "0 < sz" "offset < attr_size (node_attr n)" using t(4) by (auto simp: not_le word_neq_0_conv [symmetric])
  have path: "node_relative_path n = path" by (rule rt_inv_path [OF assms(1,2)])
  from plan_read_file [OF assms(1) t(1-3) pos] assms(3)
  have plan: "plan = request_of t n offset (clip_length (attr_size (node_attr n)) offset sz)"
    by (auto split: option.splits if_splits)
  have pid: "tree_promise_id t = pid" using rt_invD(4) [OF assms(1) t(1)] by (simp add: promise_ok_def)
  have "coalesced_ok (attr_size (node_attr n)) plan c"
    by (rule plan_coalesced_Inr [OF _ _ t(3) _ assms(4)])
      (use t clip_length_end [of offset "attr_size (node_attr n)" sz] pos in \<open>simp_all add: plan request_of_def pid path\<close>)
  then have "coalesced_response_length c = plan_length plan"
    and c: "coalesced_provider c = plan\<lparr>plan_offset := plan_offset (coalesced_provider c),
        plan_length := plan_length (coalesced_provider c)\<rparr>"
    and "unat (plan_offset plan) = unat (plan_offset (coalesced_provider c)) + unat (coalesced_response_offset c)"
    and "unat (coalesced_response_offset c) + unat (coalesced_response_length c) \<le> unat (plan_length (coalesced_provider c))"
    and "unat (plan_offset (coalesced_provider c)) + unat (plan_length (coalesced_provider c)) \<le> unat (attr_size (node_attr n))"
    unfolding coalesced_ok_def by blast+
  moreover have "plan_promise_id (coalesced_provider c) = pid" "plan_relative_path (coalesced_provider c) = path"
    by (subst c, simp add: plan request_of_def pid path)+
  ultimately show "rr_promise_id q = pid" "rr_relative_path q = path"
    "coalesced_response_length c = clip_length (attr_size (node_attr n)) offset sz"
    "unat offset = unat (rr_offset q) + unat (coalesced_response_offset c)"
    "unat (coalesced_response_offset c) + unat (coalesced_response_length c) \<le> unat (rr_length q)"
    "unat (rr_offset q) + unat (rr_length q) \<le> unat (attr_size (node_attr n))"
    by (simp_all add: q_def read_request_of_plan_def plan request_of_def)
qed

text \<open>What a read relies on of the local file system: the copy holds the bytes of the file.\<close>

definition local_copy_honest :: "'w Os \<Rightarrow> (CacheKey \<Rightarrow> nat \<Rightarrow> u8 option) \<Rightarrow> CacheKey \<Rightarrow> path \<Rightarrow> 'w \<Rightarrow> bool" where
  "local_copy_honest os content key file o' \<longleftrightarrow>
     (\<forall>o1 f offset len bs. os_open os file o' = (o1, Inr f) \<longrightarrow> os_file_read_at os o1 f offset len = Inr bs \<longrightarrow>
        holds_at (content key) (unat offset) bs)"

theorem fuse_read_content:
  assumes "honest_reachable content k (ipc_runtime (w_ipc w))" and "k < 2 ^ 64 - 1"
    and node: "node_at (ipc_runtime (w_ipc w)) pid path = Some n"
    and served: "answers_honest env content"
    and copy: "\<And>file. node_materialized_path n = Some file \<Longrightarrow>
        local_copy_honest (env_os env) content (CacheKey pid path) file (w_os w)"
    and read: "fuse_read env (node_inode n) offset sz w = (w', Inr bytes)"
  shows "holds_at (content (CacheKey pid path)) (unat offset) bytes"
    and "length bytes \<le> min (unat sz) (unat (attr_size (node_attr n)) - unat offset)"
proof -
  let ?rt = "ipc_runtime (w_ipc w)" and ?sz = "min sz MAX_PROVIDER_READ_LEN" and ?size = "attr_size (node_attr n)"
  have inv: "rt_inv ?rt" by (rule runtime_reachable_inv [OF honest_reachable_reachable [OF assms(1)] assms(2)])
  have sz: "unat ?sz \<le> unat sz" by (simp add: min_def word_le_nat_alt)
  from read obtain st planned where p: "fuse_plan_read (w_ipc w) (node_inode n) offset ?sz = (st, Inr planned)"
    by (auto simp: fuse_read_def Let_def split: prod.splits sum.splits)
  have "holds_at (content (CacheKey pid path)) (unat offset) bytes \<and> length bytes \<le> min (unat ?sz) (unat ?size - unat offset)"
    using inv node p
  proof (cases rule: fuse_plan_read_node)
    case 1
    with read p show ?thesis by (simp add: fuse_read_def)
  next
    case (cached c)
    from cached(2) read p have "bytes = cached_bytes c" by (simp add: fuse_read_def)
    moreover obtain t where t: "promise ?rt pid = Some t" "tree_get t path = Some n"
      by (rule planned_file [OF inv node cached(1)])
    moreover note cached_plan_transparent [OF assms(1,2) cached(1)] rt_inv_path [OF inv node]
    ultimately show ?thesis by auto
  next
    case (local_copy m)
    obtain t where t: "promise ?rt pid = Some t" "tree_get t path = Some n" "node_kind n = NodeKind.File"
      "\<not> (?sz = 0 \<or> ?size \<le> offset)" by (rule planned_file [OF inv node local_copy(1)]) simp
    have pos: "0 < ?sz" "offset < ?size" using t(4) by (auto simp: not_le word_neq_0_conv [symmetric])
    from plan_read_file [OF inv t(1-3) pos] local_copy(1)
    have m: "node_materialized_path n = Some (materialized_path m)" "materialized_offset m = offset"
      "materialized_length m = clip_length ?size offset ?sz"
      by (auto split: option.splits if_splits)
    from read p local_copy(2) obtain o1 f where
      "os_open (env_os env) (materialized_path m) (w_os w) = (o1, Inr f)"
      "os_file_read_at (env_os env) o1 f offset (unat (materialized_length m)) = Inr bytes"
      "length bytes = unat (materialized_length m)"
      by (auto simp: fuse_read_def read_materialized_file_def Let_def m(2) outcome_simps split: prod.splits sum.splits if_splits)
    with copy [OF m(1)] m(3) pos show ?thesis
      by (auto simp: local_copy_honest_def unat_clip_length)
  next
    case (provider plan c rid)
    let ?q = "read_request_of_plan rid (coalesced_provider c)"
    note q = provider_plan [OF inv node provider(1,2) refl [of ?q]]
    from read p provider(4) obtain w2 response where
      resp: "route_provider_read env ?q (w\<lparr>w_ipc := st\<rparr>) = (w2, Inr response)" "rs_status response = ProviderReadStatus.Ok"
      and out: "provider_reply_bytes (rs_bytes response) (coalesced_response_offset c) (coalesced_response_length c) = Inr bytes"
      by (auto simp: fuse_read_def Let_def split: prod.splits sum.splits if_splits)
    from routed_read_honest [OF served resp]
    have "holds_at (content (CacheKey pid path)) (unat (rr_offset ?q)) (rs_bytes response)"
      by (simp add: q(1,2))
    note holds_at_subslice [OF this, of "unat (coalesced_response_offset c)"
      "unat (coalesced_response_offset c) + length bytes"]
    with provider_reply_bytes_Inr [OF out] q(4) have "holds_at (content (CacheKey pid path)) (unat offset) bytes" by simp
    moreover have "length bytes \<le> unat (clip_length ?size offset ?sz)"
      using provider_reply_bytes_Inr(2) [OF out] q(3) by simp
    moreover obtain "offset \<le> ?size"
      by (rule planned_file [OF inv node provider(1)]) auto
    ultimately show ?thesis by (simp add: unat_clip_length)
  qed
  with sz show "holds_at (content (CacheKey pid path)) (unat offset) bytes"
    and "length bytes \<le> min (unat sz) (unat ?size - unat offset)" by auto
qed

section \<open>Paging through a directory\<close>

text \<open>The reply buffer of \<open>fuser\<close>, seen through the entries it holds: an entry is appended unless
  the buffer reports that it is full, and an empty buffer has room for one.\<close>

type_synonym dir_entry = "u64 \<times> u64 \<times> FuseFileType \<times> string"

definition dir_buffer_ok :: "'b dir_add \<Rightarrow> ('b \<Rightarrow> dir_entry list) \<Rightarrow> 'b \<Rightarrow> bool" where
  "dir_buffer_ok add entries fresh \<longleftrightarrow>
     entries fresh = [] \<and>
     (\<forall>buf inode offset kind name.
        entries (fst (add buf inode offset kind name)) =
          (if snd (add buf inode offset kind name) then entries buf
           else entries buf @ [(inode, offset, kind, name)])) \<and>
     (\<forall>inode offset kind name. \<not> snd (add fresh inode offset kind name))"

definition listed_entry :: "nat \<times> DirectoryEntry \<Rightarrow> dir_entry" where
  "listed_entry = (\<lambda>(index, e). (dirent_inode e, of_nat (index + 1), node_kind_to_file_type (dirent_kind e), dirent_name e))"

text \<open>A client that asks for the next page from the offset of the last entry it got, until a page
  is empty; the first argument bounds the number of pages.\<close>

fun read_pages :: "nat \<Rightarrow> Runtime \<Rightarrow> 'b dir_add \<Rightarrow> ('b \<Rightarrow> dir_entry list) \<Rightarrow> 'b \<Rightarrow> u64 \<Rightarrow> u64 \<Rightarrow> dir_entry list reply option" where
  "read_pages 0 rt add entries fresh ino offset = None"
| "read_pages (Suc pages) rt add entries fresh ino offset =
     (case fuse_readdir rt add fresh ino offset of
        Inl e \<Rightarrow> Some (Inl e)
      | Inr buf \<Rightarrow>
          if entries buf = [] then Some (Inr [])
          else map_option (map_ok (\<lambda>rest. entries buf @ rest))
                 (read_pages pages rt add entries fresh ino (fst (snd (last (entries buf))))))"

lemma fill_directory_entries:
  assumes "dir_buffer_ok add entries fresh"
  shows "\<exists>n\<le>length xs. entries (fill_directory add xs buf) = entries buf @ map listed_entry (take n xs)"
proof (induction xs arbitrary: buf)
  case (Cons x xs)
  obtain index e where x: "x = (index, e)" by (cases x)
  let ?add = "add buf (dirent_inode e) (of_nat (index + 1)) (node_kind_to_file_type (dirent_kind e)) (dirent_name e)"
  have step: "entries (fst ?add) = (if snd ?add then entries buf else entries buf @ [listed_entry x])"
    using assms by (simp add: dir_buffer_ok_def x listed_entry_def)
  show ?case
  proof (cases "snd ?add")
    case True
    with step show ?thesis by (intro exI [of _ 0]) (simp add: x case_prod_beta)
  next
    case False
    from Cons [of "fst ?add"] obtain n where "n \<le> length xs"
      "entries (fill_directory add xs (fst ?add)) = entries (fst ?add) @ map listed_entry (take n xs)" by blast
    with step False show ?thesis by (intro exI [of _ "Suc n"]) (simp add: x case_prod_beta)
  qed
qed simp

lemma fill_directory_first:
  assumes "dir_buffer_ok add entries fresh" and "xs \<noteq> []"
  shows "entries (fill_directory add xs fresh) \<noteq> []"
proof -
  obtain index e xs' where xs: "xs = (index, e) # xs'" using assms(2) by (cases xs) auto
  let ?add = "add fresh (dirent_inode e) (of_nat (index + 1)) (node_kind_to_file_type (dirent_kind e)) (dirent_name e)"
  have "\<not> snd ?add" "entries (fst ?add) \<noteq> []" using assms(1) by (auto simp: dir_buffer_ok_def)
  with fill_directory_entries [OF assms(1), of xs' "fst ?add"] show ?thesis by (auto simp: xs case_prod_beta)
qed

theorem read_pages_complete:
  assumes "dir_buffer_ok add entries fresh" and "fuse_directory_entries rt ino = Inr es" and "length es < 2 ^ 64"
    and "length es - unat offset < pages" and "unat offset \<le> length es"
  shows "read_pages pages rt add entries fresh ino offset =
    Some (Inr (map listed_entry (drop (unat offset) (enumerate 0 es))))"
  using assms(4,5)
proof (induction pages arbitrary: offset)
  case (Suc pages)
  let ?xs = "drop (unat offset) (enumerate 0 es)"
  let ?buf = "fill_directory add ?xs fresh"
  have dir: "fuse_readdir rt add fresh ino offset = Inr ?buf" using assms(2) by (simp add: fuse_readdir_def)
  from fill_directory_entries [OF assms(1), of ?xs fresh] assms(1) obtain n where
    n: "n \<le> length es - unat offset" "entries ?buf = map listed_entry (take n ?xs)" by (auto simp: dir_buffer_ok_def)
  show ?case
  proof (cases "?xs = []")
    case True
    with dir n show ?thesis by simp
  next
    case False
    with fill_directory_first [OF assms(1)] have ne: "entries ?buf \<noteq> []" by blast
    with n(2) have pos: "0 < n" by auto
    let ?next = "fst (snd (last (entries ?buf)))"
    have "last (take n ?xs) = ?xs ! (n - 1)"
      using pos n(1) False by (subst last_conv_nth) (auto simp: min_def)
    also have "\<dots> = (unat offset + (n - 1), es ! (unat offset + (n - 1)))"
      using pos n(1) Suc.prems(2) by (simp add: nth_enumerate_eq)
    finally have "?next = of_nat (unat offset + n)"
      using ne n(2) pos by (simp add: last_map listed_entry_def)
    moreover have "unat offset + n < 2 ^ 64" using n(1) Suc.prems(2) assms(3) by simp
    ultimately have next': "unat ?next = unat offset + n" by (metis unat_of_nat_u64)
    have "read_pages pages rt add entries fresh ino ?next =
        Some (Inr (map listed_entry (drop (unat ?next) (enumerate 0 es))))"
      by (rule Suc.IH) (use next' n(1) pos Suc.prems in simp_all)
    moreover have "?xs = take n ?xs @ drop (unat offset + n) (enumerate 0 es)"
      by (metis add.commute append_take_drop_id drop_drop)
    then have "map listed_entry ?xs = map listed_entry (take n ?xs) @ map listed_entry (drop (unat offset + n) (enumerate 0 es))"
      by (metis map_append)
    ultimately show ?thesis using dir ne n(2) next' by simp
  qed
qed simp

end
