(* ===== verification/Materialize_Copies.thy ===== *)
theory Materialize_Copies
  imports Fuse_Reads
begin

text \<open>
  What a materialisation does: the plan respects the conflict policy, the copy loop writes the
  file's bytes once and in order, the final counts are the planned totals, and the nodes are
  then read from their local copies.
\<close>

section \<open>The plan\<close>

abbreviation target_free :: "'w Os \<Rightarrow> 'w \<Rightarrow> path \<Rightarrow> bool" where
  "target_free os o' p \<equiv> \<exists>e. os_symlink_metadata os o' p = Inl e \<and> err_kind e = KNotFound"

lemma preflight_Inr:
  "preflight_materialize_targets os o' entries policy = Inr () \<longleftrightarrow>
     (\<forall>e\<in>set entries. target_free os o' (me_target_path e) \<or>
        (policy = MaterializeConflictPolicy.Overwrite \<and>
         (\<exists>m. os_symlink_metadata os o' (me_target_path e) = Inr m \<and>
            (me_kind e = NodeKind.Directory \<and> md_type m = FtDir \<or> me_kind e = NodeKind.File \<and> md_type m = FtFile))))"
proof (induction entries)
  case (Cons e entries)
  have "(case os_symlink_metadata os o' (me_target_path e) of
          Inr metadata \<Rightarrow> validate_existing_materialize_target e metadata policy
        | Inl error \<Rightarrow> if err_kind error = KNotFound then Inr () else Inl (io_error_to_status error)) = Inr () \<longleftrightarrow>
      target_free os o' (me_target_path e) \<or>
        (policy = MaterializeConflictPolicy.Overwrite \<and>
         (\<exists>m. os_symlink_metadata os o' (me_target_path e) = Inr m \<and>
            (me_kind e = NodeKind.Directory \<and> md_type m = FtDir \<or> me_kind e = NodeKind.File \<and> md_type m = FtFile)))"
    by (cases policy) (auto simp: validate_existing_materialize_target_def split: sum.splits)
  with Cons show ?case by (auto simp: outcome_simps)
qed simp

lemma try_candidates_Inr:
  assumes "try_candidates os o' dir name kind attempts = Inr p"
  obtains before attempt after where "attempts = before @ attempt # after"
    "p = path_join dir (if attempt = 0 then name else rename_candidate_name name kind attempt)"
    "target_free os o' p"
    "\<forall>a\<in>set before. \<exists>m. os_symlink_metadata os o'
       (path_join dir (if a = 0 then name else rename_candidate_name name kind a)) = Inr m"
  using assms
proof (induction attempts arbitrary: thesis)
  case (Cons a attempts)
  let ?c = "path_join dir (if a = 0 then name else rename_candidate_name name kind a)"
  show ?case
  proof (cases "os_symlink_metadata os o' ?c")
    case (Inl e)
    with Cons.prems(2) have "p = ?c" "target_free os o' p" by (auto simp: Let_def split: if_splits)
    then show ?thesis by (intro Cons.prems(1) [of "[]" a attempts]) simp_all
  next
    case (Inr m)
    with Cons.prems(2) have "try_candidates os o' dir name kind attempts = Inr p" by (simp add: Let_def)
    from Cons.IH [OF _ this] obtain before attempt after where "attempts = before @ attempt # after"
      "p = path_join dir (if attempt = 0 then name else rename_candidate_name name kind attempt)"
      "target_free os o' p"
      "\<forall>a\<in>set before. \<exists>m. os_symlink_metadata os o'
         (path_join dir (if a = 0 then name else rename_candidate_name name kind a)) = Inr m" by blast
    with Inr show ?thesis by (intro Cons.prems(1) [of "a # before" attempt after]) auto
  qed
qed simp

text \<open>A plan that was accepted.\<close>

lemma plan_materialize_Inr:
  assumes "plan_materialize os w request = Some (Inr plan)"
  obtains node_path tree nodes root name where
    "validate_target_dir os (w_os w) (mreq_target_dir request) = Inr ()"
    "resolve_visible_path (ipc_mount_status (w_ipc w)) (mreq_source_path request) = Inr (mpl_promise_id plan, node_path)"
    "promise (ipc_runtime (w_ipc w)) (mpl_promise_id plan) = Some tree"
    "subtree_nodes (subtree_fuel tree) tree node_path = Some (Inr (root # nodes))"
    "materialize_target_name (mpl_promise_id plan) root = Inr name"
    "materialize_target_path os (w_os w) (mreq_target_dir request) name (node_kind root) (mreq_conflict_policy request)
       = Inr (mpl_target_path plan)"
    "collect_results (map (plan_entry node_path (mpl_target_path plan)) (root # nodes)) = Inr (mpl_entries plan)"
    "preflight_materialize_targets os (w_os w) (mpl_entries plan) (mreq_conflict_policy request) = Inr ()"
    "mpl_conflict_policy plan = mreq_conflict_policy request"
proof -
  let ?rt = "ipc_runtime (w_ipc w)"
  from assms obtain promise_id node_path tree where
    src: "validate_target_dir os (w_os w) (mreq_target_dir request) = Inr ()"
      "resolve_visible_path (ipc_mount_status (w_ipc w)) (mreq_source_path request) = Inr (promise_id, node_path)"
      "promise ?rt promise_id = Some tree"
    and live: "tree_state tree = Available" "has_provider ?rt (tree_provider_id tree)"
    by (auto simp: plan_materialize_def outcome_simps split: sum.splits)
  with assms obtain all where sub: "subtree_nodes (subtree_fuel tree) tree node_path = Some (Inr all)"
    by (auto simp: plan_materialize_def outcome_simps)
  from assms src live sub obtain root nodes where all: "all = root # nodes"
    by (cases all) (simp_all add: plan_materialize_def)
  from assms src live sub all obtain name where
    "materialize_target_name promise_id root = Inr name"
    "materialize_target_path os (w_os w) (mreq_target_dir request) name (node_kind root) (mreq_conflict_policy request)
       = Inr (mpl_target_path plan)"
    "collect_results (map (plan_entry node_path (mpl_target_path plan)) (root # nodes)) = Inr (mpl_entries plan)"
    "preflight_materialize_targets os (w_os w) (mpl_entries plan) (mreq_conflict_policy request) = Inr ()"
    "mpl_conflict_policy plan = mreq_conflict_policy request" "mpl_promise_id plan = promise_id"
    by (auto simp: plan_materialize_def outcome_simps simp del: collect_results.simps list.map)
  with sub all src that show ?thesis by blast
qed

lemma collect_results_nth:
  assumes "collect_results (map f xs) = Inr ys"
  shows "length ys = length xs" and "i < length xs \<Longrightarrow> f (xs ! i) = Inr (ys ! i)"
proof -
  have "length ys = length xs \<and> (\<forall>i<length xs. f (xs ! i) = Inr (ys ! i))"
    using assms
  proof (induction xs arbitrary: ys)
    case (Cons x xs)
    then obtain y ys' where "ys = y # ys'" "f x = Inr y" "collect_results (map f xs) = Inr ys'"
      by (auto simp: outcome_simps)
    with Cons.IH [of ys'] show ?case by (auto simp: nth_Cons split: nat.split)
  qed simp
  then show "length ys = length xs" and "i < length xs \<Longrightarrow> f (xs ! i) = Inr (ys ! i)" by blast+
qed

section \<open>The copy loop\<close>

text \<open>The content of an open file as the system calls see it: writing appends, and nothing the
  thread does meanwhile changes it. \<open>I\<close> is what the thread knows of the world while it copies;
  under it a chunk that is read holds bytes of the file.\<close>

definition copies_ok :: "'w Env \<Rightarrow> string \<Rightarrow> MaterializeEntryPlan \<Rightarrow> fd \<Rightarrow> (u64 \<Rightarrow> 'w World \<Rightarrow> 'w World \<times> unit result) \<Rightarrow>
    ('w \<Rightarrow> fd \<Rightarrow> bytes) \<Rightarrow> (nat \<Rightarrow> u8 option) \<Rightarrow> ('w World \<Rightarrow> bool) \<Rightarrow> bool" where
  "copies_ok env promise_id entry f report view content I \<longleftrightarrow>
     (\<forall>w w' offset len bs. I w \<longrightarrow> read_materialize_chunk env promise_id entry offset len w = (w', Inr bs) \<longrightarrow>
        I w' \<and> view (w_os w') f = view (w_os w) f \<and> holds_at content (unat offset) bs) \<and>
     (\<forall>w w' bs. I w \<longrightarrow> on_os (os_file_write_all (env_os env) f bs) w = (w', Inr ()) \<longrightarrow>
        I w' \<and> view (w_os w') f = view (w_os w) f @ bs) \<and>
     (\<forall>w w' offset. I w \<longrightarrow> report offset w = (w', Inr ()) \<longrightarrow> I w' \<and> view (w_os w') f = view (w_os w) f) \<and>
     (\<forall>i. content i \<noteq> None \<longrightarrow> i < unat (me_size entry))"

lemma holds_at_end:
  assumes "holds_at content lo bs" and "\<And>i. content i \<noteq> None \<Longrightarrow> i < n" and "lo \<le> n"
  shows "lo + length bs \<le> n"
proof (cases bs)
  case (Cons b bs')
  then have "length bs - 1 < length bs" by simp
  with assms(1) have "content (lo + (length bs - 1)) \<noteq> None" by (auto simp: holds_at_def)
  from assms(2) [OF this] Cons show ?thesis by simp
qed (use assms(3) in simp)

theorem write_chunks_content:
  assumes "copies_ok env promise_id entry f report view content I" and "I w"
    and "write_chunks env promise_id entry f target report offset w = (w', Inr n)"
    and "offset \<le> me_size entry"
  shows "n = me_size entry \<and> I w' \<and>
    (\<exists>bs. view (w_os w') f = view (w_os w) f @ bs \<and> length bs = unat (me_size entry) - unat offset \<and>
       holds_at content (unat offset) bs)"
  using assms(2-4)
proof (induction "unat (me_size entry) - unat offset" arbitrary: offset w rule: less_induct)
  case less
  show ?case
  proof (cases "offset < me_size entry")
    case False
    with less.prems(3) have "offset = me_size entry" by simp
    with less.prems False show ?thesis by (auto simp: write_chunks_round)
  next
    case True
    from less.prems(2) True obtain bs w1 w2 w3 offset' where
      read: "read_materialize_chunk env promise_id entry offset
          (ucast (min (me_size entry - offset) (u64_of_u32 MAX_PROVIDER_READ_LEN))) w = (w1, Inr bs)"
      and ne: "bs \<noteq> []"
      and wrote: "on_os (os_file_write_all (env_os env) f bs) w1 = (w2, Inr ())"
      and next': "Option.bind (u64_try_from (length bs)) (checked_add offset) = Some offset'"
      and reported: "report offset' w2 = (w3, Inr ())"
      and rest: "write_chunks env promise_id entry f target report offset' w3 = (w', Inr n)"
      by (subst (asm) write_chunks_round) (auto simp: outcome_simps split: if_splits option.splits)
    from assms(1) read less.prems(1) have 1: "I w1" "view (w_os w1) f = view (w_os w) f" "holds_at content (unat offset) bs"
      unfolding copies_ok_def by blast+
    from assms(1) wrote 1(1) have 2: "I w2" "view (w_os w2) f = view (w_os w1) f @ bs"
      unfolding copies_ok_def by blast+
    from assms(1) reported 2(1) have 3: "I w3" "view (w_os w3) f = view (w_os w2) f"
      unfolding copies_ok_def by blast+
    have off: "unat offset' = unat offset + length bs" by (rule chunk_offset_increases [OF next' ne])
    have "unat offset + length bs \<le> unat (me_size entry)"
      by (rule holds_at_end [OF 1(3)])
        (use assms(1) less.prems(3) in \<open>auto simp: copies_ok_def word_le_nat_alt\<close>)
    with off have le: "offset' \<le> me_size entry" by (simp add: word_le_nat_alt)
    from less.hyps [OF chunk_measure [OF next' ne True] 3(1) rest le] obtain bs' where
      bs': "n = me_size entry" "I w'" "view (w_os w') f = view (w_os w3) f @ bs'"
        "length bs' = unat (me_size entry) - unat offset'" "holds_at content (unat offset') bs'" by blast
    have "view (w_os w') f = view (w_os w) f @ (bs @ bs')" using bs'(3) 3(2) 2(2) 1(2) by simp
    moreover have "length (bs @ bs') = unat (me_size entry) - unat offset"
      using bs'(4) off le by (simp add: word_le_nat_alt)
    moreover have "holds_at content (unat offset) (bs @ bs')"
      using 1(3) bs'(5) off by (simp add: holds_at_append)
    ultimately show ?thesis using bs'(1,2) by blast
  qed
qed

section \<open>What was planned\<close>

lemma plan_entry_Inr:
  assumes "plan_entry node_path target n = Inr e"
  shows "me_relative_path e = node_relative_path n" and "me_kind e = node_kind n"
    and "me_size e = attr_size (node_attr n)"
  using assms by (auto simp: plan_entry_def outcome_simps)

lemma subtree_nodes_listing:
  assumes "tree_wf t" and "subtree_nodes (subtree_fuel t) t node_path = Some (Inr ns)"
  obtains n where "tree_get t node_path = Some n" "subtree_listing t [node_relative_path n] ns"
proof (cases "tree_get t node_path")
  case (Some n)
  from subtree_nodes_complete [OF assms(1) order_refl Some] assms(2) Some show ?thesis by (intro that) auto
next
  case None
  with assms(2) show ?thesis
    by (auto simp: subtree_nodes_def tree_get_def subtree_fuel_def outcome_simps split: sum.splits option.splits)
qed

text \<open>The entries of a plan are the nodes of the subtree: all of them, once each, parents first,
  each with the kind and the size of its node.\<close>

lemma plan_entries:
  assumes "rt_inv (ipc_runtime (w_ipc w))" and "plan_materialize os w request = Some (Inr plan)"
  obtains tree ns where "promise (ipc_runtime (w_ipc w)) (mpl_promise_id plan) = Some tree"
    "list_all2 (\<lambda>n e. me_relative_path e = node_relative_path n \<and> me_kind e = node_kind n \<and>
        me_size e = attr_size (node_attr n)) ns (mpl_entries plan)"
    "distinct (map me_relative_path (mpl_entries plan))"
    "\<forall>n\<in>set ns. node_at (ipc_runtime (w_ipc w)) (mpl_promise_id plan) (node_relative_path n) = Some n"
    "ns \<noteq> []" "subtree_listing tree [node_relative_path (hd ns)] ns"
proof -
  from plan_materialize_Inr [OF assms(2)] obtain node_path tree nodes root name where
    tree: "promise (ipc_runtime (w_ipc w)) (mpl_promise_id plan) = Some tree"
    and sub: "subtree_nodes (subtree_fuel tree) tree node_path = Some (Inr (root # nodes))"
    and entries: "collect_results (map (plan_entry node_path (mpl_target_path plan)) (root # nodes)) = Inr (mpl_entries plan)"
    by metis
  let ?ns = "root # nodes"
  from rt_invD(4) [OF assms(1) tree] have wf: "tree_wf tree" by (simp add: promise_ok_def)
  from subtree_nodes_listing [OF wf sub] obtain n where
    n: "tree_get tree node_path = Some n" "subtree_listing tree [node_relative_path n] ?ns" by blast
  have all: "list_all2 (\<lambda>n e. me_relative_path e = node_relative_path n \<and> me_kind e = node_kind n \<and>
      me_size e = attr_size (node_attr n)) ?ns (mpl_entries plan)"
    using collect_results_nth [OF entries] plan_entry_Inr unfolding list_all2_conv_all_nth by metis
  then have "map me_relative_path (mpl_entries plan) = map node_relative_path ?ns"
    by (induction rule: list_all2_induct) auto
  moreover from n(2) have "distinct (map node_relative_path ?ns)" unfolding subtree_listing_def by blast
  ultimately have "distinct (map me_relative_path (mpl_entries plan))" by metis
  moreover have "\<forall>n\<in>set ?ns. node_at (ipc_runtime (w_ipc w)) (mpl_promise_id plan) (node_relative_path n) = Some n"
    using n(2) tree by (auto simp: subtree_listing_def node_at_def)
  moreover have "node_relative_path root = node_relative_path n"
    using n(2) by (auto simp: subtree_listing_def)
  ultimately show ?thesis using that [OF tree all] n(2) by simp
qed

section \<open>Marking\<close>

lemma mark_node_materialized_Inr:
  assumes "mark_node_materialized rt pid path target = (rt', Inr ())" and "normal_path path"
  obtains n where "node_at rt pid path = Some n"
    "\<And>q r. node_at rt' q r = (if q = pid \<and> r = path then Some (n\<lparr>node_materialized_path := Some target\<rparr>) else node_at rt q r)"
proof -
  from assms obtain t n where m: "promise rt pid = Some t" "bt_get (tree_nodes t) path = Some n"
    "rt' = rt\<lparr>rt_promises := bt_insert pid (t\<lparr>tree_nodes := bt_insert path
       (n\<lparr>node_materialized_path := Some target\<rparr>) (tree_nodes t)\<rparr>) (rt_promises rt)\<rparr>"
    by (auto simp: mark_node_materialized_def normal_path_def promise_def outcome_simps split: sum.splits)
  have pr: "promise rt' q = (if q = pid then Some (t\<lparr>tree_nodes := bt_insert path
       (n\<lparr>node_materialized_path := Some target\<rparr>) (tree_nodes t)\<rparr>) else promise rt q)" for q
    by (simp add: m(3) promise_def)
  have "node_at rt' q r = (if q = pid \<and> r = path then Some (n\<lparr>node_materialized_path := Some target\<rparr>) else node_at rt q r)" for q r
    using m(1) by (simp add: node_at_def pr)
  with m(1,2) show ?thesis by (intro that [of n]) (simp_all add: node_at_def)
qed

lemma mark_entries_Inr:
  assumes "mark_entries pid entries progress created w = (w', Inr ())"
    and "distinct (map me_relative_path entries)" and "\<forall>e\<in>set entries. normal_path (me_relative_path e)"
  shows "(\<forall>e\<in>set entries. \<exists>n. node_at (ipc_runtime (w_ipc w)) pid (me_relative_path e) = Some n \<and>
      node_at (ipc_runtime (w_ipc w')) pid (me_relative_path e) = Some (n\<lparr>node_materialized_path := Some (me_target_path e)\<rparr>)) \<and>
    (\<forall>q r. q \<noteq> pid \<or> r \<notin> me_relative_path ` set entries \<longrightarrow>
      node_at (ipc_runtime (w_ipc w')) q r = node_at (ipc_runtime (w_ipc w)) q r)"
  using assms
proof (induction entries arbitrary: w)
  case (Cons e entries)
  obtain rt1 r1 where mk: "mark_node_materialized (ipc_runtime (w_ipc w)) pid (me_relative_path e) (me_target_path e) = (rt1, r1)"
    by (metis surj_pair)
  with Cons.prems(1) have r1: "r1 = Inr ()"
    and rest: "mark_entries pid entries progress created (w\<lparr>w_ipc := (w_ipc w)\<lparr>ipc_runtime := rt1\<rparr>\<rparr>) = (w', Inr ())"
    by (auto split: sum.splits)
  obtain n where n: "node_at (ipc_runtime (w_ipc w)) pid (me_relative_path e) = Some n"
    "\<forall>q r. node_at rt1 q r = (if q = pid \<and> r = me_relative_path e
       then Some (n\<lparr>node_materialized_path := Some (me_target_path e)\<rparr>) else node_at (ipc_runtime (w_ipc w)) q r)"
    by (rule mark_node_materialized_Inr [OF mk [unfolded r1]]) (use Cons.prems(3) in auto)
  have d: "distinct (map me_relative_path entries)" "\<forall>e\<in>set entries. normal_path (me_relative_path e)"
    and new: "me_relative_path e \<notin> me_relative_path ` set entries"
    using Cons.prems(2,3) by auto
  from Cons.IH [OF rest d] have
    IH1: "\<forall>e\<in>set entries. \<exists>n. node_at rt1 pid (me_relative_path e) = Some n \<and>
      node_at (ipc_runtime (w_ipc w')) pid (me_relative_path e) = Some (n\<lparr>node_materialized_path := Some (me_target_path e)\<rparr>)"
    and IH2: "\<forall>q r. q \<noteq> pid \<or> r \<notin> me_relative_path ` set entries \<longrightarrow>
      node_at (ipc_runtime (w_ipc w')) q r = node_at rt1 q r" by simp_all
  have "node_at (ipc_runtime (w_ipc w')) pid (me_relative_path e) = Some (n\<lparr>node_materialized_path := Some (me_target_path e)\<rparr>)"
    using IH2 new n(2) by simp
  moreover have "\<exists>n. node_at (ipc_runtime (w_ipc w)) pid (me_relative_path e') = Some n \<and>
      node_at (ipc_runtime (w_ipc w')) pid (me_relative_path e') = Some (n\<lparr>node_materialized_path := Some (me_target_path e')\<rparr>)"
    if "e' \<in> set entries" for e'
  proof -
    from that new have "me_relative_path e' \<noteq> me_relative_path e" by (metis imageI)
    with IH1 that n(2) show ?thesis by auto
  qed
  ultimately show ?case using n(1) IH2 n(2) by auto
qed simp

section \<open>The whole operation\<close>

lemma materialize_plan_Inr:
  assumes "materialize_plan env plan report w = (w', Inr progress)"
  obtains w1 w2 w3 w4 progress1 created1 created where
    "report (progress_new (mpl_target_path plan) (mpl_entries plan)) w = (w1, Inr ())"
    "create_directories env (mpl_conflict_policy plan) report (directory_entries (mpl_entries plan))
       (progress_new (mpl_target_path plan) (mpl_entries plan)) [] w1 = (w2, Inr (progress1, created1))"
    "write_files env (mpl_promise_id plan) (mpl_conflict_policy plan) report (file_entries (mpl_entries plan))
       progress1 created1 w2 = (w3, Inr (progress, created))"
    "apply_metadata env (rev (directory_entries (mpl_entries plan))) progress created w3 = (w4, Inr ())"
    "mark_entries (mpl_promise_id plan) (mpl_entries plan) progress created w4 = (w', Inr ())"
  using assms by (auto simp: materialize_plan_def Let_def outcome_simps)

text \<open>After success every planned node is read from its copy.\<close>

theorem materialized_nodes:
  assumes "rt_inv (ipc_runtime (w_ipc w))" and "plan_materialize (env_os env) w request = Some (Inr plan)"
    and "materialize_plan env plan report w = (w', Inr progress)" and "e \<in> set (mpl_entries plan)"
  shows "\<exists>n. node_at (ipc_runtime (w_ipc w')) (mpl_promise_id plan) (me_relative_path e) = Some n \<and>
    node_materialized_path n = Some (me_target_path e)"
proof -
  obtain ns where
    ns: "list_all2 (\<lambda>n e. me_relative_path e = node_relative_path n \<and> me_kind e = node_kind n \<and>
        me_size e = attr_size (node_attr n)) ns (mpl_entries plan)"
      "distinct (map me_relative_path (mpl_entries plan))"
      "\<forall>n\<in>set ns. node_at (ipc_runtime (w_ipc w)) (mpl_promise_id plan) (node_relative_path n) = Some n"
    by (rule plan_entries [OF assms(1,2)]) blast
  have normal: "\<forall>e\<in>set (mpl_entries plan). normal_path (me_relative_path e)"
  proof
    fix e assume "e \<in> set (mpl_entries plan)"
    then obtain i where i: "i < length (mpl_entries plan)" "e = mpl_entries plan ! i" by (auto simp: in_set_conv_nth)
    let ?n = "ns ! i"
    from i ns(1) have n: "?n \<in> set ns" "me_relative_path e = node_relative_path ?n"
      by (auto simp: list_all2_conv_all_nth)
    with ns(3) have "node_at (ipc_runtime (w_ipc w)) (mpl_promise_id plan) (me_relative_path e) = Some ?n" by simp
    from rt_inv_node [OF assms(1) this] show "normal_path (me_relative_path e)" by blast
  qed
  obtain w4 created where
    "mark_entries (mpl_promise_id plan) (mpl_entries plan) progress created w4 = (w', Inr ())"
    by (rule materialize_plan_Inr [OF assms(3)]) blast
  from mark_entries_Inr [OF this ns(2) normal] assms(4) obtain n where
    "node_at (ipc_runtime (w_ipc w')) (mpl_promise_id plan) (me_relative_path e) =
       Some (n\<lparr>node_materialized_path := Some (me_target_path e)\<rparr>)" by blast
  then show ?thesis by simp
qed

lemma materialized_read:
  assumes "rt_inv rt" and "node_at rt pid path = Some n" and "node_materialized_path n = Some file"
    and "node_kind n = NodeKind.File" and "0 < len" and "offset < attr_size (node_attr n)"
  shows "plan_read rt pid path offset len = Inr (ReadPlan.Materialized
    \<lparr>materialized_path = file, materialized_offset = offset,
     materialized_length = clip_length (attr_size (node_attr n)) offset len\<rparr>)"
proof -
  from rt_inv_node [OF assms(1,2)] obtain t where t: "promise rt pid = Some t" "bt_get (tree_nodes t) path = Some n" "normal_path path"
    by blast
  then have "tree_get t path = Some n" by (simp add: tree_get_def normal_path_def)
  from plan_read_file [OF assms(1) t(1) this assms(4-6)] assms(3) show ?thesis by simp
qed

text \<open>The counts of a successful run.\<close>

lemma create_directories_counts:
  assumes "create_directories env policy report entries progress created w = (w', Inr (progress', created'))"
  shows "mc_entries_done (mpr_counts progress') = mc_entries_done (mpr_counts progress) + of_nat (length entries) \<and>
    mc_files_written (mpr_counts progress') = mc_files_written (mpr_counts progress) \<and>
    mc_bytes_written (mpr_counts progress') = mc_bytes_written (mpr_counts progress) \<and>
    mc_entries_total (mpr_counts progress') = mc_entries_total (mpr_counts progress) \<and>
    mc_files_total (mpr_counts progress') = mc_files_total (mpr_counts progress) \<and>
    mc_bytes_total (mpr_counts progress') = mc_bytes_total (mpr_counts progress)"
  using assms
proof (induction entries arbitrary: progress created w)
  case (Cons entry entries)
  from Cons.prems obtain progress1 created1 w1 where
    "create_directories env policy report entries progress1 created1 w1 = (w', Inr (progress', created'))"
    "mc_entries_done (mpr_counts progress1) = mc_entries_done (mpr_counts progress) + 1"
    "mc_files_written (mpr_counts progress1) = mc_files_written (mpr_counts progress)"
    "mc_bytes_written (mpr_counts progress1) = mc_bytes_written (mpr_counts progress)"
    "mc_entries_total (mpr_counts progress1) = mc_entries_total (mpr_counts progress)"
    "mc_files_total (mpr_counts progress1) = mc_files_total (mpr_counts progress)"
    "mc_bytes_total (mpr_counts progress1) = mc_bytes_total (mpr_counts progress)"
    unfolding create_directories_Cons by (auto simp: Let_def outcome_simps split: if_splits)
  with Cons.IH [of progress1 created1 w1] show ?case by simp
qed simp

text \<open>\<open>J\<close> is an invariant of the shared state that all threads keep; under it no chunk is longer
  than asked for.\<close>

definition keeps :: "(IpcState \<Rightarrow> bool) \<Rightarrow> 'w World \<Rightarrow> 'w World \<Rightarrow> bool" where
  "keeps J w w' \<longleftrightarrow> (J (w_ipc w) \<longrightarrow> J (w_ipc w'))"

interpretation keep: world_preorder "keeps J" for J
  by unfold_locales (auto simp: keeps_def)

definition chunks_fit :: "'w Env \<Rightarrow> string \<Rightarrow> (IpcState \<Rightarrow> bool) \<Rightarrow> bool" where
  "chunks_fit env promise_id J \<longleftrightarrow>
     (\<forall>entry offset len w w' r. J (w_ipc w) \<longrightarrow> read_materialize_chunk env promise_id entry offset len w = (w', r) \<longrightarrow>
        J (w_ipc w') \<and> (\<forall>bs. r = Inr bs \<longrightarrow> length bs \<le> unat len))"

lemma chunks_fit_obeys:
  "chunks_fit env promise_id J \<Longrightarrow> obeys (keeps J) (read_materialize_chunk env promise_id entry offset len)"
  by (rule keep.obeysI) (auto simp: chunks_fit_def keeps_def)

lemma write_chunks_size:
  assumes "chunks_fit env promise_id J" and report: "\<And>n. obeys (keeps J) (report n)"
    and "J (w_ipc w)" and "write_chunks env promise_id entry f target report offset w = (w', Inr n)"
    and "offset \<le> me_size entry"
  shows "n = me_size entry"
  using assms(3-5)
proof (induction "unat (me_size entry) - unat offset" arbitrary: offset w rule: less_induct)
  case less
  let ?len = "ucast (min (me_size entry - offset) (u64_of_u32 MAX_PROVIDER_READ_LEN)) :: u32"
  show ?case
  proof (cases "offset < me_size entry")
    case False
    with less.prems show ?thesis by (auto simp: write_chunks_round)
  next
    case True
    from less.prems(2) True obtain bs w1 w2 w3 offset' where
      read: "read_materialize_chunk env promise_id entry offset ?len w = (w1, Inr bs)"
      and ne: "bs \<noteq> []"
      and wrote: "on_os (os_file_write_all (env_os env) f bs) w1 = (w2, Inr ())"
      and next': "Option.bind (u64_try_from (length bs)) (checked_add offset) = Some offset'"
      and reported: "report offset' w2 = (w3, Inr ())"
      and rest: "write_chunks env promise_id entry f target report offset' w3 = (w', Inr n)"
      by (subst (asm) write_chunks_round) (auto simp: outcome_simps split: if_splits option.splits)
    from assms(1) read less.prems(1) have 1: "J (w_ipc w1)" "length bs \<le> unat ?len" unfolding chunks_fit_def by blast+
    from keep.obeysD [OF keep.obeys_on_os wrote] 1(1) have "J (w_ipc w2)" unfolding keeps_def by blast
    with keep.obeysD [OF report reported] have 3: "J (w_ipc w3)" by (simp add: keeps_def)
    have off: "unat offset' = unat offset + length bs" by (rule chunk_offset_increases [OF next' ne])
    have "unat ?len \<le> unat (me_size entry - offset)"
      by (subst min.commute) (simp add: unat_ucast_min)
    with 1(2) off less.prems(3) have le: "offset' \<le> me_size entry" by (simp add: word_le_nat_alt unat_sub)
    from less.hyps [OF chunk_measure [OF next' ne True] 3 rest le] show ?thesis .
  qed
qed

lemma write_file_size:
  assumes "chunks_fit env promise_id J" and "\<And>n. obeys (keeps J) (report n)" and "J (w_ipc w)"
    and "write_materialized_file env promise_id entry policy report w = (w', Inr outcome)"
  shows "mfo_bytes_written outcome = me_size entry"
proof -
  from assms(4) obtain w1 t w2 n where
    opened: "open_materialized_file (env_os env) entry policy w = (w1, Inr t)"
    and wrote: "write_chunks env promise_id entry (mft_file t) (mft_write_target t) report 0 w1 = (w2, Inr n)"
    and n: "mfo_bytes_written outcome = n"
    by (auto simp: write_materialized_file_def outcome_simps)
  from keep.obeysD [OF keep.obeys_open_file opened] assms(3) have "J (w_ipc w1)" unfolding keeps_def by blast
  from write_chunks_size [OF assms(1,2) this wrote] n show ?thesis by simp
qed

lemma write_files_counts:
  assumes "chunks_fit env promise_id J" and report: "\<And>p. obeys (keeps J) (report p)" and "J (w_ipc w)"
    and "write_files env promise_id policy report entries progress created w = (w', Inr (progress', created'))"
  shows "mc_entries_done (mpr_counts progress') = mc_entries_done (mpr_counts progress) + of_nat (length entries) \<and>
    mc_files_written (mpr_counts progress') = mc_files_written (mpr_counts progress) + of_nat (length entries) \<and>
    mc_bytes_written (mpr_counts progress') = mc_bytes_written (mpr_counts progress) + sum_list (map me_size entries) \<and>
    mc_entries_total (mpr_counts progress') = mc_entries_total (mpr_counts progress) \<and>
    mc_files_total (mpr_counts progress') = mc_files_total (mpr_counts progress) \<and>
    mc_bytes_total (mpr_counts progress') = mc_bytes_total (mpr_counts progress)"
  using assms(3,4)
proof (induction entries arbitrary: progress created w)
  case (Cons entry entries)
  let ?at = "\<lambda>n. update_counts (\<lambda>c. c\<lparr>mc_bytes_written := mc_bytes_written (mpr_counts progress) + n\<rparr>) progress"
  let ?progress1 = "\<lambda>outcome. update_counts (\<lambda>c. c\<lparr>mc_files_written := mc_files_written c + 1,
      mc_entries_done := mc_entries_done c + 1\<rparr>) (?at (mfo_bytes_written outcome))"
  from Cons.prems(2) obtain w1 w2 outcome where
    wrote: "write_materialized_file env promise_id entry policy (\<lambda>n. report (?at n)) w = (w1, Inr outcome)"
    and reported: "report (?progress1 outcome) w1 = (w2, Inr ())"
    and rest: "write_files env promise_id policy report entries (?progress1 outcome)
      (created @ [mfo_target outcome]) w2 = (w', Inr (progress', created'))"
    unfolding write_files_Cons by (auto simp: Let_def outcome_simps)
  have sz: "mfo_bytes_written outcome = me_size entry" by (rule write_file_size [OF assms(1) report Cons.prems(1) wrote])
  from keep.obeysD [OF keep.obeys_write_file [OF chunks_fit_obeys [OF assms(1)] report] wrote]
    keep.obeysD [OF report reported] Cons.prems(1) have "J (w_ipc w2)" by (simp add: keeps_def)
  from Cons.IH [OF this rest] sz show ?case by simp
qed simp

lemma entries_split: "length es = length (directory_entries es) + length (file_entries es)"
proof (induction es)
  case (Cons e es)
  then show ?case by (cases "me_kind e") (simp_all add: directory_entries_def file_entries_def)
qed (simp add: directory_entries_def file_entries_def)

theorem materialize_plan_counts:
  assumes "chunks_fit env (mpl_promise_id plan) J" and report: "\<And>p. obeys (keeps J) (report p)" and "J (w_ipc w)"
    and "materialize_plan env plan report w = (w', Inr progress)"
  shows "mc_entries_done (mpr_counts progress) = of_nat (length (mpl_entries plan)) \<and>
    mc_files_written (mpr_counts progress) = mc_files_total (mpr_counts progress) \<and>
    mc_bytes_written (mpr_counts progress) = mc_bytes_total (mpr_counts progress) \<and>
    mc_entries_total (mpr_counts progress) = of_nat (length (mpl_entries plan)) \<and>
    mc_bytes_total (mpr_counts progress) = sum_list (map me_size (file_entries (mpl_entries plan)))"
proof -
  let ?p0 = "progress_new (mpl_target_path plan) (mpl_entries plan)"
  obtain w1 w2 w3 progress1 created1 created where
    r: "report ?p0 w = (w1, Inr ())"
    and d: "create_directories env (mpl_conflict_policy plan) report (directory_entries (mpl_entries plan)) ?p0 [] w1
       = (w2, Inr (progress1, created1))"
    and f: "write_files env (mpl_promise_id plan) (mpl_conflict_policy plan) report (file_entries (mpl_entries plan))
       progress1 created1 w2 = (w3, Inr (progress, created))"
    by (rule materialize_plan_Inr [OF assms(4)]) blast
  from keep.obeysD [OF report r] keep.obeysD [OF keep.obeys_create_directories [OF report] d] assms(3)
  have "J (w_ipc w2)" by (simp add: keeps_def)
  note files = write_files_counts [OF assms(1) report this f]
  have "length (mpl_entries plan) = length (directory_entries (mpl_entries plan)) + length (file_entries (mpl_entries plan))"
    by (rule entries_split)
  then have "(of_nat (length (mpl_entries plan)) :: u64) =
      of_nat (length (directory_entries (mpl_entries plan))) + of_nat (length (file_entries (mpl_entries plan)))"
    by (simp only: of_nat_add)
  with files create_directories_counts [OF d] show ?thesis by (simp add: progress_new_def)
qed

text \<open>Interference by the other threads keeps to the steps of the system: then no chunk is longer
  than what was asked for.\<close>

theorem chunks_fit_rely:
  assumes "rely_invariant G me" and "env_evolves G me env" and reach: "\<And>s. G s \<Longrightarrow> \<exists>k. sys_reachable k s"
  shows "chunks_fit env promise_id (\<lambda>st. \<exists>s. G s \<and> sys_ipc s = st)"
  unfolding chunks_fit_def
proof (intro allI impI, elim exE conjE)
  fix entry offset len w w' r s
  assume read: "read_materialize_chunk env promise_id entry offset len w = (w', r)" and G: "G s" "sys_ipc s = w_ipc w"
  from reach [OF G(1)] obtain k where k: "sys_reachable k s" by blast
  have "evolves G me w w'"
    using rely_invariant.thread_chunk [OF assms(1,2)] read unfolding obeys_def by (metis fst_conv)
  with G have "\<exists>s. G s \<and> sys_ipc s = w_ipc w'" unfolding evolves_def by blast
  moreover have "length bs \<le> unat len" if r: "r = Inr bs" for bs
  proof -
    have provider: "length bs \<le> unat (plan_length plan)" if p: "read_materialize_provider_chunk env plan w = (w', Inr bs)" for plan
    proof -
      obtain st rid where t: "next_provider_read_request_id (w_ipc w) = (st, rid)" by (metis surj_pair)
      from p t obtain response where route: "route_provider_read env (read_request_of_plan rid plan) (w\<lparr>w_ipc := st\<rparr>) = (w', Inr response)"
        and ok: "rs_status response = ProviderReadStatus.Ok" "rs_bytes response = bs"
        by (auto simp: read_materialize_provider_chunk_def outcome_simps split: if_splits)
      have "validate_provider_read_response_for_request (read_request_of_plan rid plan) response = Inr ()"
        by (rule routed_read_validated [OF k G(2) assms(1) G(1) assms(2) _ route]) (simp add: t read_request_of_plan_def)
      with ok show ?thesis
        by (auto simp: validate_provider_read_response_for_request_def read_request_of_plan_def outcome_simps)
    qed
    have wf: "cache_wf (rt_read_cache (ipc_runtime (w_ipc w)))" using sys_reachable_cache_wf [OF k] G(2) by simp
    show ?thesis
    proof (cases "plan_provider_read (ipc_runtime (w_ipc w)) promise_id (me_relative_path entry) offset len")
      case (Inr plan)
      with read r have "read_materialize_provider_chunk env plan w = (w', Inr bs)"
        by (simp add: read_materialize_chunk_def)
      from provider [OF this] plan_provider_read_length [OF Inr] show ?thesis by simp
    next
      case (Inl e)
      with read r obtain plan where plan: "plan_read (ipc_runtime (w_ipc w)) promise_id (me_relative_path entry) offset len = Inr plan"
        by (cases "plan_read (ipc_runtime (w_ipc w)) promise_id (me_relative_path entry) offset len")
          (auto simp: read_materialize_chunk_def split: if_splits)
      note len = plan_read_lengths [OF plan wf]
      show ?thesis
      proof (cases plan)
        case (Request q)
        with read r Inl plan have "read_materialize_provider_chunk env q w = (w', Inr bs)"
          by (simp add: read_materialize_chunk_def split: if_splits)
        from provider [OF this] len(1) [OF Request] show ?thesis by simp
      qed (use read r Inl plan len in
        \<open>auto simp: read_materialize_chunk_def read_local_materialized_chunk_def outcome_simps split: if_splits\<close>)
    qed
  qed
  ultimately show "(\<exists>s. G s \<and> sys_ipc s = w_ipc w') \<and> (\<forall>bs. r = Inr bs \<longrightarrow> length bs \<le> unat len)" by blast
qed

end
