(* ===== verification/Copied_Bytes.thy ===== *)
theory Copied_Bytes
  imports Materialize_Copies
begin

text \<open>
  The bytes of a materialised file: if the providers answer with the bytes of the file, the
  cache and earlier local copies hold them, and the system calls write what they are given,
  then the copy loop of \<open>write_materialized_file\<close> writes exactly the file's content.
\<close>

section \<open>Assumptions\<close>

text \<open>What the copy relies on of the system calls: writing to the new file appends to it, and
  neither opening another file nor the traffic on the sockets changes it.\<close>

definition private_file :: "'w Os \<Rightarrow> ('w \<Rightarrow> fd \<Rightarrow> bytes) \<Rightarrow> fd \<Rightarrow> bool" where
  "private_file os view f \<longleftrightarrow>
     (\<forall>o' bs. \<forall>o1. os_file_write_all os f bs o' = (o1, Inr ()) \<longrightarrow> view o1 f = view o' f @ bs) \<and>
     (\<forall>o' p. view (fst (os_open os p o')) f = view o' f) \<and>
     (\<forall>o' c bs. view (fst (os_write_all os c bs o')) f = view o' f) \<and>
     (\<forall>o' c. view (fst (os_flush os c o')) f = view o' f)"

text \<open>And of the other threads while it waits: they keep the runtime's invariant and record only
  bytes of the files, and they do not touch the new file.\<close>

definition runtime_honest :: "(CacheKey \<Rightarrow> nat \<Rightarrow> u8 option) \<Rightarrow> 'w World \<Rightarrow> bool" where
  "runtime_honest content w \<longleftrightarrow>
     rt_inv (ipc_runtime (w_ipc w)) \<and> cache_agrees (rt_read_cache (ipc_runtime (w_ipc w))) content"

definition waits_honest :: "'w Env \<Rightarrow> ('w \<Rightarrow> fd \<Rightarrow> bytes) \<Rightarrow> fd \<Rightarrow> (CacheKey \<Rightarrow> nat \<Rightarrow> u8 option) \<Rightarrow> bool" where
  "waits_honest env view f content \<longleftrightarrow>
     answers_honest env content \<and>
     (\<forall>ch w. (runtime_honest content w \<longrightarrow> runtime_honest content (env_wait env ch w)) \<and>
        view (w_os (env_wait env ch w)) f = view (w_os w) f)"

section \<open>One chunk\<close>

lemma write_frame_view:
  assumes "private_file os view f" and "write_frame (stream_writer os c) codec m o' = (o1, r)"
  shows "view o1 f = view o' f"
proof -
  have 1: "view o2 f = view o3 f" if "os_write_all os c bs o3 = (o2, x)" for bs o2 o3 x
    using assms(1) that unfolding private_file_def by (metis fst_conv)
  have 2: "view o2 f = view o3 f" if "os_flush os c o3 = (o2, x)" for o2 o3 x
    using assms(1) that unfolding private_file_def by (metis fst_conv)
  from assms(2) show ?thesis
    by (auto simp: write_frame_def stream_writer_def io_bind_def io_lift_def io_fail_def dest!: 1 2
        split: sum.splits prod.splits if_splits)
qed

lemma provider_chunk_content:
  assumes "private_file (env_os env) view f" and "waits_honest env view f content" and "runtime_honest content w"
    and "read_materialize_provider_chunk env plan w = (w', Inr bs)"
  shows "runtime_honest content w'" and "view (w_os w') f = view (w_os w) f"
    and "holds_at (content (CacheKey (plan_promise_id plan) (plan_relative_path plan))) (unat (plan_offset plan)) bs"
proof -
  obtain st rid where t: "next_provider_read_request_id (w_ipc w) = (st, rid)" by (metis surj_pair)
  let ?q = "read_request_of_plan rid plan"
  from assms(4) t obtain response where route: "route_provider_read env ?q (w\<lparr>w_ipc := st\<rparr>) = (w', Inr response)"
    and ok: "rs_status response = ProviderReadStatus.Ok" "rs_bytes response = bs"
    by (auto simp: read_materialize_provider_chunk_def outcome_simps split: if_splits)
  have "answers_honest env content" using assms(2) by (simp add: waits_honest_def)
  from routed_read_honest [OF this route ok(1)] ok(2)
  show "holds_at (content (CacheKey (plan_promise_id plan) (plan_relative_path plan))) (unat (plan_offset plan)) bs"
    by (simp add: read_request_of_plan_def)
  from route obtain body st2 ch o1 w2 and rt :: ProviderRoute where en: "enter_pending_read ?q st = (st2, Inr ch)"
    and wr: "write_frame (stream_writer (env_os env) (route_writer rt)) (env_responses env)
       (Response.ProviderReadRequest body) (w_os w) = (o1, Inr ())"
    and w': "w' = env_wait env ch (w\<lparr>w_ipc := st2, w_os := o1\<rparr>)"
    by (rule route_provider_read_Inr) auto
  have "ipc_runtime st2 = ipc_runtime (w_ipc w)"
    using en t by (auto simp: enter_pending_read_eq next_provider_read_request_id_def)
  then have "runtime_honest content (w\<lparr>w_ipc := st2, w_os := o1\<rparr>)" using assms(3) by (simp add: runtime_honest_def)
  with assms(2) show "runtime_honest content w'" unfolding w' waits_honest_def by blast
  show "view (w_os w') f = view (w_os w) f"
    using assms(2) write_frame_view [OF assms(1) wr] unfolding w' waits_honest_def by simp
qed

lemma tree_get_normal:
  assumes "rt_inv rt" and "promise rt pid = Some t" and "tree_get t path = Some n" and "normal_path path"
  shows "node_relative_path n = path" and "tree_promise_id t = pid"
proof -
  from assms(3,4) have "bt_get (tree_nodes t) path = Some n" by (simp add: tree_get_def normal_path_def)
  with assms(2) have "node_at rt pid path = Some n" by (simp add: node_at_def)
  from rt_inv_node [OF assms(1) this] show "node_relative_path n = path" by blast
  from rt_invD(4) [OF assms(1,2)] show "tree_promise_id t = pid" by (simp add: promise_ok_def)
qed

lemma plan_provider_read_Inr:
  assumes "plan_provider_read rt pid path offset len = Inr plan" and "rt_inv rt" and "normal_path path"
  shows "plan_promise_id plan = pid" and "plan_relative_path plan = path" and "plan_offset plan = offset"
  using assms tree_get_normal [OF assms(2) _ _ assms(3)]
  by (auto simp: plan_provider_read_def outcome_simps Let_def)

lemma plan_read_parts:
  assumes "plan_read rt pid path offset len = Inr plan" and "rt_inv rt" and "normal_path path"
  shows "\<And>q. plan = ReadPlan.Request q \<Longrightarrow> plan_promise_id q = pid \<and> plan_relative_path q = path \<and> plan_offset q = offset"
    and "\<And>q. plan = ReadPlan.Materialized q \<Longrightarrow> materialized_offset q = offset"
proof -
  show "plan_promise_id q = pid \<and> plan_relative_path q = path \<and> plan_offset q = offset" if "plan = ReadPlan.Request q" for q
  proof -
    from assms(1) that obtain t n l where t: "promise rt pid = Some t" "tree_get t path = Some n"
      and q: "plan_provider_read rt pid (node_relative_path n) offset l = Inr q"
      by (auto simp: plan_read_def outcome_simps Let_def split: if_splits option.splits)
    from plan_provider_read_Inr [OF q assms(2)] tree_get_normal [OF assms(2) t assms(3)] assms(3) show ?thesis by simp
  qed
  show "materialized_offset q = offset" if "plan = ReadPlan.Materialized q" for q
    using assms(1) that by (auto simp: plan_read_def outcome_simps Let_def split: if_splits option.splits)
qed

lemma chunk_content:
  assumes "private_file (env_os env) view f" and "waits_honest env view f content" and "runtime_honest content w"
    and copies: "\<And>file o'. local_copy_honest (env_os env) content (CacheKey pid (me_relative_path entry)) file o'"
    and "normal_path (me_relative_path entry)"
    and "read_materialize_chunk env pid entry offset len w = (w', Inr bs)"
  shows "runtime_honest content w' \<and> view (w_os w') f = view (w_os w) f \<and>
    holds_at (content (CacheKey pid (me_relative_path entry))) (unat offset) bs"
proof -
  let ?rt = "ipc_runtime (w_ipc w)"
  have inv: "rt_inv ?rt" and agrees: "cache_agrees (rt_read_cache ?rt) content"
    using assms(3) by (simp_all add: runtime_honest_def)
  note provider = provider_chunk_content [OF assms(1-3)]
  show ?thesis
  proof (cases "plan_provider_read ?rt pid (me_relative_path entry) offset len")
    case (Inr plan)
    with assms(6) have "read_materialize_provider_chunk env plan w = (w', Inr bs)" by (simp add: read_materialize_chunk_def)
    from provider [OF this] plan_provider_read_Inr [OF Inr inv assms(5)] show ?thesis by simp
  next
    case (Inl e)
    with assms(6) obtain plan where plan: "plan_read ?rt pid (me_relative_path entry) offset len = Inr plan"
      by (cases "plan_read ?rt pid (me_relative_path entry) offset len")
        (auto simp: read_materialize_chunk_def split: if_splits)
    note parts = plan_read_parts [OF plan inv assms(5)]
    show ?thesis
    proof (cases plan)
      case (Request q)
      with assms(6) Inl plan have "read_materialize_provider_chunk env q w = (w', Inr bs)"
        by (simp add: read_materialize_chunk_def split: if_splits)
      from provider [OF this] parts(1) [OF Request] show ?thesis by simp
    next
      case (Cached q)
      with assms(6) Inl plan have "w' = w" "bs = cached_bytes q"
        by (simp_all add: read_materialize_chunk_def split: if_splits)
      moreover from cached_plan_agrees [OF inv agrees plan [unfolded Cached]] tree_get_normal [OF inv _ _ assms(5)]
      have "holds_at (content (CacheKey pid (me_relative_path entry))) (unat offset) (cached_bytes q)" by auto
      ultimately show ?thesis using assms(3) by simp
    next
      case (Materialized q)
      with assms(6) Inl plan have "read_local_materialized_chunk (env_os env) (materialized_path q)
          (materialized_offset q) (materialized_length q) w = (w', Inr bs)"
        by (simp add: read_materialize_chunk_def split: if_splits)
      then obtain o1 g where g: "os_open (env_os env) (materialized_path q) (w_os w) = (o1, Inr g)"
        "os_file_read_at (env_os env) o1 g (materialized_offset q) (unat (materialized_length q)) = Inr bs" "w' = w\<lparr>w_os := o1\<rparr>"
        by (auto simp: read_local_materialized_chunk_def on_os_def outcome_simps split: if_splits prod.splits)
      have "view o1 f = view (w_os w) f" using assms(1) g(1) unfolding private_file_def by (metis fst_conv)
      moreover have "holds_at (content (CacheKey pid (me_relative_path entry))) (unat offset) bs"
        using copies [of "materialized_path q" "w_os w"] g(1,2) parts(2) [OF Materialized] unfolding local_copy_honest_def by metis
      ultimately show ?thesis using assms(3) g(3) by (simp add: runtime_honest_def)
    next
      case Eof
      with assms(6) Inl plan show ?thesis by (simp add: read_materialize_chunk_def split: if_splits)
    qed
  qed
qed

section \<open>The loop\<close>

text \<open>The progress callback must leave the runtime and the new file alone.\<close>

definition quiet_report :: "(u64 \<Rightarrow> 'w World \<Rightarrow> 'w World \<times> unit result) \<Rightarrow> ('w \<Rightarrow> fd \<Rightarrow> bytes) \<Rightarrow> fd \<Rightarrow> bool" where
  "quiet_report report view f \<longleftrightarrow>
     (\<forall>offset w w'. report offset w = (w', Inr ()) \<longrightarrow>
        ipc_runtime (w_ipc w') = ipc_runtime (w_ipc w) \<and> view (w_os w') f = view (w_os w) f)"

theorem copied_file:
  assumes "private_file (env_os env) view f" and "waits_honest env view f content" and "quiet_report report view f"
    and "\<And>file o'. local_copy_honest (env_os env) content (CacheKey pid (me_relative_path entry)) file o'"
    and "normal_path (me_relative_path entry)"
    and "\<And>i. content (CacheKey pid (me_relative_path entry)) i \<noteq> None \<Longrightarrow> i < unat (me_size entry)"
    and "runtime_honest content w" and "write_chunks env pid entry f target report 0 w = (w', Inr n)"
  shows "n = me_size entry \<and> (\<exists>bs. view (w_os w') f = view (w_os w) f @ bs \<and> length bs = unat (me_size entry) \<and>
    holds_at (content (CacheKey pid (me_relative_path entry))) 0 bs)"
proof -
  have appended: "runtime_honest content w1 \<and> view (w_os w1) f = view (w_os w0) f @ bs"
    if "runtime_honest content w0" "on_os (os_file_write_all (env_os env) f bs) w0 = (w1, Inr ())" for w0 w1 bs
    using assms(1) that by (auto simp: on_os_def private_file_def runtime_honest_def outcome_simps split: prod.splits)
  have "copies_ok env pid entry f report view (content (CacheKey pid (me_relative_path entry))) (runtime_honest content)"
    unfolding copies_ok_def
  proof (intro conjI allI impI)
    fix w w' offset len bs
    assume "runtime_honest content w" "read_materialize_chunk env pid entry offset len w = (w', Inr bs)"
    from chunk_content [OF assms(1,2) this(1) assms(4,5) this(2)]
    show "runtime_honest content w'" "view (w_os w') f = view (w_os w) f"
      "holds_at (content (CacheKey pid (me_relative_path entry))) (unat offset) bs" by blast+
  next
    fix w w' bs
    assume "runtime_honest content w" "on_os (os_file_write_all (env_os env) f bs) w = (w', Inr ())"
    from appended [OF this] show "runtime_honest content w'" "view (w_os w') f = view (w_os w) f @ bs" by blast+
  next
    fix w w' offset
    assume "runtime_honest content w" "report offset w = (w', Inr ())"
    with assms(3) show "runtime_honest content w'" "view (w_os w') f = view (w_os w) f"
      unfolding quiet_report_def runtime_honest_def by metis+
  next
    fix i assume "content (CacheKey pid (me_relative_path entry)) i \<noteq> None"
    then show "i < unat (me_size entry)" by (rule assms(6))
  qed
  from write_chunks_content [OF this assms(7,8)] show ?thesis by auto
qed
end
