(* ===== verification/Ipc_Client.thy ===== *)
theory Ipc_Client
  imports Ipc_Server
begin

text \<open>
  The client side of \<open>crates/fuse-promise-ipc/src/lib.rs\<close>: the functions that the command
  line tool and the C library call. Each connects, says hello, sends one request and reads the
  reply; a materialise request reads progress messages until the final reply. They run in
  another process, so their world is only the operating system.
\<close>

record ProviderConnection =
  pc_stream :: conn
  pc_provider_id :: u64
  pc_provider_owner_token :: u128

record ProviderRegistration =
  reg_provider_id :: u64
  reg_provider_owner_token :: u128

text \<open>The parameters of a client: system calls and codecs.\<close>

record 'w ClientEnv =
  ce_os :: "'w Os"
  ce_requests :: "Request Codec"
  ce_responses :: "Response Codec"

definition send_request :: "'w ClientEnv \<Rightarrow> conn \<Rightarrow> Request \<Rightarrow> ('w, unit) io" where
  "send_request env c request = write_frame (stream_writer (ce_os env) c) (ce_requests env) request"

definition receive_response :: "'w ClientEnv \<Rightarrow> conn \<Rightarrow> ('w, Response) io" where
  "receive_response env c = read_response (stream_reader (ce_os env) c) (ce_responses env)"

definition connect_and_hello :: "'w ClientEnv \<Rightarrow> path \<Rightarrow> ('w, conn) io" where
  "connect_and_hello env socket_path =
     io_bind (\<lambda>w. (w, validate_control_socket_for_connect (ce_os env) w socket_path)) (\<lambda>_.
     io_bind (os_connect (ce_os env) socket_path) (\<lambda>c.
     io_bind (send_request env c (Request.Hello IPC_PROTOCOL_VERSION API_VERSION)) (\<lambda>_.
     io_bind (receive_response env c) (\<lambda>response.
     io_bind (io_lift (expect_hello response)) (\<lambda>_.
     io_return c)))))"

definition query_status :: "'w ClientEnv \<Rightarrow> path \<Rightarrow> ('w, string) io" where
  "query_status env socket_path =
     io_bind (connect_and_hello env socket_path) (\<lambda>c.
     io_bind (send_request env c Request.Status) (\<lambda>_.
     io_bind (receive_response env c) (\<lambda>response.
     case response of
       Response.Status status \<Rightarrow> io_return (status_body_encode_text status)
     | Response.Error error \<Rightarrow> io_fail (error_to_io error)
     | _ \<Rightarrow> io_fail (invalid_data ''daemon returned an unexpected status response''))))"

definition query_inspect :: "'w ClientEnv \<Rightarrow> path \<Rightarrow> ('w, string) io" where
  "query_inspect env socket_path =
     io_bind (connect_and_hello env socket_path) (\<lambda>c.
     io_bind (send_request env c Request.Inspect) (\<lambda>_.
     io_bind (receive_response env c) (\<lambda>response.
     case response of
       Response.Inspect inspect \<Rightarrow> io_return (inspect_encode_text inspect)
     | Response.Error error \<Rightarrow> io_fail (error_to_io error)
     | _ \<Rightarrow> io_fail (invalid_data ''daemon returned an unexpected inspect response''))))"

definition connect_provider :: "'w ClientEnv \<Rightarrow> path \<Rightarrow> ('w, ProviderConnection) io" where
  "connect_provider env socket_path =
     io_bind (connect_and_hello env socket_path) (\<lambda>c.
     io_bind (send_request env c Request.ProviderRegister) (\<lambda>_.
     io_bind (receive_response env c) (\<lambda>response.
     case response of
       Response.ProviderRegistered provider_id provider_owner_token \<Rightarrow>
         io_return \<lparr>pc_stream = c, pc_provider_id = provider_id, pc_provider_owner_token = provider_owner_token\<rparr>
     | Response.Error error \<Rightarrow> io_fail (error_to_io error)
     | _ \<Rightarrow> io_fail (invalid_data ''daemon returned an unexpected provider register response''))))"

definition client_register_provider :: "'w ClientEnv \<Rightarrow> path \<Rightarrow> ('w, ProviderRegistration) io" where
  "client_register_provider env socket_path =
     io_bind (connect_provider env socket_path) (\<lambda>connection.
     io_return \<lparr>reg_provider_id = pc_provider_id connection,
                reg_provider_owner_token = pc_provider_owner_token connection\<rparr>)"

definition await_unregistered :: "'w ClientEnv \<Rightarrow> conn \<Rightarrow> u64 \<Rightarrow> u128 \<Rightarrow> ('w, unit) io" where
  "await_unregistered env c provider_id provider_owner_token =
     io_bind (send_request env c (Request.ProviderUnregister provider_id provider_owner_token)) (\<lambda>_.
     io_bind (receive_response env c) (\<lambda>response.
     case response of
       Response.ProviderUnregistered \<Rightarrow> io_return ()
     | Response.Error error \<Rightarrow> io_fail (error_to_io error)
     | _ \<Rightarrow> io_fail (invalid_data ''daemon returned an unexpected provider unregister response'')))"

definition client_unregister_provider :: "'w ClientEnv \<Rightarrow> path \<Rightarrow> u64 \<Rightarrow> u128 \<Rightarrow> ('w, unit) io" where
  "client_unregister_provider env socket_path provider_id provider_owner_token =
     io_bind (connect_and_hello env socket_path) (\<lambda>c.
     await_unregistered env c provider_id provider_owner_token)"

definition connection_unregister :: "'w ClientEnv \<Rightarrow> ProviderConnection \<Rightarrow> ('w, unit) io" where
  "connection_unregister env connection =
     await_unregistered env (pc_stream connection) (pc_provider_id connection)
       (pc_provider_owner_token connection)"

definition connection_read_request :: "'w ClientEnv \<Rightarrow> ProviderConnection \<Rightarrow> ('w, ProviderReadRequest option) io" where
  "connection_read_request env connection =
     read_provider_read_request (stream_reader (ce_os env) (pc_stream connection)) (ce_responses env)"

definition connection_write_response ::
    "'w ClientEnv \<Rightarrow> ProviderConnection \<Rightarrow> ProviderReadResponse \<Rightarrow> ('w, unit) io" where
  "connection_write_response env connection response =
     write_provider_read_response (stream_writer (ce_os env) (pc_stream connection)) (ce_requests env) response"

definition client_commit_promise ::
    "'w ClientEnv \<Rightarrow> path \<Rightarrow> PromiseCommitRequest \<Rightarrow> ('w, PromiseCommitResponse) io" where
  "client_commit_promise env socket_path request =
     io_bind (connect_and_hello env socket_path) (\<lambda>c.
     io_bind (send_request env c (Request.PromiseCommit (commit_request_into_body request))) (\<lambda>_.
     io_bind (receive_response env c) (\<lambda>response.
     case response of
       Response.PromiseCommitted committed \<Rightarrow>
         io_return \<lparr>commit_promise_id = committed_promise_id committed,
                    commit_visible_path = committed_visible_path committed\<rparr>
     | Response.Error error \<Rightarrow> io_fail (error_to_io error)
     | _ \<Rightarrow> io_fail (invalid_data ''daemon returned an unexpected promise commit response''))))"

text \<open>The reply loop of a materialise request; it ends with the daemon's final reply.\<close>

partial_function (option) await_materialized ::
    "'w ClientEnv \<Rightarrow> conn \<Rightarrow> (MaterializeProgressReport \<Rightarrow> ('w, unit) io) \<Rightarrow> 'w \<Rightarrow>
     ('w \<times> MaterializeResponse io_result) option" where
  "await_materialized env c on_progress w =
     (case receive_response env c w of
        (w1, Inl e) \<Rightarrow> Some (w1, Inl e)
      | (w1, Inr (Response.MaterializeProgress progress)) \<Rightarrow>
          (case on_progress (progress_report_from_body progress) w1 of
             (w2, Inl error) \<Rightarrow>
               (let w3 = fst (send_request env c Request.MaterializeCancel w2);
                    w4 = fst (receive_response env c w3) in Some (w4, Inl error))
           | (w2, Inr _) \<Rightarrow>
               (case send_request env c Request.MaterializeContinue w2 of
                  (w3, Inl e) \<Rightarrow> Some (w3, Inl e)
                | (w3, Inr _) \<Rightarrow> await_materialized env c on_progress w3))
      | (w1, Inr (Response.Materialized response)) \<Rightarrow> Some (w1, Inr (materialize_response_from_body response))
      | (w1, Inr (Response.MaterializeFailed error)) \<Rightarrow> Some (w1, Inl (materialize_failure_to_io error))
      | (w1, Inr (Response.Error error)) \<Rightarrow> Some (w1, Inl (error_to_io error))
      | (w1, Inr _) \<Rightarrow> Some (w1, Inl (invalid_data ''daemon returned an unexpected materialize response'')))"

definition materialize_file_with_progress ::
    "'w ClientEnv \<Rightarrow> path \<Rightarrow> MaterializeRequest \<Rightarrow> (MaterializeProgressReport \<Rightarrow> ('w, unit) io) \<Rightarrow> 'w \<Rightarrow>
     ('w \<times> MaterializeResponse io_result) option" where
  "materialize_file_with_progress env socket_path request on_progress w =
     (case io_bind (connect_and_hello env socket_path) (\<lambda>c.
           io_bind (io_lift (materialize_request_into_body request)) (\<lambda>body.
           io_bind (send_request env c (Request.Materialize body)) (\<lambda>_.
           io_return c))) w of
        (w1, Inl e) \<Rightarrow> Some (w1, Inl e)
      | (w1, Inr c) \<Rightarrow> await_materialized env c on_progress w1)"

definition materialize_file ::
    "'w ClientEnv \<Rightarrow> path \<Rightarrow> MaterializeRequest \<Rightarrow> 'w \<Rightarrow> ('w \<times> MaterializeResponse io_result) option" where
  "materialize_file env socket_path request =
     materialize_file_with_progress env socket_path request (\<lambda>_. io_return ())"

end
