(* ===== verification/Ffi.thy ===== *)
theory Ffi
  imports Ipc_Client
begin

text \<open>
  The C interface of \<open>crates/fuse-promise-ffi/src/lib.rs\<close>. A C pointer is an \<open>option\<close> with
  \<open>None\<close> for null; a C string is the byte string before its terminator; an out-parameter is a
  component of the result, with \<open>None\<close> where null was stored. A handle behind \<open>Arc\<close> carries
  the address that \<open>Arc::ptr_eq\<close> compares. The application's callbacks are parameters; a
  callback that unwinds is \<open>None\<close>.
\<close>

section \<open>Status codes\<close>

type_synonym fp_status = u32

definition FP_OK :: fp_status where "FP_OK = 0"
definition FP_ERR_INVALID_ARGUMENT :: fp_status where "FP_ERR_INVALID_ARGUMENT = 1"
definition FP_ERR_UNAVAILABLE :: fp_status where "FP_ERR_UNAVAILABLE = 2"
definition FP_ERR_PERMISSION :: fp_status where "FP_ERR_PERMISSION = 3"
definition FP_ERR_NOT_FOUND :: fp_status where "FP_ERR_NOT_FOUND = 4"
definition FP_ERR_ALREADY_EXISTS :: fp_status where "FP_ERR_ALREADY_EXISTS = 5"
definition FP_ERR_PROVIDER_GONE :: fp_status where "FP_ERR_PROVIDER_GONE = 6"
definition FP_ERR_IO :: fp_status where "FP_ERR_IO = 7"
definition FP_ERR_TIMEOUT :: fp_status where "FP_ERR_TIMEOUT = 8"
definition FP_ERR_CANCELLED :: fp_status where "FP_ERR_CANCELLED = 9"
definition FP_ERR_VERSION_MISMATCH :: fp_status where "FP_ERR_VERSION_MISMATCH = 10"

lemmas FP_defs = FP_OK_def FP_ERR_INVALID_ARGUMENT_def FP_ERR_UNAVAILABLE_def FP_ERR_PERMISSION_def
  FP_ERR_NOT_FOUND_def FP_ERR_ALREADY_EXISTS_def FP_ERR_PROVIDER_GONE_def FP_ERR_IO_def
  FP_ERR_TIMEOUT_def FP_ERR_CANCELLED_def FP_ERR_VERSION_MISMATCH_def

text \<open>An opaque \<open>void *\<close> of the application.\<close>

type_synonym user_data = "nat option"

type_synonym 'a ffi_result = "fp_status + 'a"

definition fp_status_string :: "fp_status \<Rightarrow> string" where
  "fp_status_string status =
     (if status = FP_OK then ''ok''
      else if status = FP_ERR_INVALID_ARGUMENT then ''invalid argument''
      else if status = FP_ERR_UNAVAILABLE then ''unavailable''
      else if status = FP_ERR_PERMISSION then ''permission denied''
      else if status = FP_ERR_NOT_FOUND then ''not found''
      else if status = FP_ERR_ALREADY_EXISTS then ''already exists''
      else if status = FP_ERR_PROVIDER_GONE then ''provider gone''
      else if status = FP_ERR_IO then ''io error''
      else if status = FP_ERR_TIMEOUT then ''timeout''
      else if status = FP_ERR_CANCELLED then ''cancelled''
      else if status = FP_ERR_VERSION_MISMATCH then ''version mismatch''
      else ''unknown status'')"

fun status_to_ffi :: "Status \<Rightarrow> fp_status" where
  "status_to_ffi Status.Ok = FP_OK"
| "status_to_ffi Status.InvalidArgument = FP_ERR_INVALID_ARGUMENT"
| "status_to_ffi Status.Unavailable = FP_ERR_UNAVAILABLE"
| "status_to_ffi Status.Permission = FP_ERR_PERMISSION"
| "status_to_ffi Status.NotFound = FP_ERR_NOT_FOUND"
| "status_to_ffi Status.AlreadyExists = FP_ERR_ALREADY_EXISTS"
| "status_to_ffi Status.ProviderGone = FP_ERR_PROVIDER_GONE"
| "status_to_ffi Status.Io = FP_ERR_IO"
| "status_to_ffi Status.Timeout = FP_ERR_TIMEOUT"
| "status_to_ffi Status.Cancelled = FP_ERR_CANCELLED"
| "status_to_ffi Status.VersionMismatch = FP_ERR_VERSION_MISMATCH"

definition provider_read_status_from_ffi :: "fp_status \<Rightarrow> ProviderReadStatus" where
  "provider_read_status_from_ffi status =
     (if status = FP_OK then ProviderReadStatus.Ok
      else if status = FP_ERR_INVALID_ARGUMENT \<or> status = FP_ERR_VERSION_MISMATCH then ProviderReadStatus.InvalidArgument
      else if status = FP_ERR_PERMISSION then ProviderReadStatus.Permission
      else if status = FP_ERR_NOT_FOUND \<or> status = FP_ERR_ALREADY_EXISTS then ProviderReadStatus.NotFound
      else if status = FP_ERR_PROVIDER_GONE \<or> status = FP_ERR_UNAVAILABLE then ProviderReadStatus.ProviderGone
      else if status = FP_ERR_TIMEOUT then ProviderReadStatus.Timeout
      else if status = FP_ERR_CANCELLED then ProviderReadStatus.Cancelled
      else ProviderReadStatus.Io)"

definition io_to_ffi :: "io_error \<Rightarrow> fp_status" where
  "io_to_ffi error =
     (case err_payload error of
        FfiStatusError status \<Rightarrow> status
      | _ \<Rightarrow>
          (case err_kind error of
             KInvalidInput \<Rightarrow> FP_ERR_VERSION_MISMATCH
           | KInvalidData \<Rightarrow> FP_ERR_VERSION_MISMATCH
           | KAlreadyExists \<Rightarrow> FP_ERR_ALREADY_EXISTS
           | KNotFound \<Rightarrow> FP_ERR_UNAVAILABLE
           | KConnectionRefused \<Rightarrow> FP_ERR_UNAVAILABLE
           | KAddrNotAvailable \<Rightarrow> FP_ERR_UNAVAILABLE
           | KBrokenPipe \<Rightarrow> FP_ERR_PROVIDER_GONE
           | KPermissionDenied \<Rightarrow> FP_ERR_PERMISSION
           | KTimedOut \<Rightarrow> FP_ERR_TIMEOUT
           | KInterrupted \<Rightarrow> FP_ERR_CANCELLED
           | _ \<Rightarrow> FP_ERR_IO))"

text \<open>\<open>ffi_guard\<close>: an action that unwinds is \<open>None\<close>.\<close>

definition ffi_guard :: "fp_status ffi_result option \<Rightarrow> fp_status" where
  "ffi_guard action =
     (case action of
        Some (Inr status) \<Rightarrow> status
      | Some (Inl status) \<Rightarrow> status
      | None \<Rightarrow> FP_ERR_IO)"

section \<open>Structure sizes\<close>

text \<open>Sizes and alignments on the 64-bit target.\<close>

definition size_of_u32 :: u64 where "size_of_u32 = 4"
definition size_of_u64 :: u64 where "size_of_u64 = 8"
definition size_of_ptr :: u64 where "size_of_ptr = 8"

definition align_up :: "u64 \<Rightarrow> u64 \<Rightarrow> u64" where
  "align_up v align = (v + align - 1) AND NOT (align - 1)"

text \<open>The end of a field of the given size, whose alignment is its size.\<close>

definition struct_field_end :: "u64 \<Rightarrow> u64 \<Rightarrow> u64" where
  "struct_field_end previous_end field_size = align_up previous_end field_size + field_size"

definition required_context_options_size :: u64 where
  "required_context_options_size = struct_field_end (2 * size_of_u32) size_of_ptr"

definition required_provider_ops_size :: u64 where
  "required_provider_ops_size = struct_field_end size_of_u32 size_of_ptr"

definition required_node_attr_size :: u64 where
  "required_node_attr_size = struct_field_end (struct_field_end (2 * size_of_u32) size_of_u64) size_of_u64"

definition required_materialize_options_size :: u64 where
  "required_materialize_options_size = 2 * size_of_u32"

definition materialize_progress_field_end :: u64 where
  "materialize_progress_field_end = struct_field_end required_materialize_options_size size_of_ptr"

definition materialize_progress_user_data_field_end :: u64 where
  "materialize_progress_user_data_field_end = struct_field_end materialize_progress_field_end size_of_ptr"

section \<open>Arguments\<close>

definition cstr_to_str :: "string option \<Rightarrow> string ffi_result" where
  "cstr_to_str v =
     (case v of
        None \<Rightarrow> Inl FP_ERR_INVALID_ARGUMENT
      | Some s \<Rightarrow> if utf8_valid s then Inr s else Inl FP_ERR_INVALID_ARGUMENT)"

record fp_node_attr_t =
  fna_struct_size :: u32
  fna_mode :: u32
  fna_size :: u64
  fna_mtime_nsec :: i64

definition ffi_node_attr :: "fp_node_attr_t option \<Rightarrow> NodeAttr ffi_result" where
  "ffi_node_attr attr =
     (case attr of
        None \<Rightarrow> Inl FP_ERR_INVALID_ARGUMENT
      | Some a \<Rightarrow>
          if u64_of_u32 (fna_struct_size a) < required_node_attr_size then Inl FP_ERR_INVALID_ARGUMENT
          else Inr (node_attr_new (fna_mode a) (fna_size a) (fna_mtime_nsec a)))"

record fp_context_options_t =
  fco_struct_size :: u32
  fco_api_version :: u32
  fco_runtime_dir :: "string option"

record RuntimePaths =
  rp_mount_path :: path
  rp_socket_path :: path

definition default_runtime_paths :: "'w Os \<Rightarrow> 'w \<Rightarrow> RuntimePaths ffi_result" where
  "default_runtime_paths os w =
     res_bind (map_err status_to_ffi (default_mount_path os w)) (\<lambda>mount_path.
     res_bind (map_err status_to_ffi (default_control_socket_path os w)) (\<lambda>socket_path.
     Inr \<lparr>rp_mount_path = mount_path, rp_socket_path = socket_path\<rparr>))"

definition runtime_paths_from_options :: "'w Os \<Rightarrow> 'w \<Rightarrow> fp_context_options_t option \<Rightarrow> RuntimePaths ffi_result" where
  "runtime_paths_from_options os w options =
     (case options of
        None \<Rightarrow> default_runtime_paths os w
      | Some o' \<Rightarrow>
          if u64_of_u32 (fco_struct_size o') < required_context_options_size then Inl FP_ERR_INVALID_ARGUMENT
          else if fco_api_version o' \<noteq> API_VERSION then Inl FP_ERR_VERSION_MISMATCH
          else
            (case fco_runtime_dir o' of
               None \<Rightarrow> default_runtime_paths os w
             | Some dir \<Rightarrow>
                 res_bind (cstr_to_str (Some dir)) (\<lambda>runtime_dir.
                 res_bind (map_err status_to_ffi (validate_runtime_dir_path os w runtime_dir)) (\<lambda>_.
                 Inr \<lparr>rp_mount_path = path_join runtime_dir ''fuse-promise'',
                      rp_socket_path = path_join runtime_dir ''fuse-promise.sock''\<rparr>))))"

section \<open>Contexts and providers\<close>

record ContextInner =
  ci_address :: nat
  ci_socket_path :: path
  ci_mount_path :: path

type_synonym fp_context = ContextInner

text \<open>The helper thread of a provider: the stream to shut down, and the connection the thread
  owns until it is joined.\<close>

record ProviderHelper =
  ph_shutdown :: conn
  ph_thread :: "ProviderConnection option"

record fp_provider =
  fp_inner :: ContextInner
  fp_id :: ProviderId
  fp_owner_token :: u128
  fp_helper :: "ProviderHelper option"

record fp_promise_builder =
  fpb_inner :: ContextInner
  fpb_provider_owner_token :: u128
  fpb_builder :: "PromiseBuilder option"

text \<open>\<open>address\<close> is the allocation of the new \<open>Arc\<close>.\<close>

definition fp_context_open ::
    "'w Os \<Rightarrow> 'w \<Rightarrow> nat \<Rightarrow> fp_context_options_t option \<Rightarrow> bool \<Rightarrow> fp_context option \<times> fp_status" where
  "fp_context_open os w address options out_is_null =
     (if out_is_null then (None, ffi_guard (Some (Inl FP_ERR_INVALID_ARGUMENT)))
      else case runtime_paths_from_options os w options of
          Inl e \<Rightarrow> (None, ffi_guard (Some (Inl e)))
        | Inr paths \<Rightarrow>
            (Some \<lparr>ci_address = address, ci_socket_path = rp_socket_path paths, ci_mount_path = rp_mount_path paths\<rparr>,
             ffi_guard (Some (Inr FP_OK))))"

definition spawn_provider_helper ::
    "'w ClientEnv \<Rightarrow> ProviderConnection \<Rightarrow> 'cb option \<Rightarrow> 'w \<Rightarrow> 'w \<times> ProviderHelper ffi_result" where
  "spawn_provider_helper env connection read =
     io_bind (io_map_err io_to_ffi (os_try_clone (ce_os env) (pc_stream connection))) (\<lambda>shutdown.
     if Option.is_none read then io_fail FP_ERR_INVALID_ARGUMENT
     else
       io_bind (io_map_err (\<lambda>_. FP_ERR_IO) (os_spawn_thread (ce_os env))) (\<lambda>_.
       io_return \<lparr>ph_shutdown = shutdown, ph_thread = Some connection\<rparr>))"

record 'cb fp_provider_ops_t =
  fpo_struct_size :: u32
  fpo_read :: "'cb option"

definition fp_provider_register ::
    "'w ClientEnv \<Rightarrow> fp_context option \<Rightarrow> 'cb fp_provider_ops_t option \<Rightarrow> bool \<Rightarrow> 'w \<Rightarrow>
     'w \<times> fp_provider option \<times> fp_status" where
  "fp_provider_register env context ops out_is_null w =
     (case (context, ops) of
        (Some inner, Some ops) \<Rightarrow>
          if out_is_null then (w, None, FP_ERR_INVALID_ARGUMENT)
          else if u64_of_u32 (fpo_struct_size ops) < required_provider_ops_size then (w, None, FP_ERR_INVALID_ARGUMENT)
          else if Option.is_none (fpo_read ops) then (w, None, FP_ERR_INVALID_ARGUMENT)
          else
            (case connect_provider env (ci_socket_path inner) w of
               (w1, Inl e) \<Rightarrow> (w1, None, io_to_ffi e)
             | (w1, Inr connection) \<Rightarrow>
                 (case provider_id_from_raw (pc_provider_id connection) of
                    None \<Rightarrow> (w1, None, FP_ERR_IO)
                  | Some pid \<Rightarrow>
                      (case spawn_provider_helper env connection (fpo_read ops) w1 of
                         (w2, Inl e) \<Rightarrow> (w2, None, e)
                       | (w2, Inr helper) \<Rightarrow>
                           (w2, Some \<lparr>fp_inner = inner, fp_id = pid,
                                      fp_owner_token = pc_provider_owner_token connection,
                                      fp_helper = Some helper\<rparr>, FP_OK))))
      | _ \<Rightarrow> (w, None, FP_ERR_INVALID_ARGUMENT))"

definition fp_promise_builder_new ::
    "fp_context option \<Rightarrow> fp_provider option \<Rightarrow> bool \<Rightarrow> fp_promise_builder option \<times> fp_status" where
  "fp_promise_builder_new context provider out_is_null =
     (case (context, provider) of
        (Some inner, Some p) \<Rightarrow>
          if out_is_null then (None, FP_ERR_INVALID_ARGUMENT)
          else if ci_address inner \<noteq> ci_address (fp_inner p) then (None, FP_ERR_INVALID_ARGUMENT)
          else (Some \<lparr>fpb_inner = inner, fpb_provider_owner_token = fp_owner_token p,
                      fpb_builder = Some (builder_new (fp_id p))\<rparr>, FP_OK)
      | _ \<Rightarrow> (None, FP_ERR_INVALID_ARGUMENT))"

section \<open>Building and committing\<close>

definition fp_promise_add ::
    "(PromiseBuilder \<Rightarrow> string \<Rightarrow> NodeAttr \<Rightarrow> string \<Rightarrow> PromiseBuilder \<times> unit result) \<Rightarrow>
     fp_promise_builder option \<Rightarrow> string option \<Rightarrow> fp_node_attr_t option \<Rightarrow> string option \<Rightarrow>
     fp_promise_builder option \<times> fp_status" where
  "fp_promise_add add builder relative_path attr provider_node_id =
     (case builder of
        None \<Rightarrow> (None, FP_ERR_INVALID_ARGUMENT)
      | Some b \<Rightarrow>
          (case res_bind (cstr_to_str relative_path) (\<lambda>p.
                res_bind (cstr_to_str provider_node_id) (\<lambda>n.
                res_bind (ffi_node_attr attr) (\<lambda>a.
                res_bind (ok_or (fpb_builder b) FP_ERR_INVALID_ARGUMENT) (\<lambda>inner.
                Inr (inner, p, n, a))))) of
             Inl e \<Rightarrow> (Some b, e)
           | Inr (inner, p, n, a) \<Rightarrow>
               (case add inner p a n of
                  (inner', Inl e) \<Rightarrow> (Some (b\<lparr>fpb_builder := Some inner'\<rparr>), status_to_ffi e)
                | (inner', Inr _) \<Rightarrow> (Some (b\<lparr>fpb_builder := Some inner'\<rparr>), FP_OK))))"

definition fp_promise_add_dir where
  "fp_promise_add_dir = fp_promise_add builder_add_dir"

definition fp_promise_add_file where
  "fp_promise_add_file = fp_promise_add builder_add_file"

definition commit_path_capacity_fits :: "path \<Rightarrow> nat \<Rightarrow> bool" where
  "commit_path_capacity_fits mount_path out_path_len \<longleftrightarrow>
     out_path_len > length (to_string_lossy (path_join mount_path ''promise-18446744073709551615''))"

text \<open>The buffer is the memory behind the out-pointer; its length is \<open>out_path_len\<close>.\<close>

definition write_c_string :: "string \<Rightarrow> string \<Rightarrow> string ffi_result" where
  "write_c_string buf v =
     (if CHR 0x00 \<in> set v \<or> length v \<ge> length buf then Inl FP_ERR_INVALID_ARGUMENT
      else Inr (copy_at buf 0 (v @ [CHR 0x00])))"

definition fp_promise_commit ::
    "'w ClientEnv \<Rightarrow> fp_promise_builder option \<Rightarrow> string option \<Rightarrow> 'w \<Rightarrow>
     'w \<times> fp_promise_builder option \<times> string option \<times> fp_status" where
  "fp_promise_commit env builder out_path w =
     (case (builder, out_path) of
        (None, _) \<Rightarrow> (w, None, out_path, FP_ERR_INVALID_ARGUMENT)
      | (Some b, None) \<Rightarrow> (w, Some b, None, FP_ERR_INVALID_ARGUMENT)
      | (Some b, Some buf) \<Rightarrow>
          if buf = [] then (w, Some b, Some buf, FP_ERR_INVALID_ARGUMENT)
          else
            (let buf0 = buf[0 := CHR 0x00] in
             if \<not> commit_path_capacity_fits (ci_mount_path (fpb_inner b)) (length buf0)
             then (w, Some b, Some buf0, FP_ERR_INVALID_ARGUMENT)
             else
               (case fpb_builder b of
                  None \<Rightarrow> (w, Some b, Some buf0, FP_ERR_INVALID_ARGUMENT)
                | Some inner \<Rightarrow>
                    (case client_commit_promise env (ci_socket_path (fpb_inner b))
                            (from_builder_with_owner_token inner (fpb_provider_owner_token b)) w of
                       (w1, Inl e) \<Rightarrow> (w1, Some b, Some buf0, io_to_ffi e)
                     | (w1, Inr response) \<Rightarrow>
                         (case write_c_string buf0 (to_string_lossy (commit_visible_path response)) of
                            Inl e \<Rightarrow> (w1, Some b, Some buf0, e)
                          | Inr buf1 \<Rightarrow> (w1, Some (b\<lparr>fpb_builder := None\<rparr>), Some buf1, FP_OK))))))"

section \<open>Serving reads\<close>

record fp_read_request_t =
  frq_promise_id :: string
  frq_node_id :: string
  frq_relative_path :: string
  frq_offset :: u64
  frq_length :: nat

text \<open>\<open>frs_buffer\<close> is the memory of the buffer the pointer of the structure leads to.\<close>

record fp_read_response_t =
  frs_buffer :: bytes
  frs_buffer_len :: nat
  frs_bytes_written :: nat

text \<open>The read callback fills the zeroed buffer it is given and changes the fields of the response
  structure; \<open>None\<close> if it unwinds.\<close>

type_synonym 'w fp_read_fn =
  "fp_read_request_t \<Rightarrow> fp_read_response_t \<Rightarrow> user_data \<Rightarrow> 'w \<Rightarrow> 'w \<times> (fp_status \<times> fp_read_response_t) option"

definition provider_read_error :: "u64 \<Rightarrow> ProviderReadStatus \<Rightarrow> ProviderReadResponse" where
  "provider_read_error request_id status =
     \<lparr>rs_request_id = request_id, rs_status = status, rs_bytes = []\<rparr>"

definition dispatch_provider_read ::
    "ProviderReadRequest \<Rightarrow> 'w fp_read_fn \<Rightarrow> user_data \<Rightarrow> 'w \<Rightarrow> 'w \<times> ProviderReadResponse" where
  "dispatch_provider_read request read ud w =
     (if CHR 0x00 \<in> set (rr_promise_id request) \<or> CHR 0x00 \<in> set (rr_provider_node_id request) \<or>
         CHR 0x00 \<in> set (rr_relative_path request)
      then (w, provider_read_error (rr_request_id request) ProviderReadStatus.InvalidArgument)
      else
        (let bytes = replicate (unat (rr_length request)) (0 :: u8);
             c_request = \<lparr>frq_promise_id = rr_promise_id request, frq_node_id = rr_provider_node_id request,
               frq_relative_path = rr_relative_path request, frq_offset = rr_offset request,
               frq_length = unat (rr_length request)\<rparr>;
             c_response = \<lparr>frs_buffer = bytes, frs_buffer_len = length bytes, frs_bytes_written = 0\<rparr> in
         case read c_request c_response ud w of
           (w1, None) \<Rightarrow> (w1, provider_read_error (rr_request_id request) (provider_read_status_from_ffi FP_ERR_IO))
         | (w1, Some (status, c_response)) \<Rightarrow>
             (let st = provider_read_status_from_ffi status in
              if st \<noteq> ProviderReadStatus.Ok then (w1, provider_read_error (rr_request_id request) st)
              else if frs_bytes_written c_response > frs_buffer_len c_response
              then (w1, provider_read_error (rr_request_id request) ProviderReadStatus.InvalidArgument)
              else (w1, \<lparr>rs_request_id = rr_request_id request, rs_status = ProviderReadStatus.Ok,
                         rs_bytes = take (frs_bytes_written c_response) (frs_buffer c_response)\<rparr>))))"

text \<open>The loop of the helper thread; it ends when the connection does.\<close>

partial_function (option) provider_helper_loop ::
    "'w ClientEnv \<Rightarrow> ProviderConnection \<Rightarrow> 'w fp_read_fn \<Rightarrow> user_data \<Rightarrow> 'w \<Rightarrow> 'w option" where
  "provider_helper_loop env connection read ud w =
     (case connection_read_request env connection w of
        (w1, Inr (Some request)) \<Rightarrow>
          (case dispatch_provider_read request read ud w1 of
             (w2, response) \<Rightarrow>
               (case connection_write_response env connection response w2 of
                  (w3, Inl _) \<Rightarrow> Some w3
                | (w3, Inr _) \<Rightarrow> provider_helper_loop env connection read ud w3))
      | (w1, _) \<Rightarrow> Some w1)"

text \<open>Shutting the stream down and joining the thread: what is left of its loop runs to its end.\<close>

definition helper_shutdown ::
    "'w ClientEnv \<Rightarrow> 'w fp_read_fn \<Rightarrow> user_data \<Rightarrow> ProviderHelper \<Rightarrow> 'w \<Rightarrow> ('w \<times> ProviderHelper) option" where
  "helper_shutdown env read ud helper w =
     (let w1 = fst (os_shutdown (ce_os env) (ph_shutdown helper) w) in
      case ph_thread helper of
        None \<Rightarrow> Some (w1, helper)
      | Some connection \<Rightarrow>
          map_option (\<lambda>w2. (w2, helper\<lparr>ph_thread := None\<rparr>)) (provider_helper_loop env connection read ud w1))"

text \<open>The helper is shut down once more when it is dropped; its thread is then already joined.\<close>

definition fp_provider_unregister ::
    "'w ClientEnv \<Rightarrow> 'w fp_read_fn \<Rightarrow> user_data \<Rightarrow> fp_provider option \<Rightarrow> 'w \<Rightarrow> 'w option" where
  "fp_provider_unregister env read ud provider w =
     (case provider of
        None \<Rightarrow> Some w
      | Some p \<Rightarrow>
          (case fp_helper p of
             None \<Rightarrow> Some w
           | Some helper \<Rightarrow>
               Option.bind (helper_shutdown env read ud helper w) (\<lambda>(w1, helper1).
               map_option fst (helper_shutdown env read ud helper1 w1))))"

section \<open>Materialising\<close>

definition FP_CONFLICT_FAIL :: u32 where "FP_CONFLICT_FAIL = 0"
definition FP_CONFLICT_OVERWRITE :: u32 where "FP_CONFLICT_OVERWRITE = 1"
definition FP_CONFLICT_RENAME :: u32 where "FP_CONFLICT_RENAME = 2"

text \<open>On a 64-bit target the structure has 80 bytes.\<close>

record fp_materialize_progress_t =
  fmp_struct_size :: u32
  fmp_counts :: MaterializeCounts
  fmp_target_path :: string

type_synonym 'w fp_progress_fn = "fp_materialize_progress_t \<Rightarrow> user_data \<Rightarrow> 'w \<Rightarrow> 'w \<times> fp_status"

record 'w fp_materialize_options_t =
  fmo_struct_size :: u32
  fmo_conflict_policy :: u32
  fmo_progress :: "'w fp_progress_fn option"
  fmo_progress_user_data :: user_data

record 'w MaterializeOptions =
  mo_conflict_policy :: MaterializeConflictPolicy
  mo_progress :: "'w fp_progress_fn option"
  mo_progress_user_data :: user_data

definition conflict_policy_from_ffi :: "u32 \<Rightarrow> MaterializeConflictPolicy ffi_result" where
  "conflict_policy_from_ffi policy =
     (if policy = FP_CONFLICT_FAIL then Inr MaterializeConflictPolicy.Fail
      else if policy = FP_CONFLICT_OVERWRITE then Inr MaterializeConflictPolicy.Overwrite
      else if policy = FP_CONFLICT_RENAME then Inr MaterializeConflictPolicy.Rename
      else Inl FP_ERR_INVALID_ARGUMENT)"

definition materialize_options :: "'w fp_materialize_options_t option \<Rightarrow> 'w MaterializeOptions ffi_result" where
  "materialize_options options =
     (case options of
        None \<Rightarrow> Inr \<lparr>mo_conflict_policy = MaterializeConflictPolicy.Fail, mo_progress = None, mo_progress_user_data = None\<rparr>
      | Some o' \<Rightarrow>
          if u64_of_u32 (fmo_struct_size o') < required_materialize_options_size then Inl FP_ERR_INVALID_ARGUMENT
          else
            res_bind (conflict_policy_from_ffi (fmo_conflict_policy o')) (\<lambda>policy.
            Inr \<lparr>mo_conflict_policy = policy,
                 mo_progress = (if u64_of_u32 (fmo_struct_size o') \<ge> materialize_progress_field_end
                                then fmo_progress o' else None),
                 mo_progress_user_data = (if u64_of_u32 (fmo_struct_size o') \<ge> materialize_progress_user_data_field_end
                                          then fmo_progress_user_data o' else None)\<rparr>))"

definition absolute_client_path :: "'w Os \<Rightarrow> 'w \<Rightarrow> path \<Rightarrow> path io_result" where
  "absolute_client_path os w p =
     (if path_is_absolute p then Inr p
      else res_bind (os_current_dir os w) (\<lambda>dir. Inr (path_join dir p)))"

definition ffi_checked_target_dir :: "'w Os \<Rightarrow> 'w \<Rightarrow> path \<Rightarrow> path ffi_result" where
  "ffi_checked_target_dir os w p =
     res_bind (map_err io_to_ffi (absolute_client_path os w p)) (\<lambda>p.
     res_bind (map_err io_to_ffi (os_symlink_metadata os w p)) (\<lambda>metadata.
     if md_type metadata \<noteq> FtDir then Inl FP_ERR_INVALID_ARGUMENT else Inr p))"

definition dispatch_materialize_progress ::
    "'w fp_progress_fn option \<Rightarrow> user_data \<Rightarrow> MaterializeProgressReport \<Rightarrow> ('w, unit) io" where
  "dispatch_materialize_progress progress_callback ud progress w =
     (case progress_callback of
        None \<Rightarrow> (w, Inr ())
      | Some callback \<Rightarrow>
          (let target_path = to_string_lossy (mrep_target_path progress) in
           if CHR 0x00 \<in> set target_path then (w, Inl (io_error_from KInvalidInput))
           else
             (case callback \<lparr>fmp_struct_size = 80, fmp_counts = mrep_counts progress, fmp_target_path = target_path\<rparr> ud w of
                (w1, status) \<Rightarrow>
                  (w1, if status = FP_OK then Inr () else Inl (IoError KOther (FfiStatusError status))))))"

definition fp_materialize ::
    "'w ClientEnv \<Rightarrow> fp_context option \<Rightarrow> string option \<Rightarrow> string option \<Rightarrow> 'w fp_materialize_options_t option \<Rightarrow>
     'w \<Rightarrow> ('w \<times> fp_status) option" where
  "fp_materialize env context promise_path target_dir options w =
     (case res_bind (ok_or context FP_ERR_INVALID_ARGUMENT) (\<lambda>inner.
           res_bind (cstr_to_str promise_path) (\<lambda>p.
           res_bind (map_err io_to_ffi (absolute_client_path (ce_os env) w p)) (\<lambda>source_path.
           res_bind (cstr_to_str target_dir) (\<lambda>t.
           res_bind (ffi_checked_target_dir (ce_os env) w t) (\<lambda>target_dir.
           res_bind (materialize_options options) (\<lambda>opts.
           Inr (inner, source_path, target_dir, opts))))))) of
        Inl e \<Rightarrow> Some (w, e)
      | Inr (inner, source_path, target_dir, opts) \<Rightarrow>
          map_option (\<lambda>(w1, r). (w1, case r of Inl e \<Rightarrow> io_to_ffi e | Inr _ \<Rightarrow> FP_OK))
            (materialize_file_with_progress env (ci_socket_path inner)
              \<lparr>mreq_source_path = source_path, mreq_target_dir = target_dir,
               mreq_conflict_policy = mo_conflict_policy opts\<rparr>
              (dispatch_materialize_progress (mo_progress opts) (mo_progress_user_data opts)) w))"

section \<open>The names of promises\<close>

lemma promise_name_length: "length (promise_name i) \<le> 28"
proof -
  have "unat i < 10 ^ 20" by (rule less_trans [OF unsigned_less]) simp
  from length_decimal_le [OF this] show ?thesis by (simp add: promise_name_def)
qed

lemma promise_name_ascii: "c \<in> set (promise_name i) \<Longrightarrow> 45 \<le> (of_char c :: nat) \<and> (of_char c :: nat) < 128"
  using decimal_digits [of c "unat i"] by (auto simp: promise_name_def)

end
