(* ===== verification/Daemon_Samples.thy ===== *)
theory Daemon_Samples
  imports Samples Copied_Bytes Commit_Wire Ffi
begin

text \<open>
  Concrete parameters and states of the daemon for the witnesses: system calls over a world
  that holds the bytes still to be received on a connection and the bytes written to a file,
  codecs that know a few messages, other threads that answer a read or do nothing, and a
  system with one connected provider.
\<close>

section \<open>System calls\<close>

type_synonym sample_world = "bytes \<times> bytes"

definition sample_dir_metadata :: Metadata where
  "sample_dir_metadata = \<lparr>md_type = FtDir, md_uid = 1000, md_mode = 448, md_dev = 1, md_ino = 2\<rparr>"

definition sample_file_metadata :: Metadata where
  "sample_file_metadata = \<lparr>md_type = FtFile, md_uid = 1000, md_mode = 384, md_dev = 1, md_ino = 9\<rparr>"

definition sample_os :: "sample_world Os" where
  "sample_os =
     \<lparr>os_getuid = 1000, os_process_id = 77, os_runtime_dir = Some ''/run/u'',
      os_current_dir = (\<lambda>_. Inr ''/t''),
      os_metadata = (\<lambda>_ p. if p = ''/t'' then Inr sample_dir_metadata else Inl (io_error_from KNotFound)),
      os_symlink_metadata = (\<lambda>_ p. if p = ''/t'' then Inr sample_dir_metadata else Inl (io_error_from KNotFound)),
      os_create_dir = (\<lambda>_ _ w. (w, Inr ())), os_create_dir_all = (\<lambda>_ w. (w, Inr ())),
      os_remove_file = (\<lambda>_ w. (w, Inr ())), os_remove_dir = (\<lambda>_ w. (w, Inr ())),
      os_rename = (\<lambda>_ _ w. (w, Inr ())), os_set_permissions = (\<lambda>_ _ w. (w, Inr ())),
      os_open = (\<lambda>_ w. (w, Inr 6)), os_open_excl = (\<lambda>_ _ w. (w, Inr 5)),
      os_file_metadata = (\<lambda>_ _. Inr sample_file_metadata),
      os_file_set_permissions = (\<lambda>_ _ w. (w, Inr ())),
      os_file_write_all = (\<lambda>_ bs (incoming, written). ((incoming, written @ bs), Inr ())),
      os_file_read_at = (\<lambda>_ _ _ _. Inl (io_error_from KOther)),
      os_futimens = (\<lambda>_ _ _ w. (w, Inr ())),
      os_urandom = (\<lambda>n w. (w, Inr (replicate n 1))), os_open_urandom = (\<lambda>w. (w, Inr ())),
      os_bind = (\<lambda>_ w. (w, Inr 1)), os_accept = (\<lambda>_ w. (w, Inl (io_error_from KOther))),
      os_connect = (\<lambda>_ w. (w, Inr 7)), os_shutdown = (\<lambda>_ w. (w, Inr ())),
      os_spawn_thread = (\<lambda>w. (w, Inr ())), os_try_clone = (\<lambda>c w. (w, Inr c)),
      os_peer_uid = (\<lambda>_ _. Inr 1000),
      os_read = (\<lambda>_ n (incoming, written). ((drop n incoming, written), Inr (take n incoming))),
      os_read_exact = (\<lambda>_ n (incoming, written).
        if n \<le> length incoming then ((drop n incoming, written), Inr (take n incoming))
        else (([], written), Inl (io_error_from KUnexpectedEof))),
      os_write_all = (\<lambda>_ _ w. (w, Inr ())), os_flush = (\<lambda>_ w. (w, Inr ()))\<rparr>"

lemma sample_os_simps [simp]:
  "os_getuid sample_os = 1000" "os_process_id sample_os = 77"
  "os_current_dir sample_os w = Inr ''/t''"
  "os_metadata sample_os w p = (if p = ''/t'' then Inr sample_dir_metadata else Inl (io_error_from KNotFound))"
  "os_symlink_metadata sample_os w p = (if p = ''/t'' then Inr sample_dir_metadata else Inl (io_error_from KNotFound))"
  "os_create_dir sample_os p m w = (w, Inr ())" "os_set_permissions sample_os p m w = (w, Inr ())"
  "os_remove_file sample_os p w = (w, Inr ())" "os_remove_dir sample_os p w = (w, Inr ())"
  "os_open sample_os p w = (w, Inr 6)" "os_open_excl sample_os p m w = (w, Inr 5)"
  "os_file_metadata sample_os w f = Inr sample_file_metadata"
  "os_file_set_permissions sample_os f m w = (w, Inr ())"
  "os_file_write_all sample_os f bs w = ((fst w, snd w @ bs), Inr ())"
  "os_file_read_at sample_os w f i n = Inl (io_error_from KOther)"
  "os_futimens sample_os f a b w = (w, Inr ())"
  "os_urandom sample_os n w = (w, Inr (replicate n 1))" "os_open_urandom sample_os w = (w, Inr ())"
  "os_try_clone sample_os c w = (w, Inr c)" "os_peer_uid sample_os w c = Inr 1000"
  "os_read sample_os c n w = ((drop n (fst w), snd w), Inr (take n (fst w)))"
  "os_read_exact sample_os c n w = (if n \<le> length (fst w) then ((drop n (fst w), snd w), Inr (take n (fst w)))
     else (([], snd w), Inl (io_error_from KUnexpectedEof)))"
  "os_write_all sample_os c bs w = (w, Inr ())" "os_flush sample_os c w = (w, Inr ())"
  by (simp_all add: sample_os_def split: prod.split)

section \<open>Codecs\<close>

text \<open>A codec for a list of messages: a message is sent as its position.\<close>

fun position :: "'m list \<Rightarrow> 'm \<Rightarrow> nat option" where
  "position [] m = None"
| "position (x # xs) m = (if x = m then Some 0 else map_option Suc (position xs m))"

definition table_codec :: "'m list \<Rightarrow> 'm Codec" where
  "table_codec table =
     \<lparr>encode = (\<lambda>m. case position table m of
        None \<Rightarrow> Inl ''unknown message''
      | Some i \<Rightarrow> if i < 256 then Inr [of_nat i] else Inl ''unknown message''),
      decode = (\<lambda>bs. case bs of
        b # _ \<Rightarrow> if unat b < length table then Inr (table ! unat b, 1) else Inl ''unknown message''
      | [] \<Rightarrow> Inl ''empty'')\<rparr>"

lemma position_Some: "position table m = Some i \<Longrightarrow> i < length table \<and> table ! i = m"
  by (induction table arbitrary: i) (auto split: if_splits)

lemma table_codec_roundtrip: "codec_roundtrip (table_codec table)"
  unfolding codec_roundtrip_def table_codec_def
  by (auto simp: unat_of_nat dest!: position_Some split: option.splits if_splits)

section \<open>Other threads\<close>

definition sample_response_body :: ProviderReadResponseBody where
  "sample_response_body =
     \<lparr>rsb_request_id = 1, rsb_status = ProviderReadStatusBody.Ok, rsb_bytes = [10, 11, 12]\<rparr>"

text \<open>A codec for the responses that the witnesses do not read back.\<close>

definition sent_codec :: "Response Codec" where
  "sent_codec = \<lparr>encode = (\<lambda>_. Inr [0]), decode = (\<lambda>_. Inl ''not read'')\<rparr>"

definition sample_requests :: "Request list" where
  "sample_requests =
     [Request.Hello IPC_PROTOCOL_VERSION API_VERSION, Request.ProviderRegister, Request.MaterializeContinue]"

text \<open>The provider answers while a reader waits; or nothing happens.\<close>

definition answering_env :: "sample_world Env" where
  "answering_env =
     \<lparr>env_os = sample_os, env_requests = table_codec sample_requests, env_responses = sent_codec,
      env_wait = (\<lambda>_ w. w\<lparr>w_ipc := fst (complete_provider_read [1] sample_response_body (w_ipc w))\<rparr>),
      env_idle = (\<lambda>_ w. w)\<rparr>"

definition quiet_env :: "sample_world Env" where
  "quiet_env = answering_env\<lparr>env_wait := (\<lambda>_ w. w)\<rparr>"

lemma sample_env_simps [simp]:
  "env_os answering_env = sample_os" "env_responses answering_env = sent_codec"
  "env_requests answering_env = table_codec sample_requests" "env_idle answering_env c w = w"
  "env_wait answering_env ch w = w\<lparr>w_ipc := fst (complete_provider_read [1] sample_response_body (w_ipc w))\<rparr>"
  "env_os quiet_env = sample_os" "env_responses quiet_env = sent_codec"
  "env_requests quiet_env = table_codec sample_requests" "env_idle quiet_env c w = w" "env_wait quiet_env ch w = w"
  by (simp_all add: quiet_env_def answering_env_def)

lemma sent_frame [simp]: "write_frame (stream_writer sample_os c) sent_codec m w = (w, Inr ())"
  by (simp add: write_frame_def stream_writer_def sent_codec_def io_bind_def io_lift_def)

section \<open>A system with a provider\<close>

text \<open>Connection 7 was accepted and registered provider 1.\<close>

definition sample_client :: Client where
  "sample_client = \<lparr>cl_negotiated = False, cl_registered = [1]\<rparr>"

definition sample_system :: System where
  "sample_system =
     (system_new runtime_new)\<lparr>sys_ipc := register_provider_route 1 42 7
         (ipc_state_new (fst (register_provider runtime_new))),
       sys_clients := (\<lambda>_. None)(7 \<mapsto> sample_client)\<rparr>"

lemma reachable_registration:
  assumes "sys_reachable k s" and "sys_clients s c = Some cl" and "pid \<notin> sys_fresh s"
    and "register_provider (ipc_runtime (sys_ipc s)) = (rt, pid)"
  shows "sys_reachable (Suc (Suc k))
    (s\<lparr>sys_ipc := register_provider_route pid token writer ((sys_ipc s)\<lparr>ipc_runtime := rt\<rparr>),
       sys_clients := (sys_clients s)(c \<mapsto> cl\<lparr>cl_registered := cl_registered cl @ [pid]\<rparr>)\<rparr>)"
proof -
  let ?s1 = "s\<lparr>sys_ipc := (sys_ipc s)\<lparr>ipc_runtime := rt\<rparr>, sys_fresh := insert pid (sys_fresh s)\<rparr>"
  have "sys_reachable (Suc k) ?s1" using assms(1) sys_step.register [OF assms(4)] by (rule sys_reachable.step)
  moreover have "sys_step ?s1 (?s1\<lparr>sys_ipc := register_provider_route pid token writer (sys_ipc ?s1),
      sys_fresh := sys_fresh ?s1 - {pid},
      sys_clients := (sys_clients ?s1)(c \<mapsto> cl\<lparr>cl_registered := cl_registered cl @ [pid]\<rparr>)\<rparr>)"
    using assms(2) by (intro sys_step.route) simp_all
  ultimately have "sys_reachable (Suc (Suc k)) (?s1\<lparr>sys_ipc := register_provider_route pid token writer (sys_ipc ?s1),
      sys_fresh := sys_fresh ?s1 - {pid},
      sys_clients := (sys_clients ?s1)(c \<mapsto> cl\<lparr>cl_registered := cl_registered cl @ [pid]\<rparr>)\<rparr>)"
    by (rule sys_reachable.step)
  with assms(3) show ?thesis by (cases s) simp
qed

lemma sample_system_reachable: "sys_reachable 3 sample_system"
proof -
  let ?s0 = "system_new runtime_new"
  let ?s1 = "?s0\<lparr>sys_clients := (sys_clients ?s0)(7 \<mapsto> new_client)\<rparr>"
  have "sys_step ?s0 ?s1" by (rule sys_step.accept) (simp add: system_new_def)
  with sys_reachable.init have 1: "sys_reachable (Suc 0) ?s1" by (rule sys_reachable.step)
  have "register_provider (ipc_runtime (sys_ipc ?s1)) = (fst (register_provider runtime_new), 1)"
    by (simp add: system_new_def ipc_state_new_def register_provider_def runtime_new_def Let_def)
  from reachable_registration [OF 1 _ _ this, of 7 new_client 42 7] show ?thesis
    by (simp add: sample_system_def system_new_def ipc_state_new_def sample_client_def new_client_def numeral_3_eq_3)
qed

definition sample_request :: ProviderReadRequest where
  "sample_request =
     \<lparr>rr_request_id = 1, rr_provider_id = 1, rr_promise_id = ''promise-1'', rr_relative_path = ''d/f'',
      rr_provider_node_id = ''file'', rr_offset = 0, rr_length = 3\<rparr>"

definition sample_response :: ProviderReadResponse where
  "sample_response = \<lparr>rs_request_id = 1, rs_status = ProviderReadStatus.Ok, rs_bytes = [10, 11, 12]\<rparr>"

definition sample_world :: "sample_world World" where
  "sample_world = \<lparr>w_ipc = sys_ipc sample_system, w_temp_counter = 0, w_os = ([], [])\<rparr>"

lemma sample_world_ipc: "sys_ipc sample_system = w_ipc sample_world"
  by (simp add: sample_world_def)

text \<open>The other connections are the provider's; its answer is a step of the system.\<close>

abbreviation sample_rely :: "System \<Rightarrow> bool" where
  "sample_rely \<equiv> peers_fixed None ((\<lambda>_. None)(7 \<mapsto> sample_client))"

lemma sample_rely_holds: "sample_rely sample_system"
  using sample_system_reachable by (auto simp: peers_fixed_def sample_system_def)

lemma answering_env_step:
  assumes "sample_rely s" and "sys_ipc s = w_ipc w"
  shows "sys_step s (on_ipc (\<lambda>st. fst (complete_provider_read [1] sample_response_body st)) s)"
    and "sys_ipc (on_ipc (\<lambda>st. fst (complete_provider_read [1] sample_response_body st)) s) = w_ipc (env_wait answering_env ch w)"
    and "sample_rely (on_ipc (\<lambda>st. fst (complete_provider_read [1] sample_response_body st)) s)"
proof -
  from assms(1) have "sys_clients s 7 = Some sample_client" by (simp add: peers_fixed_def)
  from sys_step.answer [OF this, of sample_response_body]
  show 1: "sys_step s (on_ipc (\<lambda>st. fst (complete_provider_read [1] sample_response_body st)) s)"
    by (simp add: sample_client_def)
  show "sample_rely (on_ipc (\<lambda>st. fst (complete_provider_read [1] sample_response_body st)) s)"
    by (rule peers.own_step [OF assms(1) 1]) simp
qed (simp add: assms(2))

lemma answering_env_waits: "env_waits sample_rely 1 answering_env"
  unfolding env_waits_def
proof (intro allI impI)
  fix ch s and w :: "sample_world World"
  assume s: "sample_rely s" "sys_ipc s = w_ipc w"
  let ?s' = "on_ipc (\<lambda>st. fst (complete_provider_read [1] sample_response_body st)) s"
  from answering_env_step [OF s] have "(sys_step ^^ 1) s ?s' \<and> sys_ipc ?s' = w_ipc (env_wait answering_env ch w) \<and>
      (ch \<in> sys_abandoned ?s' \<longrightarrow> ch \<in> sys_abandoned s)" by (simp add: eq_OO)
  then show "\<exists>n\<le>1. \<exists>s'. (sys_step ^^ n) s s' \<and> sys_ipc s' = w_ipc (env_wait answering_env ch w) \<and>
      (ch \<in> sys_abandoned s' \<longrightarrow> ch \<in> sys_abandoned s)" by blast
qed

lemma answering_env_evolves: "env_evolves sample_rely None answering_env"
  unfolding env_evolves_def evolves_def using answering_env_step by (metis option.distinct(1) r_into_rtranclp)

lemma sample_request_simps [simp]:
  "rr_request_id sample_request = 1" "rr_provider_id sample_request = 1" "rs_request_id sample_response = 1"
  by (simp_all add: sample_request_def sample_response_def)

lemma sample_request_ok: "\<exists>body. read_request_into_body sample_request = Inr body \<and> rrb_request_id body = 1"
proof -
  have "normalize_relative_path ''d/f'' = Inr ''d/f''" by code_simp
  moreover have "read_request_ok sample_request"
    by (simp add: read_request_ok_def sample_request_def MAX_PROVIDER_READ_LEN_def)
  ultimately show ?thesis by (simp add: read_request_into_body_Inr) (simp add: sample_request_def)
qed

lemma sample_answer_ok:
  "read_response_from_body sample_response_body = Inr sample_response"
  "validate_provider_read_response_for_request sample_request sample_response = Inr ()"
proof -
  have "unat MAX_PROVIDER_READ_LEN = 262144" by (simp add: MAX_PROVIDER_READ_LEN_def)
  then show "read_response_from_body sample_response_body = Inr sample_response"
    "validate_provider_read_response_for_request sample_request sample_response = Inr ()"
    by (simp_all add: read_response_from_body_def read_response_validated_def sample_response_body_def sample_response_def sample_request_def
        outcome_simps)
qed

lemma sample_routed:
  "route_provider_read answering_env sample_request
     (sample_world\<lparr>w_ipc := fst (next_provider_read_request_id (w_ipc sample_world))\<rparr>) =
   (sample_world\<lparr>w_ipc := (w_ipc sample_world)\<lparr>ipc_next_read_request_id := 2, ipc_channels := [[Inr sample_response]]\<rparr>\<rparr>,
    Inr sample_response)"
proof -
  obtain body where b: "read_request_into_body sample_request = Inr body" "rrb_request_id body = 1"
    using sample_request_ok by blast
  show ?thesis
    by (simp add: route_provider_read_def b route_lookup_def sample_world_def sample_system_def system_new_def ipc_state_new_def
      next_provider_read_request_id_def register_provider_route_def Let_def enter_pending_read_eq channel_send_def
      complete_provider_read_def sample_answer_ok finish_routed_read_def channel_recv_def remove_pending_read_def bt_remove_def)
qed

section \<open>A connection\<close>

lemma table_codec_decode:
  "decode (table_codec table) [b] = (if unat b < length table then Inr (table ! unat b, 1) else Inl ''unknown message'')"
  by (simp add: table_codec_def)

lemma sample_receive:
  assumes "unat b < length sample_requests"
  shows "receive quiet_env c (w\<lparr>w_os := ([1, 0, 0, 0, b] @ rest, f)\<rparr>) =
    (w\<lparr>w_os := (rest, f)\<rparr>, Inr (Some (sample_requests ! unat b)))"
  using assms
  by (simp add: receive_def read_frame_def stream_reader_def io_bind_def io_lift_def Let_def
      table_codec_decode)

lemma sample_receive_eof: "receive quiet_env c (w\<lparr>w_os := ([], f)\<rparr>) = (w\<lparr>w_os := ([], f)\<rparr>, Inr None)"
  by (simp add: receive_def read_frame_def stream_reader_def io_bind_def)

definition sample_incoming :: "sample_world World" where
  "sample_incoming = sample_world\<lparr>w_os := ([1, 0, 0, 0, 0] @ [1, 0, 0, 0, 1] @ [], [])\<rparr>"

lemma quiet_env_evolves: "env_evolves G me quiet_env"
  by (auto simp: env_evolves_def evolves_def)


definition sample_owner_token :: u128 where
  "sample_owner_token = of_nat (le_value (replicate 16 1))"

lemma sample_token: "generate_provider_owner_token sample_os w = Some (w, Inr sample_owner_token)"
proof -
  have "of_nat (le_value (replicate 16 1)) \<noteq> (0 :: u128)" by code_simp
  then have "owner_token_loop sample_os w = Some (w, Inr sample_owner_token)"
    unfolding sample_owner_token_def by (subst owner_token_loop.simps) (simp only: sample_os_simps prod.case sum.case if_True not_False_eq_True)
  then show ?thesis by (simp add: generate_provider_owner_token_def)
qed

lemma requests_round:
  assumes "receive env c (env_idle env c w) = (w1, Inr (Some request))"
    and "handle_request env c client request w1 = Some (w2, client2, Inr ())"
  shows "handle_client_requests env c client w = handle_client_requests env c client2 w2"
  by (subst handle_client_requests.simps) (simp add: assms)

lemma requests_eof:
  "receive env c (env_idle env c w) = (w1, Inr None) \<Longrightarrow> handle_client_requests env c client w = Some (w1, client, Inr ())"
  by (subst handle_client_requests.simps) simp

text \<open>The provider that connection 8 registers is gone when the connection ends.\<close>

definition sample_registered :: IpcState where
  "sample_registered = register_provider_route 2 sample_owner_token 8
     ((w_ipc sample_world)\<lparr>ipc_runtime := fst (register_provider (ipc_runtime (w_ipc sample_world)))\<rparr>)"

definition sample_ended :: "sample_world World" where
  "sample_ended = sample_world\<lparr>w_ipc := disconnect_provider 2 sample_registered\<rparr>"

lemma sample_requests_run:
  "handle_client_requests quiet_env 8 new_client sample_incoming =
     Some (sample_world\<lparr>w_ipc := sample_registered, w_os := ([], [])\<rparr>,
       new_client\<lparr>cl_negotiated := True, cl_registered := [2]\<rparr>, Inr ())"
proof -
  let ?hello = "new_client\<lparr>cl_negotiated := True\<rparr>" and ?registered = "new_client\<lparr>cl_negotiated := True, cl_registered := [2]\<rparr>"
  let ?w1 = "sample_world\<lparr>w_os := ([1, 0, 0, 0, 1] @ [], [])\<rparr>" and ?w2 = "sample_world\<lparr>w_os := ([], [])\<rparr>"
  let ?w3 = "sample_world\<lparr>w_ipc := sample_registered, w_os := ([], [])\<rparr>"
  have r1: "receive quiet_env 8 sample_incoming = (?w1, Inr (Some (Request.Hello IPC_PROTOCOL_VERSION API_VERSION)))"
    unfolding sample_incoming_def by (subst sample_receive) (simp_all add: sample_requests_def)
  have h1: "handle_request quiet_env 8 new_client (Request.Hello IPC_PROTOCOL_VERSION API_VERSION) ?w1 = Some (?w1, ?hello, Inr ())"
    by (simp add: handle_request_def handle_hello_def reply_def)
  have r2: "receive quiet_env 8 ?w1 = (?w2, Inr (Some Request.ProviderRegister))"
    by (subst sample_receive) (simp_all add: sample_requests_def)
  have reg: "register_provider (ipc_runtime (w_ipc sample_world)) = (fst (register_provider (ipc_runtime (w_ipc sample_world))), 2)"
    by (simp add: sample_world_def sample_system_def register_provider_route_def ipc_state_new_def register_provider_def runtime_new_def Let_def)
  have h2: "handle_request quiet_env 8 ?hello Request.ProviderRegister ?w2 = Some (?w3, ?registered, Inr ())"
    by (simp add: handle_request_def handle_register_def reply_def sample_token Let_def new_client_def
        sample_registered_def, subst reg, simp)
  have r3: "receive quiet_env 8 ?w3 = (?w3, Inr None)" by (rule sample_receive_eof)
  have "handle_client_requests quiet_env 8 new_client sample_incoming = handle_client_requests quiet_env 8 ?hello ?w1"
    by (rule requests_round [OF _ h1]) (simp only: r1 sample_env_simps)
  also have "\<dots> = handle_client_requests quiet_env 8 ?registered ?w3"
    by (rule requests_round [OF _ h2]) (simp only: r2 sample_env_simps)
  also have "\<dots> = Some (?w3, ?registered, Inr ())"
    by (rule requests_eof) (simp only: r3 sample_env_simps)
  finally show ?thesis .
qed

lemma sample_connection: "handle_client_with_state quiet_env 8 sample_incoming = Some (sample_ended, Inr ())"
  by (simp add: handle_client_with_state_def validate_peer_def disconnect_registered_providers_def sample_requests_run
      sample_ended_def sample_world_def)

text \<open>A read of provider 1 that waits for its answer.\<close>

definition sample_waiting :: System where
  "sample_waiting = sample_system\<lparr>sys_ipc := fst (enter_pending_read sample_request
     (fst (next_provider_read_request_id (sys_ipc sample_system)))), sys_routed := [sample_request]\<rparr>"

lemma sample_waiting_reachable: "sys_reachable 5 sample_waiting"
proof -
  let ?s1 = "sample_system\<lparr>sys_ipc := fst (next_provider_read_request_id (sys_ipc sample_system)),
      sys_tickets := insert 1 (sys_tickets sample_system)\<rparr>"
  obtain body where body: "read_request_into_body sample_request = Inr body" using sample_request_ok by blast
  have "next_provider_read_request_id (sys_ipc sample_system) = (fst (next_provider_read_request_id (sys_ipc sample_system)), 1)"
    by (simp add: next_provider_read_request_id_def sample_system_def system_new_def ipc_state_new_def register_provider_route_def)
  then have 1: "sys_step sample_system ?s1" by (rule sys_step.ticket)
  have "sys_step ?s1 (?s1\<lparr>sys_ipc := fst (enter_pending_read sample_request (sys_ipc ?s1)),
      sys_tickets := sys_tickets ?s1 - {rr_request_id sample_request}, sys_routed := sys_routed ?s1 @ [sample_request]\<rparr>)"
    by (rule sys_step.enter [OF _ body]) simp
  then have "sys_step ?s1 sample_waiting" by (simp add: sample_waiting_def sample_system_def system_new_def)
  with sys_reachable.step [OF sample_system_reachable 1] have "sys_reachable (Suc (Suc 3)) sample_waiting"
    by (rule sys_reachable.step)
  moreover have "Suc (Suc 3) = 5" by simp
  ultimately show ?thesis by (simp only:)
qed

abbreviation provider_peers :: "conn \<Rightarrow> Client option" where
  "provider_peers \<equiv> (\<lambda>_. None)(7 \<mapsto> sample_client)"

lemma sample_waiting_read:
  "bt_get (ipc_pending_reads (sys_ipc sample_waiting)) 1 =
     Some \<lparr>pending_provider_id = 1, pending_request = sample_request, pending_sender = 0\<rparr>"
  by (simp add: sample_waiting_def sample_system_def system_new_def ipc_state_new_def register_provider_route_def
      next_provider_read_request_id_def enter_pending_read_eq)

definition failing_env :: "sample_world Env" where
  "failing_env = quiet_env\<lparr>env_os := sample_os\<lparr>os_open_urandom := (\<lambda>w. (w, Inl (io_error_from KPermissionDenied)))\<rparr>\<rparr>"

definition sample_mounted :: "sample_world World" where
  "sample_mounted = sample_world\<lparr>w_ipc := set_mount_status (commit_ready ''/m'') (w_ipc sample_world)\<rparr>"

end
