(* ===== verification/Daemon_Properties.thy ===== *)
theory Daemon_Properties
  imports Daemon_Samples
begin

text \<open>
  The properties of the daemon: the shared state under every interleaving of its threads, the
  reads it routes to providers, the life of a connection, and the requests it serves.
\<close>

section \<open>The shared state\<close>

text \<open>C2. In every state the daemon reaches, whatever way the threads of its connections, of the
  mount and of the readers interleave: an answer waiting in a mailbox was validated against the
  request of that mailbox and is the only one there; a pending read is filed under its own
  request id and its mailbox is empty; a reader that has not given up is either answered or
  still pending, so no reader is lost; a provider belongs to at most one connection; and every
  route leads to a provider that an open connection has registered.\<close>

theorem daemon_state_consistent:
  assumes "sys_reachable k s" and "k < 2 ^ 64 - 1"
  shows "(\<forall>i r. i < length (ipc_channels (sys_ipc s)) \<and> Inr r \<in> set (ipc_channels (sys_ipc s) ! i) \<longrightarrow>
        validate_provider_read_response_for_request (sys_routed s ! i) r = Inr ()) \<and>
    (\<forall>mailbox\<in>set (ipc_channels (sys_ipc s)). length mailbox \<le> 1) \<and>
    (\<forall>i p. bt_get (ipc_pending_reads (sys_ipc s)) i = Some p \<longrightarrow>
        rr_request_id (pending_request p) = i \<and> ipc_channels (sys_ipc s) ! pending_sender p = []) \<and>
    (\<forall>ch<length (ipc_channels (sys_ipc s)). ch \<in> sys_abandoned s \<or> ipc_channels (sys_ipc s) ! ch \<noteq> [] \<or>
        (\<exists>i p. bt_get (ipc_pending_reads (sys_ipc s)) i = Some p \<and> pending_sender p = ch)) \<and>
    (\<forall>c c' cl cl' pid. sys_clients s c = Some cl \<and> sys_clients s c' = Some cl' \<and>
        pid \<in> set (cl_registered cl) \<and> pid \<in> set (cl_registered cl') \<longrightarrow> c = c') \<and>
    (\<forall>pid route. bt_get (ipc_provider_routes (sys_ipc s)) pid = Some route \<longrightarrow>
        (\<exists>c cl. sys_clients s c = Some cl \<and> pid \<in> set (cl_registered cl)))"
proof -
  note inv = sys_invD [OF sys_reachable_inv [OF assms]]
  from answers_okD(3) [OF inv(3)] ipc_invD(3,5) [OF inv(2)] inv(4,6,8) show ?thesis
    unfolding readers_ok_def owners_ok_def routes_ok_def pending_ok_def by blast
qed

theorem daemon_state_consistent_witness:
  "rr_request_id sample_request = 1 \<and> ipc_channels (sys_ipc sample_waiting) ! 0 = [] \<and>
   sys_clients sample_waiting 7 = Some sample_client"
proof -
  have "\<forall>i p. bt_get (ipc_pending_reads (sys_ipc sample_waiting)) i = Some p \<longrightarrow>
      rr_request_id (pending_request p) = i \<and> ipc_channels (sys_ipc sample_waiting) ! pending_sender p = []"
    using daemon_state_consistent [OF sample_waiting_reachable] by simp
  from this [rule_format, OF sample_waiting_read]
  have "rr_request_id sample_request = 1 \<and> ipc_channels (sys_ipc sample_waiting) ! 0 = []" by simp
  then show ?thesis by (simp add: sample_waiting_def sample_system_def)
qed

text \<open>C22. A thread that draws a request id and routes a read to a provider gets a response that
  was validated against its own request, or an error; and afterwards the read is no longer
  pending, whatever the other threads did while it waited. The rely condition says that they make
  at most \<open>N\<close> steps of the system and do not give up the read of this thread.\<close>

theorem routed_read_sound:
  assumes "sys_reachable k s" and "sys_ipc s = w_ipc w" and "k + N + 2 < 2 ^ 64 - 1"
    and "rely_invariant G me" and "G s" and "env_waits G N env"
    and "next_provider_read_request_id (w_ipc w) = (st, rr_request_id request)"
    and "route_provider_read env request (w\<lparr>w_ipc := st\<rparr>) = (w', r)"
  shows "(\<forall>response. r = Inr response \<longrightarrow>
        validate_provider_read_response_for_request request response = Inr ()) \<and>
    bt_get (ipc_pending_reads (w_ipc w')) (rr_request_id request) = None"
  using routed_read [OF assms] by blast

theorem routed_read_sound_witness:
  "snd (route_provider_read answering_env sample_request
      (sample_world\<lparr>w_ipc := fst (next_provider_read_request_id (w_ipc sample_world))\<rparr>)) = Inr sample_response \<and>
   validate_provider_read_response_for_request sample_request sample_response = Inr ()"
proof -
  have "next_provider_read_request_id (w_ipc sample_world) =
      (fst (next_provider_read_request_id (w_ipc sample_world)), rr_request_id sample_request)"
    by (simp add: next_provider_read_request_id_def sample_world_def sample_system_def system_new_def ipc_state_new_def
        register_provider_route_def)
  from routed_read_sound [OF sample_system_reachable sample_world_ipc _ peers.rely_invariant_axioms sample_rely_holds
      answering_env_waits this sample_routed] sample_routed show ?thesis by simp
qed

text \<open>C4. The thread of a connection refines the abstract system: everything it does between
  accepting the socket and cleaning up, on every request and every error path, is a sequence of
  system steps, interleaved with whatever the other threads do while it waits. The system lets a
  connection close only when none of its providers has a route any more.\<close>

theorem connection_refines_system:
  assumes "connection_thread G c" and "env_evolves G (Some c) env"
    and "handle_client_with_state env c w = Some (w', r)"
    and "G s" and "sys_ipc s = w_ipc w" and "sys_clients s c = None"
  shows "\<exists>s'. sys_step\<^sup>*\<^sup>* s s' \<and> G s' \<and> sys_ipc s' = w_ipc w' \<and> sys_clients s' c = None"
  using assms by (rule connection_thread.connection_run)

theorem connection_refines_system_witness:
  "\<exists>s'. sys_step\<^sup>*\<^sup>* sample_system s' \<and> sys_ipc s' = w_ipc sample_ended \<and> sys_clients s' 8 = None"
proof -
  have "peers_fixed (Some 8) provider_peers sample_system"
    using sample_system_reachable by (auto simp: peers_fixed_def sample_system_def)
  from connection_refines_system [OF peers_conn.connection_thread_axioms quiet_env_evolves sample_connection this]
  show ?thesis by (auto simp: sample_incoming_def sample_world_def sample_system_def)
qed

section \<open>Providers that leave\<close>

text \<open>C12. Disconnecting a provider leaves nobody waiting for it: every read that was pending on it
  finishes at once with a broken-pipe error, the reads of other providers stay pending, and the
  provider has no route any more and is not live.\<close>

theorem disconnect_wakes_readers:
  assumes "sys_reachable k s" and "pid \<noteq> 0"
  defines "st \<equiv> disconnect_provider pid (sys_ipc s)"
  shows "(\<forall>i p. bt_get (ipc_pending_reads (sys_ipc s)) i = Some p \<longrightarrow>
      (if pending_provider_id p = pid
       then bt_get (ipc_pending_reads st) i = None \<and>
         finish_routed_read i (pending_sender p) st = (st, Inl (io_error_new KBrokenPipe ''provider disconnected''))
       else bt_get (ipc_pending_reads st) i = Some p)) \<and>
    bt_get (ipc_provider_routes st) pid = None \<and> \<not> has_provider (ipc_runtime st) pid"
proof -
  have inv: "ipc_inv (sys_ipc s)" by (rule sys_reachable_answers(1) [OF assms(1)])
  note pend = disconnect_pending [OF inv assms(2)] and chans = disconnect_channels [OF inv assms(2)]
  have "finish_routed_read i (pending_sender p) st = (st, Inl (io_error_new KBrokenPipe ''provider disconnected''))"
    if p: "bt_get (ipc_pending_reads (sys_ipc s)) i = Some p" "pending_provider_id p = pid" for i p
  proof -
    from ipc_invD(3) [OF inv p(1)] have "pending_sender p < length (ipc_channels (sys_ipc s))"
      by (simp add: pending_ok_def)
    from chans [OF this] p have "ipc_channels st ! pending_sender p = [Inl disconnected_error]"
      by (auto simp: st_def disconnect_provider_def)
    then show ?thesis by (simp add: finish_routed_read_def channel_recv_def)
  qed
  moreover have "bt_wf (ipc_provider_routes (sys_ipc s))" by (rule ipc_invD(1) [OF inv])
  ultimately show ?thesis
    using pend assms(2) by (auto simp: st_def disconnect_provider_def has_provider_unregister)
qed

theorem disconnect_wakes_readers_witness:
  "snd (finish_routed_read 1 0 (disconnect_provider 1 (sys_ipc sample_waiting))) =
     Inl (io_error_new KBrokenPipe ''provider disconnected'')"
  using disconnect_wakes_readers [OF sample_waiting_reachable, of 1] sample_waiting_read
  by (auto dest!: spec [of _ 1])

text \<open>C13. When a connection ends, for whatever reason, every provider it still had registered is
  disconnected: it has no route, is not live, and no read is pending on it.\<close>

theorem connection_end_disconnects:
  assumes "connection_thread G c" and "env_evolves G (Some c) env" and "\<forall>s. G s \<longrightarrow> (\<exists>k. sys_reachable k s)"
    and "G s" and "sys_ipc s = w_ipc w" and "sys_clients s c = None"
    and "validate_peer (env_os env) (w_os w) c = Inr ()"
    and "handle_client_requests env c new_client w = Some (w1, client, r)"
  shows "\<exists>w'. handle_client_with_state env c w = Some (w', r) \<and>
    (\<forall>pid\<in>set (cl_registered client). pid \<noteq> 0 \<longrightarrow> bt_get (ipc_provider_routes (w_ipc w')) pid = None \<and>
       \<not> has_provider (ipc_runtime (w_ipc w')) pid \<and>
       (\<forall>i p. bt_get (ipc_pending_reads (w_ipc w')) i = Some p \<longrightarrow> pending_provider_id p \<noteq> pid))"
proof -
  let ?w' = "w1\<lparr>w_ipc := disconnect_registered_providers (cl_registered client) (w_ipc w1)\<rparr>"
  from connection_thread.requests_system [OF assms(1,2,8,4-6)] obtain s1 where "G s1" "sys_ipc s1 = w_ipc w1" by blast
  with assms(3) sys_reachable_answers(1) have "ipc_inv (w_ipc w1)" by metis
  from disconnect_registered [OF this] have "\<forall>pid\<in>set (cl_registered client). pid \<noteq> 0 \<longrightarrow>
      bt_get (ipc_provider_routes (w_ipc ?w')) pid = None \<and> \<not> has_provider (ipc_runtime (w_ipc ?w')) pid \<and>
      (\<forall>i p. bt_get (ipc_pending_reads (w_ipc ?w')) i = Some p \<longrightarrow> pending_provider_id p \<noteq> pid)" by simp
  moreover have "handle_client_with_state env c w = Some (?w', r)"
    using assms(7,8) by (simp add: handle_client_with_state_def)
  ultimately show ?thesis by blast
qed

theorem connection_end_disconnects_witness:
  "\<exists>w'. handle_client_with_state quiet_env 8 sample_incoming = Some (w', Inr ()) \<and>
     bt_get (ipc_provider_routes (w_ipc w')) 2 = None \<and> \<not> has_provider (ipc_runtime (w_ipc w')) 2"
proof -
  have rely: "peers_fixed (Some 8) provider_peers sample_system"
    using sample_system_reachable by (auto simp: peers_fixed_def sample_system_def)
  have start: "sys_ipc sample_system = w_ipc sample_incoming" "sys_clients sample_system 8 = None"
    by (simp_all add: sample_incoming_def sample_world_def sample_system_def)
  from connection_end_disconnects [OF peers_conn.connection_thread_axioms quiet_env_evolves _ rely start _ sample_requests_run]
  show ?thesis by (auto simp: peers_fixed_def validate_peer_def)
qed



section \<open>Requests\<close>

text \<open>C23. Nothing happens before the versions are negotiated: for a client that has not said hello,
  no request changes the shared state, and the only change of the client's own state is that a
  hello with exactly the daemon's protocol and API versions marks it negotiated.\<close>

theorem hello_comes_first:
  assumes "\<not> cl_negotiated client"
  shows "\<exists>w' client' r. handle_request env c client request w = Some (w', client', r) \<and> w_ipc w' = w_ipc w \<and>
    client' = (if request = Request.Hello IPC_PROTOCOL_VERSION API_VERSION then client\<lparr>cl_negotiated := True\<rparr> else client)"
proof -
  have same: "\<exists>w' r. reply_error env c code message w = (w', r) \<and> w_ipc w' = w_ipc w" for code message
    by (metis w_ipc_reply(2) prod.collapse)
  have hello: "\<exists>w' r. reply env c response w = (w', r) \<and> w_ipc w' = w_ipc w" for response
    by (metis w_ipc_reply(1) prod.collapse)
  show ?thesis
  proof (cases request)
    case (Hello v a)
    with same [of ErrorCode.VersionMismatch "''unsupported IPC protocol or API version''"]
      hello [of "Response.Hello IPC_PROTOCOL_VERSION API_VERSION"]
    show ?thesis by (auto simp: handle_request_def handle_hello_def)
  qed (use assms same in \<open>auto simp: handle_request_def Let_def split_beta\<close>)
qed

theorem hello_comes_first_witness:
  "\<exists>w' r. handle_request quiet_env 8 new_client Request.ProviderRegister sample_world = Some (w', new_client, r) \<and>
     w_ipc w' = w_ipc sample_world"
  using hello_comes_first [of new_client quiet_env 8 Request.ProviderRegister sample_world] by (auto simp: new_client_def)

text \<open>C24. Only the owner of a provider acts for it: a commit or an unregister request whose owner
  token is not the one of the provider's route leaves the shared state and the connection's list
  of providers unchanged.\<close>

theorem owner_token_required:
  assumes "\<forall>route. bt_get (ipc_provider_routes (w_ipc w)) pid = Some route \<longrightarrow> route_owner_token route \<noteq> token"
  shows "(\<forall>body. cb_provider_id body = pid \<and> cb_provider_owner_token body = token \<longrightarrow>
      w_ipc (fst (handle_promise_commit env c body w)) = w_ipc w) \<and>
    (case handle_unregister env c client pid token w of (w', client', r) \<Rightarrow> w_ipc w' = w_ipc w \<and> client' = client)"
proof -
  have refused: "\<exists>status. validate_provider_owner (w_ipc w) pid token = Inl status"
    using assms by (auto simp: validate_provider_owner_def split: option.split)
  then have "w_ipc (fst (handle_promise_commit env c body w)) = w_ipc w"
    if "cb_provider_id body = pid" "cb_provider_owner_token body = token" for body
    using that by (auto simp: handle_promise_commit_def provider_id_from_raw_def)
  moreover from refused have "case handle_unregister env c client pid token w of
      (w', client', r) \<Rightarrow> w_ipc w' = w_ipc w \<and> client' = client"
    by (auto simp: handle_unregister_def provider_id_from_raw_def dest: replyD split: prod.splits)
  ultimately show ?thesis by blast
qed

theorem owner_token_required_witness:
  "case handle_unregister quiet_env 8 new_client 1 41 sample_world of
     (w', client', r) \<Rightarrow> w_ipc w' = w_ipc sample_world \<and> client' = new_client"
proof -
  have "\<forall>route. bt_get (ipc_provider_routes (w_ipc sample_world)) 1 = Some route \<longrightarrow> route_owner_token route \<noteq> 41"
    by (simp add: sample_world_def sample_system_def register_provider_route_def ipc_state_new_def)
  from owner_token_required [OF this, of quiet_env 8 new_client] show ?thesis by (rule conjunct2)
qed

text \<open>C11. Committing over the wire equals committing in the daemon: for a builder made with the
  client's operations, sending its nodes and replaying them into a new builder has exactly the
  effect on the runtime, and gives exactly the reply, of committing the client's builder
  itself.\<close>

theorem commit_over_wire:
  assumes "builder_reachable b" and "builder_provider_id b \<noteq> 0"
    and "validate_provider_owner (w_ipc w) (builder_provider_id b) token = Inr ()"
    and "ms_ready_for_commits (ipc_mount_status (w_ipc w))"
  shows "handle_promise_commit env c (commit_request_into_body (from_builder_with_owner_token b token)) w =
    (case commit_promise (ipc_runtime (w_ipc w)) b of
       (rt, Inl status) \<Rightarrow> reply_status_error env c status (w\<lparr>w_ipc := (w_ipc w)\<lparr>ipc_runtime := rt\<rparr>\<rparr>)
     | (rt, Inr tree) \<Rightarrow>
         (case visible_promise_path (ipc_mount_status (w_ipc w)) (tree_promise_id tree) of
            Inl status \<Rightarrow> (w\<lparr>w_ipc := (w_ipc w)\<lparr>ipc_runtime := rt\<rparr>\<rparr>, Inl (status_to_io status))
          | Inr visible \<Rightarrow>
              reply env c (Response.PromiseCommitted
                \<lparr>committed_promise_id = tree_promise_id tree, committed_visible_path = to_string_lossy visible\<rparr>)
                (w\<lparr>w_ipc := (w_ipc w)\<lparr>ipc_runtime := rt\<rparr>\<rparr>)))"
proof -
  obtain b' where b': "add_nodes (builder_new (builder_provider_id b))
       (cb_nodes (commit_request_into_body (from_builder_with_owner_token b token))) = Inr b'"
    "\<And>rt. commit_promise rt b' = commit_promise rt b"
    by (rule replayed_commit [OF assms(1)]) blast
  have "cb_provider_id (commit_request_into_body (from_builder_with_owner_token b token)) = builder_provider_id b"
    "cb_provider_owner_token (commit_request_into_body (from_builder_with_owner_token b token)) = token"
    by (simp_all add: commit_request_into_body_def from_builder_with_owner_token_def)
  with assms(2-4) b' show ?thesis
    by (auto simp: handle_promise_commit_def provider_id_from_raw_def Let_def split: prod.split sum.split)
qed

theorem commit_over_wire_witness:
  "handle_promise_commit quiet_env 7 (commit_request_into_body (from_builder_with_owner_token sample_builder 42)) sample_mounted =
     (sample_mounted\<lparr>w_ipc := (w_ipc sample_mounted)\<lparr>ipc_runtime :=
        fst (commit_promise (ipc_runtime (w_ipc sample_mounted)) sample_builder)\<rparr>\<rparr>, Inr ())"
proof -
  let ?rt = "fst (register_provider runtime_new)"
  have st: "w_ipc sample_mounted = set_mount_status (commit_ready ''/m'') (register_provider_route 1 42 7 (ipc_state_new ?rt))"
    by (simp add: sample_mounted_def sample_world_def sample_system_def)
  then have rt: "ipc_runtime (w_ipc sample_mounted) = ?rt"
    by (simp add: set_mount_status_def register_provider_route_def ipc_state_new_def)
  have "\<not> isl (snd (commit_promise ?rt sample_builder))" by code_simp
  then obtain tree where c: "commit_promise ?rt sample_builder = (fst (commit_promise ?rt sample_builder), Inr tree)"
    by (metis isl_def prod.collapse sum.exhaust_sel)
  have pid: "builder_provider_id sample_builder = 1" by code_simp
  have ok: "validate_provider_owner (w_ipc sample_mounted) (builder_provider_id sample_builder) 42 = Inr ()"
    "ms_ready_for_commits (ipc_mount_status (w_ipc sample_mounted))" "builder_provider_id sample_builder \<noteq> 0"
    by (simp_all add: st pid validate_provider_owner_def set_mount_status_def register_provider_route_def ipc_state_new_def commit_ready_def mounted_def)
  show ?thesis
    unfolding commit_over_wire [OF sample_builder_reachable ok(3,1,2)] rt
    by (subst c) (simp add: st visible_promise_path_def set_mount_status_def commit_ready_def mounted_def reply_def)
qed

end
