(* ===== verification/Wire_Properties.thy ===== *)
theory Wire_Properties
  imports Daemon_Samples
begin

text \<open>
  The properties of what crosses the process boundary: frames, the messages of provider reads,
  and the C interface on the client's side.
\<close>

section \<open>Frames\<close>

text \<open>C17. A frame that was written is read back: the bytes appended for a message are read as
  exactly that message whatever follows them, and leave what follows unread; a frame is never
  longer than its four-byte length and the one-mebibyte limit. The codec is assumed to decode
  what it encoded.\<close>

theorem frames_roundtrip:
  assumes "codec_roundtrip codec" and "write_frame vec_writer codec m out = (out', Inr ())"
  shows "\<exists>frame. out' = out @ frame \<and> length frame \<le> 4 + 1024 * 1024 \<and>
    (\<forall>rest. read_frame slice_reader codec (frame @ rest) = (rest, Inr (Some m)))"
proof -
  obtain body where body: "out' = out @ frame_bytes body" "length body \<le> unat MAX_FRAME_LEN"
    "\<And>rest. read_frame slice_reader codec (frame_bytes body @ rest) = (rest, Inr (Some m))"
    by (rule frame_roundtrip [OF assms]) blast
  then show ?thesis by (intro exI [of _ "frame_bytes body"]) (simp add: frame_bytes_def)
qed

theorem frames_roundtrip_witness:
  "read_frame slice_reader (table_codec sample_requests) ([1, 0, 0, 0, 1] @ [9, 9]) =
     ([9, 9], Inr (Some Request.ProviderRegister))"
proof -
  have "write_frame vec_writer (table_codec sample_requests) Request.ProviderRegister [] = ([1, 0, 0, 0, 1], Inr ())"
    by (simp add: write_frame_vec table_codec_def sample_requests_def frame_bytes_def) code_simp
  from frames_roundtrip [OF table_codec_roundtrip this] show ?thesis by auto
qed

text \<open>C33. A damaged frame is an error, never a message: a frame cut off anywhere after its first
  byte ends in an unexpected end of file, the end of the stream between frames is the end of the
  requests, and a length above the limit is refused without reading the body.\<close>

theorem damaged_frames_rejected:
  assumes "length body \<le> 1024 * 1024" and "0 < n" and "n < length (frame_bytes body)"
    and "length header = 4" and "1024 * 1024 < le_value header"
  shows "read_frame slice_reader codec (take n (frame_bytes body)) = ([], Inl (io_error_from KUnexpectedEof)) \<and>
    read_frame slice_reader codec [] = ([], Inr None) \<and>
    read_frame slice_reader codec (header @ rest) = (rest, Inl (invalid_data ''IPC frame exceeds maximum length''))"
proof -
  have len: "length body \<le> unat MAX_FRAME_LEN" using assms(1) by simp
  obtain b bs where h: "le_bytes 4 (length body) = b # bs" "length bs = 3" "le_value (b # bs) = length body"
    using read_frame_header [OF len] .
  have frame: "frame_bytes body = b # bs @ body" by (simp add: frame_bytes_def h(1))
  obtain n' where n: "n = Suc n'" using assms(2) by (cases n) auto
  have "read_frame slice_reader codec (b # take n' (bs @ body)) = ([], Inl (io_error_from KUnexpectedEof))"
  proof (cases "n' < 3")
    case True
    then show ?thesis using h(2) by (simp add: read_frame_def io_bind_def slice_reader_def)
  next
    case False
    with h(2) have t: "take n' (bs @ body) = bs @ take (n' - 3) body" "length (bs @ take (n' - 3) body) \<ge> 3" by simp_all
    have "n' - 3 < length body" using assms(3) False h(2) by (simp add: frame n)
    with h(2,3) len t show ?thesis
      by (simp add: read_frame_def io_bind_def slice_reader_def Let_def)
  qed
  moreover have "take n (frame_bytes body) = b # take n' (bs @ body)" by (simp add: frame n)
  moreover have "unat MAX_FRAME_LEN < le_value header" using assms(5) by simp
  ultimately show ?thesis by (simp add: read_frame_oversized [OF assms(4)] read_frame_eof)
qed


theorem damaged_frames_rejected_witness:
  "read_frame slice_reader (table_codec sample_requests) [2, 0, 0, 0, 1] = ([], Inl (io_error_from KUnexpectedEof)) \<and>
   read_frame slice_reader (table_codec sample_requests) [255, 255, 255, 255, 7] =
     ([7], Inl (invalid_data ''IPC frame exceeds maximum length''))"
proof -
  have "frame_bytes [1, 1] = [2, 0, 0, 0, 1, 1]" by code_simp
  with damaged_frames_rejected [of "[1, 1]" 5 "[255, 255, 255, 255]" "table_codec sample_requests" "[7]"]
  show ?thesis by simp
qed

section \<open>Provider reads\<close>

text \<open>C18. A provider read crosses the wire unchanged: a request that the daemon could send is
  received as the same request with its path normalised, and it passes the receiver's checks; a
  response that the provider could send is received as the same response.\<close>

theorem provider_reads_roundtrip:
  assumes "codec_roundtrip responses" and "codec_roundtrip requests"
    and "write_provider_read_request vec_writer responses request [] = (sent, Inr ())"
    and "write_provider_read_response vec_writer requests response [] = (sent', Inr ())"
  shows "(\<exists>p. normalize_relative_path (rr_relative_path request) = Inr p \<and>
      read_provider_read_request slice_reader responses sent = ([], Inr (Some (request\<lparr>rr_relative_path := p\<rparr>)))) \<and>
    read_provider_read_response slice_reader requests sent' = ([], Inr (Some response))"
proof -
  from assms(3) obtain body where b: "read_request_into_body request = Inr body"
    "write_frame vec_writer responses (Response.ProviderReadRequest body) [] = (sent, Inr ())"
    by (auto simp: write_provider_read_request_def outcome_simps)
  obtain f where "sent = [] @ frame_bytes f"
    "\<And>rest. read_frame slice_reader responses (frame_bytes f @ rest) = (rest, Inr (Some (Response.ProviderReadRequest body)))"
    by (rule frame_roundtrip [OF assms(1) b(2)]) blast
  then have r: "read_frame slice_reader responses sent = ([], Inr (Some (Response.ProviderReadRequest body)))"
    by (metis append_Nil append_Nil2)
  from assms(4) obtain body' where b': "read_response_into_body response = Inr body'"
    "write_frame vec_writer requests (Request.ProviderReadResponse body') [] = (sent', Inr ())"
    by (auto simp: write_provider_read_response_def outcome_simps)
  obtain f' where "sent' = [] @ frame_bytes f'"
    "\<And>rest. read_frame slice_reader requests (frame_bytes f' @ rest) = (rest, Inr (Some (Request.ProviderReadResponse body')))"
    by (rule frame_roundtrip [OF assms(2) b'(2)]) blast
  then have r': "read_frame slice_reader requests sent' = ([], Inr (Some (Request.ProviderReadResponse body')))"
    by (metis append_Nil append_Nil2)
  show ?thesis
    using read_request_roundtrip [OF b(1)] read_response_roundtrip [OF b'(1)]
    by (auto simp: read_provider_read_request_def read_provider_read_response_def io_bind_def r r' io_lift_def)
qed

theorem provider_reads_roundtrip_witness:
  "read_provider_read_response slice_reader (table_codec [Request.ProviderReadResponse sample_response_body]) [1, 0, 0, 0, 0] =
     ([], Inr (Some sample_response))"
proof -
  obtain body where body: "read_request_into_body sample_request = Inr body" using sample_request_ok by blast
  have frame: "frame_bytes [0] = [1, 0, 0, 0, 0]" by code_simp
  have "read_response_into_body sample_response = Inr sample_response_body"
    using sample_answer_ok(2)
    by (auto simp: read_response_into_body_def sample_response_body_def sample_response_def outcome_simps)
  then have "write_provider_read_response vec_writer (table_codec [Request.ProviderReadResponse sample_response_body])
      sample_response [] = ([1, 0, 0, 0, 0], Inr ())"
    by (simp add: write_provider_read_response_def io_bind_def io_lift_def write_frame_vec table_codec_def frame)
  moreover have "write_provider_read_request vec_writer (table_codec [Response.ProviderReadRequest body])
      sample_request [] = ([1, 0, 0, 0, 0], Inr ())"
    by (simp add: write_provider_read_request_def io_bind_def io_lift_def write_frame_vec table_codec_def frame body)
  ultimately show ?thesis
    using provider_reads_roundtrip [OF table_codec_roundtrip table_codec_roundtrip] by blast
qed

section \<open>The C interface\<close>

text \<open>C19. Whatever the read callback of a C client does (fail, report an unknown status, claim to
  have written more than it was given room for, overwrite the length of the buffer, or unwind), the
  library answers a request that
  was received with a response that the daemon accepts for exactly that request.\<close>

theorem callback_answers_are_valid:
  assumes "read_request_ok request"
    and "\<forall>q response w status response'. snd (callback q response ud w) = Some (status, response') \<longrightarrow>
      length (frs_buffer response') = length (frs_buffer response)"
  shows "validate_provider_read_response_for_request request (snd (dispatch_provider_read request callback ud w)) = Inr ()"
proof -
  have len: "rr_request_id request \<noteq> 0" "unat (rr_length request) \<le> unat MAX_PROVIDER_READ_LEN"
    using assms(1) by (simp_all add: read_request_ok_def word_le_nat_alt)
  let ?q = "\<lparr>frq_promise_id = rr_promise_id request, frq_node_id = rr_provider_node_id request,
      frq_relative_path = rr_relative_path request, frq_offset = rr_offset request, frq_length = unat (rr_length request)\<rparr>"
  let ?r = "\<lparr>frs_buffer = replicate (unat (rr_length request)) 0, frs_buffer_len = unat (rr_length request), frs_bytes_written = 0\<rparr>"
  obtain w1 r where r: "callback ?q ?r ud w = (w1, r)" by (metis surj_pair)
  have "length (frs_buffer response) = unat (rr_length request)" if "r = Some (status, response)" for status response
    using assms(2) [rule_format, of ?q ?r w status response] r that by simp
  with len r show ?thesis
    by (auto simp: dispatch_provider_read_def provider_read_error_def Let_def outcome_simps
        provider_read_status_from_ffi_def FP_defs split: option.splits)
qed

theorem callback_answers_are_valid_witness:
  "validate_provider_read_response_for_request sample_request (snd (dispatch_provider_read sample_request
     (\<lambda>_ response _ w. (w, Some (FP_OK, response\<lparr>frs_buffer_len := 100, frs_bytes_written := 50\<rparr>))) None ())) = Inr ()"
proof -
  have "read_request_ok sample_request"
    by (simp add: read_request_ok_def sample_request_def MAX_PROVIDER_READ_LEN_def)
  then show ?thesis by (rule callback_answers_are_valid) simp
qed

text \<open>C38. A buffer that passes the capacity check of the C client holds the path of any promise the
  daemon may commit: writing it succeeds, keeps the buffer's length, and leaves the path followed
  by its terminator. So the check made before the commit cannot be refuted after it.\<close>

theorem committed_path_fits:
  assumes "utf8_valid mount_path" and "CHR 0x00 \<notin> set mount_path" and "commit_path_capacity_fits mount_path (length buf)"
  shows "\<exists>buf'. write_c_string buf (to_string_lossy (path_join mount_path (promise_name i))) = Inr buf' \<and>
    length buf' = length buf \<and> takeWhile (\<lambda>c. c \<noteq> CHR 0x00) buf' = path_join mount_path (promise_name i)"
proof -
  let ?p = "path_join mount_path (promise_name i)" and ?q = "path_join mount_path ''promise-18446744073709551615''"
  have rel: "\<not> path_is_absolute (promise_name i)" "\<not> path_is_absolute ''promise-18446744073709551615''"
    by (simp_all add: path_is_absolute_def promise_name_def)
  have ascii: "\<forall>c\<in>set (promise_name i). (of_char c :: nat) < 128" using promise_name_ascii by blast
  have valid: "utf8_valid ?p"
    using utf8_valid_append_ascii [OF ascii] utf8_valid_append_ascii [of "CHR ''/'' # promise_name i"] ascii assms(1) rel(1)
    by (simp add: path_join_def)
  have valid': "utf8_valid ?q"
    using utf8_valid_append_ascii [of "''promise-18446744073709551615''" mount_path]
      utf8_valid_append_ascii [of "''/promise-18446744073709551615''" mount_path] assms(1) rel(2)
    by (simp add: path_join_def)
  have "length ?p \<le> length ?q"
    using promise_name_length [of i] rel by (simp add: path_join_def)
  also have "length ?q < length buf"
    using assms(3) to_string_lossy_valid [OF valid'] by (simp add: commit_path_capacity_fits_def)
  finally have len: "length ?p < length buf" .
  have "CHR 0x00 \<notin> set (promise_name i)" using promise_name_ascii [of "CHR 0x00" i] by auto
  with assms(2) rel(1) have nul: "CHR 0x00 \<notin> set ?p" by (auto simp: path_join_def)
  have "write_c_string buf (to_string_lossy ?p) = Inr (copy_at buf 0 (?p @ [CHR 0x00]))"
    using len nul by (simp add: write_c_string_def to_string_lossy_valid [OF valid])
  moreover have "takeWhile (\<lambda>c. c \<noteq> CHR 0x00) (copy_at buf 0 (?p @ [CHR 0x00])) = ?p"
  proof -
    have "\<forall>c\<in>set ?p. c \<noteq> CHR 0x00" using nul by metis
    then show ?thesis by (simp add: copy_at_def takeWhile_append2)
  qed
  ultimately show ?thesis using len by (intro exI [of _ "copy_at buf 0 (?p @ [CHR 0x00])"]) (simp add: copy_at_def)
qed

theorem committed_path_fits_witness:
  "takeWhile (\<lambda>c. c \<noteq> CHR 0x00) (case write_c_string (replicate 64 CHR 0x78) (to_string_lossy (path_join ''/m'' (promise_name 7))) of
     Inr buf \<Rightarrow> buf | Inl _ \<Rightarrow> []) = path_join ''/m'' (promise_name 7)"
proof -
  have "commit_path_capacity_fits ''/m'' (length (replicate 64 CHR 0x78))" by code_simp
  moreover have "utf8_valid ''/m''" by code_simp
  ultimately show ?thesis using committed_path_fits [of "''/m''" "replicate 64 CHR 0x78" 7] by auto
qed

end
