(* ===== verification/File_Samples.thy ===== *)
theory File_Samples
  imports Daemon_Samples
begin

text \<open>
  Concrete states for the witnesses about file contents: the daemon that serves the sample
  promise, mounted at \<open>/m\<close>, and a provider that answers reads of its ten-byte file.
\<close>

section \<open>A provider that answers\<close>

definition honest_body :: "u64 \<Rightarrow> PendingRead \<Rightarrow> ProviderReadResponseBody" where
  "honest_body k p =
     (let lo = unat (rr_offset (pending_request p)); hi = lo + unat (rr_length (pending_request p)) in
      \<lparr>rsb_request_id = k, rsb_status = ProviderReadStatusBody.Ok, rsb_bytes = map (\<lambda>i. of_nat (10 + i)) [lo..<min hi 10]\<rparr>)"

definition honest_env :: "sample_world Env" where
  "honest_env = answering_env\<lparr>env_wait := (\<lambda>_ w.
     case ipc_pending_reads (w_ipc w) of
       [(k, p)] \<Rightarrow> w\<lparr>w_ipc := fst (complete_provider_read [1] (honest_body k p) (w_ipc w))\<rparr>
     | _ \<Rightarrow> w)\<rparr>"

section \<open>The daemon that serves the promise\<close>

definition served_system :: System where
  "served_system =
     (system_new sample_runtime)\<lparr>sys_ipc := set_mount_status (commit_ready ''/m'')
         (register_provider_route 1 42 7 (ipc_state_new sample_runtime)),
       sys_clients := (\<lambda>_. None)(7 \<mapsto> sample_client)\<rparr>"

definition served_world :: "bytes \<Rightarrow> sample_world World" where
  "served_world incoming = \<lparr>w_ipc = sys_ipc served_system, w_temp_counter = 0, w_os = (incoming, [])\<rparr>"

lemma honest_env_simps [simp]:
  "env_os honest_env = sample_os" "env_responses honest_env = sent_codec"
  "env_requests honest_env = table_codec sample_requests" "env_idle honest_env c w = w"
  by (simp_all add: honest_env_def)

lemma served_ipc: "sys_ipc served_system = w_ipc (served_world incoming)"
  by (simp add: served_world_def)

lemma served_simps [simp]:
  "ipc_runtime (sys_ipc served_system) = sample_runtime"
  "ipc_mount_status (sys_ipc served_system) = commit_ready ''/m''"
  "ipc_provider_routes (sys_ipc served_system) = [(1, \<lparr>route_writer = 7, route_owner_token = 42\<rparr>)]"
  "ipc_pending_reads (sys_ipc served_system) = []" "ipc_channels (sys_ipc served_system) = []"
  "ipc_next_read_request_id (sys_ipc served_system) = 1"
  by (simp_all add: served_system_def set_mount_status_def register_provider_route_def ipc_state_new_def)

lemma served_reachable: "sys_reachable 6 served_system"
proof -
  let ?s0 = "system_new runtime_new" and ?rt1 = "fst (set_cache_policy runtime_new (ReadThrough 4))"
  let ?rt2 = "fst (register_provider ?rt1)"
  let ?s1 = "on_ipc (\<lambda>st. st\<lparr>ipc_runtime := ?rt1\<rparr>) ?s0"
  let ?s2 = "?s1\<lparr>sys_clients := (sys_clients ?s1)(7 \<mapsto> new_client)\<rparr>"
  let ?s3 = "?s2\<lparr>sys_ipc := register_provider_route 1 42 7 ((sys_ipc ?s2)\<lparr>ipc_runtime := ?rt2\<rparr>),
      sys_clients := (sys_clients ?s2)(7 \<mapsto> new_client\<lparr>cl_registered := cl_registered new_client @ [1]\<rparr>)\<rparr>"
  let ?s4 = "on_ipc (\<lambda>st. st\<lparr>ipc_runtime := sample_runtime\<rparr>) ?s3"
  let ?s5 = "on_ipc (set_mount_status (commit_ready ''/m'')) ?s4"
  have "sys_step ?s0 ?s1"
    by (rule sys_step.runtime) (simp add: system_new_def ipc_state_new_def runtime_step.set_policy)
  with sys_reachable.init have 1: "sys_reachable (Suc 0) ?s1" by (rule sys_reachable.step)
  have "sys_step ?s1 ?s2" by (rule sys_step.accept) (simp add: system_new_def)
  with 1 have 2: "sys_reachable (Suc (Suc 0)) ?s2" by (rule sys_reachable.step)
  have "snd (register_provider ?rt1) = 1"
    by (simp add: register_provider_def set_cache_policy_def runtime_new_def Let_def cache_policy_validated_def
        split: sum.split)
  then have "register_provider (ipc_runtime (sys_ipc ?s2)) = (?rt2, 1)"
    by (simp add: system_new_def ipc_state_new_def prod_eq_iff)
  from reachable_registration [OF 2 _ _ this, of 7 new_client 42 7] have 3: "sys_reachable (Suc (Suc (Suc (Suc 0)))) ?s3"
    by (simp add: system_new_def)
  have "runtime_step ?rt2 sample_runtime"
    unfolding sample_runtime_def by (rule runtime_step.commit [OF sample_builder_reachable])
  then have "sys_step ?s3 ?s4" by (intro sys_step.runtime) (simp add: register_provider_route_def)
  with 3 have 4: "sys_reachable (Suc (Suc (Suc (Suc (Suc 0))))) ?s4" by (rule sys_reachable.step)
  have "sys_step ?s4 ?s5" by (rule sys_step.mount)
  with 4 have "sys_reachable (Suc (Suc (Suc (Suc (Suc (Suc 0)))))) ?s5" by (rule sys_reachable.step)
  moreover have "?s5 = served_system"
    by (simp add: served_system_def system_new_def ipc_state_new_def register_provider_route_def set_mount_status_def
        sample_client_def new_client_def)
  moreover have "Suc (Suc (Suc (Suc (Suc (Suc 0))))) = 6" by simp
  ultimately show ?thesis by metis
qed

lemma served_rely: "sample_rely served_system"
  using served_reachable by (auto simp: peers_fixed_def served_system_def)

section \<open>What the provider answers\<close>

definition honest_response :: "ProviderReadRequest \<Rightarrow> ProviderReadResponse" where
  "honest_response q =
     \<lparr>rs_request_id = rr_request_id q, rs_status = ProviderReadStatus.Ok,
      rs_bytes = map (\<lambda>i. of_nat (10 + i)) [unat (rr_offset q)..<min (unat (rr_offset q) + unat (rr_length q)) 10]\<rparr>"

lemma honest_bytes: "holds_at (sample_content key) lo (map (\<lambda>i. of_nat (10 + i)) [lo..<min hi 10])"
  by (auto simp: holds_at_def sample_content_def)

lemma honest_env_answers: "answers_honest honest_env sample_content"
  unfolding answers_honest_def
proof (intro allI impI)
  fix k response and p :: PendingRead and w :: "sample_world World"
  let ?ch = "pending_sender p" and ?w = "env_wait honest_env (pending_sender p) w"
  assume p: "bt_get (ipc_pending_reads (w_ipc w)) k = Some p" and fresh: "ipc_channels (w_ipc w) ! ?ch = []"
    and r: "Inr response \<in> set (ipc_channels (w_ipc ?w) ! ?ch)"
  have "\<exists>k'. ipc_pending_reads (w_ipc w) = [(k', p)]"
    using p r fresh by (auto simp: honest_env_def split: list.splits if_splits)
  then have pend: "ipc_pending_reads (w_ipc w) = [(k, p)]" using p by (auto split: if_splits)
  then have w: "?w = w\<lparr>w_ipc := fst (complete_provider_read [1] (honest_body k p) (w_ipc w))\<rparr>" by (simp add: honest_env_def)
  have "rs_bytes response = rsb_bytes (honest_body k p)"
    using r fresh unfolding w
  proof (cases rule: complete_provider_read_cases [of "honest_body k p" "[1]" "w_ipc w"])
    case (answered answer p')
    from answered(2) pend have p': "p' = p" by (simp split: if_splits)
    from answered(1) have "rs_bytes answer = rsb_bytes (honest_body k p)"
      by (auto simp: read_response_from_body_def read_response_validated_def outcome_simps)
    moreover have "answer_of [1] p answer = Inr response"
      using r fresh unfolding w answered(3) p'
      by (cases "?ch < length (ipc_channels (w_ipc w))") (auto simp: channel_send_def list_update_beyond)
    ultimately show ?thesis by (auto simp: answer_of_def outcome_simps split: if_splits)
  qed simp_all
  then show "holds_at (sample_content (CacheKey (rr_promise_id (pending_request p)) (rr_relative_path (pending_request p))))
      (unat (rr_offset (pending_request p))) (rs_bytes response)"
    using honest_bytes by (simp add: honest_body_def Let_def)
qed

lemma honest_routed:
  assumes "ipc_pending_reads (w_ipc w) = []" and "bt_get (ipc_provider_routes (w_ipc w)) 1 = Some route"
    and "rr_provider_id q = 1" and "read_request_into_body q = Inr body" and "unat (rr_offset q) + unat (rr_length q) \<le> 10"
  shows "route_provider_read honest_env q w =
    (w\<lparr>w_ipc := (w_ipc w)\<lparr>ipc_channels := ipc_channels (w_ipc w) @ [[Inr (honest_response q)]]\<rparr>\<rparr>, Inr (honest_response q))"
proof -
  let ?p = "\<lparr>pending_provider_id = 1, pending_request = q, pending_sender = length (ipc_channels (w_ipc w))\<rparr>"
  from assms(4) have id: "rrb_request_id body = rr_request_id q" and q: "read_request_ok q"
    by (auto simp: read_request_into_body_Inr)
  have "unat MAX_PROVIDER_READ_LEN = 262144" by (simp add: MAX_PROVIDER_READ_LEN_def)
  with q assms(5) have "read_response_from_body (honest_body (rr_request_id q) ?p) = Inr (honest_response q)"
    "validate_provider_read_response_for_request q (honest_response q) = Inr ()"
    by (auto simp: read_response_from_body_def read_response_validated_def honest_body_def honest_response_def Let_def
        read_request_ok_def outcome_simps)
  moreover have "rs_request_id (honest_response q) = rr_request_id q" by (simp add: honest_response_def)
  ultimately show ?thesis
    using assms(1-4) id
    by (simp add: route_provider_read_def route_lookup_def enter_pending_read_eq honest_env_def Let_def
        complete_provider_read_def channel_send_def remove_pending_read_def bt_remove_def finish_routed_read_def
        channel_recv_def)
qed

section \<open>Reads, listings and copies\<close>

lemma sample_node: "node_at sample_runtime ''promise-1'' ''d/f'' = Some sample_file"
  by (simp add: node_at_def sample_lookups sample_tree_def)

lemma sample_selectors [simp]:
  "node_inode sample_file = 4" "node_relative_path sample_file = ''d/f''" "node_kind sample_file = NodeKind.File"
  "node_provider_node_id sample_file = ''file''" "attr_size (node_attr sample_file) = 10"
  "node_materialized_path sample_file = None" "tree_promise_id sample_tree = ''promise-1''"
  "tree_provider_id sample_tree = 1" "tree_state sample_tree = Available"
  by (simp_all add: sample_file_def sample_tree_def node_attr_new_def)

lemma sample_file_plan:
  "plan_read sample_runtime ''promise-1'' ''d/f'' 5 3 = Inr (ReadPlan.Request (request_of sample_tree sample_file 5 3))"
proof -
  have "clip_length 10 5 3 = 3" by code_simp
  moreover have "has_provider sample_runtime 1" by (simp add: has_provider_def sample_runtime_eq)
  moreover have "cache_answer sample_runtime ''promise-1'' ''d/f'' 5 3 = None"
    by (simp add: cache_answer_def sample_chunk_size cache_read_def) (simp add: sample_runtime_eq read_cache_default_def)
  ultimately show ?thesis
    using plan_read_file [OF sample_inv sample_lookups(1,2), of 3 5] by simp
qed

lemma sample_lookup_inode: "lookup_inode sample_runtime 4 = Inr (PromiseNode ''promise-1'' sample_file)"
  using lookup_inode_iff [OF sample_inv, of 4 "''promise-1''" sample_file] sample_node
  by (simp add: sample_file_def)

lemma sample_coalesced:
  "plan_coalesced_provider_read sample_runtime (request_of sample_tree sample_file 5 3) =
     Inr \<lparr>coalesced_provider = request_of sample_tree sample_file 4 4, coalesced_response_offset = 1, coalesced_response_length = 3\<rparr>"
proof -
  have "chunk_base 5 4 = 4" "checked_add 4 (u64_of_u32 4) = Some 8" "checked_add 5 (u64_of_u32 3) = Some 8"
    "u32_try_from (min (u64_of_u32 4) (saturating_sub 10 4)) = Some 4" "u32_try_from (5 - 4) = Some 1"
    by code_simp+
  then show ?thesis
    by (simp add: plan_coalesced_provider_read_def sample_chunk_size request_of_def sample_lookups)
qed

lemma sample_fuse_plan:
  "fuse_plan_read (sys_ipc served_system) 4 5 3 = (fst (next_provider_read_request_id (sys_ipc served_system)),
     Inr (Some (FuseReadPlan.Provider (sample_request\<lparr>rr_offset := 4, rr_length := 4\<rparr>) 1 3)))"
  by (simp add: fuse_plan_read_def sample_lookup_inode sample_file_plan sample_coalesced next_provider_read_request_id_def)
    (simp add: read_request_of_plan_def request_of_def sample_request_def)

lemma sample_fuse_read: "\<exists>w'. fuse_read honest_env 4 5 3 (served_world []) = (w', Inr [15, 16, 17])"
proof -
  let ?q = "sample_request\<lparr>rr_offset := 4, rr_length := 4\<rparr>"
  let ?st = "fst (next_provider_read_request_id (sys_ipc served_system))"
  note plan = sample_fuse_plan
  have "read_request_ok ?q" by (simp add: read_request_ok_def sample_request_def MAX_PROVIDER_READ_LEN_def)
  moreover have "normalize_relative_path (rr_relative_path ?q) = Inr ''d/f''" by (simp add: sample_request_def) code_simp
  ultimately obtain body where body: "read_request_into_body ?q = Inr body" by (auto simp: read_request_into_body_Inr)
  let ?w1 = "(served_world [])\<lparr>w_ipc := ?st\<rparr>"
  let ?w2 = "?w1\<lparr>w_ipc := (w_ipc ?w1)\<lparr>ipc_channels := ipc_channels (w_ipc ?w1) @ [[Inr (honest_response ?q)]]\<rparr>\<rparr>"
  have route: "route_provider_read honest_env ?q ?w1 = (?w2, Inr (honest_response ?q))"
    by (rule honest_routed [OF _ _ _ body, where route = "\<lparr>route_writer = 7, route_owner_token = 42\<rparr>"])
      (simp_all add: next_provider_read_request_id_def sample_request_def)
  have bytes: "rs_bytes (honest_response ?q) = [14, 15, 16, 17]" "rs_status (honest_response ?q) = ProviderReadStatus.Ok"
    by (simp_all add: honest_response_def sample_request_def upt_rec)
  have "snd (record_cached_read sample_runtime ''promise-1'' ''d/f'' 4 [14, 15, 16, 17]) = Inr ()"
    by (simp add: record_cached_read_def sample_chunk_size sample_lookups u64_try_from_def checked_add_def)
  then obtain rt where "record_cached_read sample_runtime ''promise-1'' ''d/f'' 4 [14, 15, 16, 17] = (rt, Inr ())"
    by (metis prod.collapse)
  then obtain w3 where rec: "fuse_record_cached_read ?q [14, 15, 16, 17] ?w2 = (w3, Inr ())"
    by (auto simp: fuse_record_cached_read_def next_provider_read_request_id_def sample_request_def)
  have out: "provider_reply_bytes [14, 15, 16, 17] 1 3 = Inr [15, 16, 17]"
    by (simp add: provider_reply_bytes_def Let_def subslice_def)
  have "min 3 MAX_PROVIDER_READ_LEN = 3" by (simp add: MAX_PROVIDER_READ_LEN_def)
  then show ?thesis
    using plan route bytes rec out by (simp add: fuse_read_def served_world_def)
qed

definition one_entry_page :: "dir_entry list dir_add" where
  "one_entry_page buf ino offset kind name = (if buf = [] then ([(ino, offset, kind, name)], False) else (buf, True))"

lemma one_entry_page_ok: "dir_buffer_ok one_entry_page (\<lambda>buf. buf) []"
  by (simp add: dir_buffer_ok_def one_entry_page_def)

definition sample_entry :: MaterializeEntryPlan where
  "sample_entry =
     \<lparr>me_relative_path = ''d/f'', me_target_path = ''/t/f'', me_kind = NodeKind.File, me_size = 10, me_mode = 420,
      me_mtime_nsec = 0\<rparr>"

definition sample_bytes :: bytes where
  "sample_bytes = [10, 11, 12, 13, 14, 15, 16, 17, 18, 19]"

definition serving :: "IpcState \<Rightarrow> bool" where
  "serving st \<longleftrightarrow> ipc_runtime st = sample_runtime \<and> ipc_pending_reads st = [] \<and> ipc_next_read_request_id st \<noteq> 0 \<and>
     bt_get (ipc_provider_routes st) 1 = Some \<lparr>route_writer = 7, route_owner_token = 42\<rparr>"

lemma sample_chunk:
  assumes "serving (w_ipc w)"
  shows "\<exists>st. read_materialize_chunk honest_env ''promise-1'' sample_entry 0 10 w = (w\<lparr>w_ipc := st\<rparr>, Inr sample_bytes) \<and>
    ipc_runtime st = sample_runtime \<and> ipc_pending_reads st = []"
proof -
  let ?plan = "request_of sample_tree sample_file 0 10"
  have "clip_length 10 0 10 = 10" by code_simp
  moreover have "has_provider sample_runtime 1" by (simp add: has_provider_def sample_runtime_eq)
  ultimately have plan: "plan_provider_read sample_runtime ''promise-1'' ''d/f'' 0 10 = Inr ?plan"
    using plan_provider_read_file [OF sample_inv sample_lookups(1,2), of 10 0] by simp
  let ?st = "(w_ipc w)\<lparr>ipc_next_read_request_id := ipc_next_read_request_id (w_ipc w) + 1\<rparr>"
  let ?q = "read_request_of_plan (ipc_next_read_request_id (w_ipc w)) ?plan"
  have "normalize_relative_path ''d/f'' = Inr ''d/f''" by code_simp
  then obtain body where body: "read_request_into_body ?q = Inr body"
    using assms by (auto simp: read_request_into_body_Inr read_request_ok_def read_request_of_plan_def request_of_def
        serving_def MAX_PROVIDER_READ_LEN_def)
  have "rs_bytes (honest_response ?q) = sample_bytes" "rs_status (honest_response ?q) = ProviderReadStatus.Ok"
    by (simp_all add: honest_response_def read_request_of_plan_def request_of_def upt_rec sample_bytes_def)
  moreover have "route_provider_read honest_env ?q (w\<lparr>w_ipc := ?st\<rparr>) =
      ((w\<lparr>w_ipc := ?st\<rparr>)\<lparr>w_ipc := ?st\<lparr>ipc_channels := ipc_channels ?st @ [[Inr (honest_response ?q)]]\<rparr>\<rparr>, Inr (honest_response ?q))"
    using honest_routed [OF _ _ _ body, of "w\<lparr>w_ipc := ?st\<rparr>"] assms
    by (simp add: serving_def) (simp add: read_request_of_plan_def request_of_def)
  ultimately have "read_materialize_provider_chunk honest_env ?plan w =
      (w\<lparr>w_ipc := ?st\<lparr>ipc_channels := ipc_channels ?st @ [[Inr (honest_response ?q)]]\<rparr>\<rparr>, Inr sample_bytes)"
    by (simp add: read_materialize_provider_chunk_def next_provider_read_request_id_def io_bind_def io_map_err_def)
  with assms plan show ?thesis
    by (intro exI [of _ "?st\<lparr>ipc_channels := ipc_channels ?st @ [[Inr (honest_response ?q)]]\<rparr>"])
      (simp add: read_materialize_chunk_def serving_def sample_entry_def)
qed

lemma sample_copy:
  assumes "serving (w_ipc w)" and "\<And>st. report 10 (w\<lparr>w_ipc := st, w_os := (fst (w_os w), snd (w_os w) @ sample_bytes)\<rparr>) =
     (w\<lparr>w_ipc := st, w_os := (rest, snd (w_os w) @ sample_bytes)\<rparr>, Inr ())"
  shows "\<exists>st. write_chunks honest_env ''promise-1'' sample_entry f target report 0 w =
    (w\<lparr>w_ipc := st, w_os := (rest, snd (w_os w) @ sample_bytes)\<rparr>, Inr 10) \<and>
    ipc_runtime st = sample_runtime \<and> ipc_pending_reads st = []"
proof -
  from sample_chunk [OF assms(1)] obtain st where
    st: "read_materialize_chunk honest_env ''promise-1'' sample_entry 0 10 w = (w\<lparr>w_ipc := st\<rparr>, Inr sample_bytes)"
      "ipc_runtime st = sample_runtime" "ipc_pending_reads st = []" by blast
  have len: "ucast (min (me_size sample_entry - 0) (u64_of_u32 MAX_PROVIDER_READ_LEN)) = (10 :: u32)" by code_simp
  have next': "Option.bind (u64_try_from (length sample_bytes)) (checked_add 0) = Some 10" by code_simp
  have "me_size sample_entry = 10" "sample_bytes \<noteq> []" by (simp_all add: sample_entry_def sample_bytes_def)
  then have "write_chunks honest_env ''promise-1'' sample_entry f target report 0 w =
      write_chunks honest_env ''promise-1'' sample_entry f target report 10
        (w\<lparr>w_ipc := st, w_os := (rest, snd (w_os w) @ sample_bytes)\<rparr>)"
    using len st(1) next' assms(2) [of st]
    by (subst write_chunks_round) (simp add: io_bind_def io_map_err_def on_os_def)
  also have "\<dots> = (w\<lparr>w_ipc := st, w_os := (rest, snd (w_os w) @ sample_bytes)\<rparr>, Inr 10)"
    by (subst write_chunks_round) (simp add: sample_entry_def)
  finally show ?thesis using st(2,3) by blast
qed

lemma served_serving: "serving (w_ipc (served_world incoming))"
  by (simp add: serving_def served_world_def)

lemma sample_private: "private_file sample_os (\<lambda>o' _. snd o') f"
  by (simp add: private_file_def)

lemma honest_env_waits: "waits_honest honest_env (\<lambda>o' _. snd o') f sample_content"
  unfolding waits_honest_def
proof (intro conjI allI impI honest_env_answers)
  fix ch and w :: "sample_world World"
  have "ipc_runtime (fst (complete_provider_read registered body st)) = ipc_runtime st" for registered body st
    by (cases rule: complete_provider_read_cases [of body registered st]) simp_all
  then have rt: "ipc_runtime (w_ipc (env_wait honest_env ch w)) = ipc_runtime (w_ipc w)"
    by (simp add: honest_env_def split: list.split prod.split)
  then show "runtime_honest sample_content w \<Longrightarrow> runtime_honest sample_content (env_wait honest_env ch w)"
    by (simp add: runtime_honest_def)
  show "snd (w_os (env_wait honest_env ch w)) = snd (w_os w)"
    by (simp add: honest_env_def split: list.split prod.split)
qed

definition sample_target :: CreatedTarget where
  "sample_target =
     \<lparr>ct_path = ''/t/f'', ct_identity = identity_from_metadata sample_file_metadata, ct_kind = MaterializeTargetKind.File,
      ct_remove_on_cleanup = True\<rparr>"

definition sample_materialize :: MaterializeRequest where
  "sample_materialize =
     \<lparr>mreq_source_path = ''/m/promise-1/d/f'', mreq_target_dir = ''/t'', mreq_conflict_policy = MaterializeConflictPolicy.Fail\<rparr>"

definition sample_copy_plan :: MaterializePlan where
  "sample_copy_plan =
     \<lparr>mpl_promise_id = ''promise-1'', mpl_target_path = ''/t/f'', mpl_conflict_policy = MaterializeConflictPolicy.Fail,
      mpl_entries = [sample_entry]\<rparr>"

lemma sample_entry_simps [simp]:
  "me_relative_path sample_entry = ''d/f''" "me_target_path sample_entry = ''/t/f''" "me_kind sample_entry = NodeKind.File"
  "me_size sample_entry = 10"
  by (simp_all add: sample_entry_def)

lemma sample_plan_materialize: "plan_materialize sample_os (served_world incoming) sample_materialize = Some (Inr sample_copy_plan)"
proof -
  have "resolve_visible_path (commit_ready ''/m'') ''/m/promise-1/d/f'' = Inr (''promise-1'', ''d/f'')" by code_simp
  moreover have "subtree_nodes (subtree_fuel sample_tree) sample_tree ''d/f'' = Some (Inr [sample_file])" by code_simp
  moreover have "materialize_target_name ''promise-1'' sample_file = Inr ''f''" by code_simp
  moreover have "path_join ''/t'' ''f'' = ''/t/f''" by code_simp
  moreover have "plan_entry ''d/f'' ''/t/f'' sample_file = Inr sample_entry" by code_simp
  moreover have "path_is_absolute ''/t''" by code_simp
  moreover have "has_provider sample_runtime 1" by (simp add: has_provider_def sample_runtime_eq)
  ultimately show ?thesis
    by (simp add: plan_materialize_def sample_materialize_def served_world_def validate_target_dir_def sample_dir_metadata_def
        sample_lookups materialize_target_path_def sample_copy_plan_def io_error_from_def)
qed

lemma sample_report:
  "report_to_client honest_env c p (w\<lparr>w_os := ([1, 0, 0, 0, 2] @ rest, f)\<rparr>) = (w\<lparr>w_os := (rest, f)\<rparr>, Inr ())"
  by (simp add: report_to_client_def reply_def receive_def read_frame_def stream_reader_def io_bind_def io_lift_def Let_def
      table_codec_decode sample_requests_def)

definition sample_continue :: bytes where
  "sample_continue = [1, 0, 0, 0, 2] @ [1, 0, 0, 0, 2] @ [1, 0, 0, 0, 2] @ []"

lemma sample_marked:
  "\<exists>rt. mark_node_materialized sample_runtime ''promise-1'' ''d/f'' ''/t/f'' = (rt, Inr ())"
proof -
  have "normalize_relative_path ''d/f'' = Inr ''d/f''" "utf8_valid ''/t/f''" by code_simp+
  then show ?thesis
    using sample_lookups
    by (simp add: mark_node_materialized_def promise_def tree_get_def)
qed

lemma sample_write_file:
  assumes "serving (w_ipc w)" and "w_os w = ([1, 0, 0, 0, 2] @ rest, [])"
  shows "\<exists>st. write_materialized_file honest_env ''promise-1'' sample_entry MaterializeConflictPolicy.Fail
      (\<lambda>n. report_to_client honest_env 9 (at n)) w =
    (w\<lparr>w_ipc := st, w_os := (rest, sample_bytes)\<rparr>, Inr \<lparr>mfo_bytes_written = 10, mfo_target = sample_target\<rparr>) \<and>
    ipc_runtime st = sample_runtime \<and> ipc_pending_reads st = []"
proof -
  have "report_to_client honest_env 9 (at 10) (w\<lparr>w_ipc := st, w_os := (fst (w_os w), snd (w_os w) @ sample_bytes)\<rparr>) =
      (w\<lparr>w_ipc := st, w_os := (rest, snd (w_os w) @ sample_bytes)\<rparr>, Inr ())" for st
    using sample_report [where w = "w\<lparr>w_ipc := st\<rparr>"] assms(2) by simp
  from sample_copy [OF assms(1), where report = "\<lambda>n. report_to_client honest_env 9 (at n)", OF this, of 5 sample_target] obtain st where
    st: "write_chunks honest_env ''promise-1'' sample_entry 5 sample_target (\<lambda>n. report_to_client honest_env 9 (at n)) 0 w =
        (w\<lparr>w_ipc := st, w_os := (rest, sample_bytes)\<rparr>, Inr 10)" "ipc_runtime st = sample_runtime" "ipc_pending_reads st = []"
    using assms(2) by auto
  have "open_materialized_file sample_os sample_entry MaterializeConflictPolicy.Fail w =
      (w, Inr \<lparr>mft_file = 5, mft_write_target = sample_target, mft_final_path = ''/t/f'', mft_final_remove_on_cleanup = True,
        mft_replace_on_success = False\<rparr>)"
    by (simp add: open_materialized_file_def open_final_materialized_file_def open_materialize_output_def io_bind_def
        io_map_err_def on_os_def sample_target_def io_error_from_def)
  with st show ?thesis
    by (intro exI [of _ st], simp add: write_materialized_file_def io_bind_def io_map_err_def on_os_def apply_mtime_def
        finalize_materialized_file_def) (simp add: sample_target_def)
qed

lemma honest_env_evolves: "env_evolves sample_rely None honest_env"
proof -
  have "evolves sample_rely None w (env_wait honest_env ch w)" for ch and w :: "sample_world World"
  proof (cases "\<exists>k p. ipc_pending_reads (w_ipc w) = [(k, p)]")
    case True
    then obtain k p where kp: "ipc_pending_reads (w_ipc w) = [(k, p)]" by blast
    show ?thesis
      unfolding evolves_def
    proof (intro allI impI)
      fix s assume s: "sample_rely s" "sys_ipc s = w_ipc w"
      let ?s = "on_ipc (\<lambda>st. fst (complete_provider_read [1] (honest_body k p) st)) s"
      from s(1) have "sys_clients s 7 = Some sample_client" by (simp add: peers_fixed_def)
      from sys_step.answer [OF this, of "honest_body k p"] have 1: "sys_step s ?s" by (simp add: sample_client_def)
      have "sample_rely ?s" by (rule peers.own_step [OF s(1) 1]) simp
      moreover have "sys_ipc ?s = w_ipc (env_wait honest_env ch w)" using s(2) kp by (simp add: honest_env_def)
      ultimately show "\<exists>s'. sys_step\<^sup>*\<^sup>* s s' \<and> sample_rely s' \<and> sys_ipc s' = w_ipc (env_wait honest_env ch w) \<and>
          (\<forall>c. None = Some c \<longrightarrow> sys_clients s' c = sys_clients s c)" using 1 by blast
    qed
  next
    case False
    then have "env_wait honest_env ch w = w" by (simp add: honest_env_def split: list.split prod.split)
    then show ?thesis by (simp add: peers.evolves_same)
  qed
  then show ?thesis by (simp add: env_evolves_def)
qed

lemma sample_materialized:
  "\<exists>w' progress. materialize_plan honest_env sample_copy_plan (report_to_client honest_env 9) (served_world sample_continue) =
     (w', Inr progress)"
proof -
  let ?frame = "[1, 0, 0, 0, 2] :: bytes"
  let ?w1 = "(served_world [])\<lparr>w_os := (?frame @ ?frame @ [], [])\<rparr>"
  let ?p0 = "progress_new ''/t/f'' [sample_entry]"
  have start: "served_world sample_continue = (served_world [])\<lparr>w_os := (?frame @ ?frame @ ?frame @ [], [])\<rparr>"
    by (simp add: served_world_def sample_continue_def)
  have r1: "report_to_client honest_env 9 ?p0 (served_world sample_continue) = (?w1, Inr ())"
    unfolding start by (rule sample_report)
  have serving: "serving (w_ipc ?w1)" "w_os ?w1 = (?frame @ (?frame @ []), [])"
    using served_serving [of "[]"] by simp_all
  let ?before = "mc_bytes_written (mpr_counts ?p0)"
  let ?at = "\<lambda>n. update_counts (\<lambda>c. c\<lparr>mc_bytes_written := ?before + n\<rparr>) ?p0"
  from sample_write_file [OF serving, of ?at] obtain st where
    wf: "write_materialized_file honest_env ''promise-1'' sample_entry MaterializeConflictPolicy.Fail
      (\<lambda>n. report_to_client honest_env 9 (?at n)) ?w1 =
    (?w1\<lparr>w_ipc := st, w_os := (?frame @ [], sample_bytes)\<rparr>, Inr \<lparr>mfo_bytes_written = 10, mfo_target = sample_target\<rparr>)"
    and st: "ipc_runtime st = sample_runtime" by blast
  let ?p1 = "update_counts (\<lambda>c. c\<lparr>mc_files_written := mc_files_written c + 1, mc_entries_done := mc_entries_done c + 1\<rparr>) (?at 10)"
  have r2: "report_to_client honest_env 9 ?p1 (?w1\<lparr>w_ipc := st, w_os := (?frame @ [], sample_bytes)\<rparr>) =
      (?w1\<lparr>w_ipc := st, w_os := ([], sample_bytes)\<rparr>, Inr ())"
    by (rule sample_report)
  have files: "write_files honest_env ''promise-1'' MaterializeConflictPolicy.Fail (report_to_client honest_env 9) [sample_entry] ?p0 [] ?w1 =
      (?w1\<lparr>w_ipc := st, w_os := ([], sample_bytes)\<rparr>, Inr (?p1, [] @ [sample_target]))"
    unfolding write_files.simps Let_def wf
    by (simp only: prod.case sum.case r2 MaterializeFileOutcome.select_convs write_files.simps)
  obtain rt where "mark_node_materialized sample_runtime ''promise-1'' ''d/f'' ''/t/f'' = (rt, Inr ())"
    using sample_marked by blast
  with r1 files st show ?thesis
    by (simp add: materialize_plan_def sample_copy_plan_def Let_def io_bind_def io_map_err_def directory_entries_def
        file_entries_def del: append_Nil2 append_Nil append_Cons write_files.simps)
qed

definition sample_materialize_body :: MaterializeBody where
  "sample_materialize_body =
     \<lparr>mb_source_path = ''/m/promise-1/d/f'', mb_target_dir = ''/t'', mb_conflict_policy = MaterializeConflictPolicyBody.Fail\<rparr>"

end
