(* ===== verification/Target_Safety.thy ===== *)
theory Target_Safety
  imports World_Steps
begin

text \<open>
  What a materialisation leaves of the files that were there before it. A view of the file
  system gives the inode at each path, the type and the data of each inode and the inode behind
  an open file; \<open>file_system_laws\<close> states what the system calls do to it. Unless the request
  asks to overwrite, every call that changes or removes something does so to an inode that this
  operation created: the identity checks of \<open>apply_directory_metadata\<close> and
  \<open>cleanup_created_targets\<close> and the exclusive creation of \<open>open_materialize_output\<close> see to
  it, on every error path. The proofs follow the code with one triple per function.
\<close>

section \<open>Views of the file system\<close>

text \<open>A view need not cover every path: one that leaves out those with a \<open>..\<close> or a symbolic link
  on the way has no path through a directory that is empty. The data of a file are its contents
  and permissions, those of a directory its permissions; an inode without a type does not exist.\<close>

record ('w, 'd) FileView =
  fv_entry :: "'w \<Rightarrow> path \<Rightarrow> FileIdentity option"
  fv_type :: "'w \<Rightarrow> FileIdentity \<Rightarrow> FileType option"
  fv_data :: "'w \<Rightarrow> FileIdentity \<Rightarrow> 'd"
  fv_open :: "'w \<Rightarrow> fd \<Rightarrow> FileIdentity option"

text \<open>Every entry is where it was and every inode has its type and data; new ones may have come.\<close>

definition untouched :: "('w, 'd) FileView \<Rightarrow> 'w \<Rightarrow> 'w \<Rightarrow> bool" where
  "untouched v o1 o2 \<longleftrightarrow>
     (\<forall>p i. fv_entry v o1 p = Some i \<longrightarrow> fv_entry v o2 p = Some i) \<and>
     (\<forall>i t. fv_type v o1 i = Some t \<longrightarrow> fv_type v o2 i = Some t \<and> fv_data v o2 i = fv_data v o1 i) \<and>
     (\<forall>f i. fv_open v o1 f = Some i \<longrightarrow> fv_open v o2 f = Some i)"

text \<open>The same for all inodes but \<open>i\<close>.\<close>

definition only_changes :: "('w, 'd) FileView \<Rightarrow> FileIdentity \<Rightarrow> 'w \<Rightarrow> 'w \<Rightarrow> bool" where
  "only_changes v i o1 o2 \<longleftrightarrow>
     (\<forall>p j. fv_entry v o1 p = Some j \<longrightarrow> j \<noteq> i \<longrightarrow> fv_entry v o2 p = Some j) \<and>
     (\<forall>j t. fv_type v o1 j = Some t \<longrightarrow> j \<noteq> i \<longrightarrow> fv_type v o2 j = Some t \<and> fv_data v o2 j = fv_data v o1 j) \<and>
     (\<forall>f j. fv_open v o1 f = Some j \<longrightarrow> fv_open v o2 f = Some j)"

text \<open>No inode goes away or changes its type.\<close>

definition types_stay :: "('w, 'd) FileView \<Rightarrow> 'w \<Rightarrow> 'w \<Rightarrow> bool" where
  "types_stay v o1 o2 \<longleftrightarrow> (\<forall>i t. fv_type v o1 i = Some t \<longrightarrow> fv_type v o2 i = Some t)"

text \<open>Metadata identifies the inode; creating a directory or exclusively creating a file makes a
  new one; the calls on an open file change that file only; removing a path takes away the inode
  there, and changing permissions changes it unless it is a symbolic link, which is followed;
  opening a file for reading and the traffic on the sockets change nothing.\<close>

definition file_system_laws :: "'w Os \<Rightarrow> ('w, 'd) FileView \<Rightarrow> bool" where
  "file_system_laws os v \<longleftrightarrow>
     (\<forall>o' p i. fv_entry v o' p = Some i \<longrightarrow> (\<exists>t. fv_type v o' i = Some t)) \<and>
     (\<forall>o' p m. os_symlink_metadata os o' p = Inr m \<longrightarrow> fv_type v o' (identity_from_metadata m) = Some (md_type m)) \<and>
     (\<forall>o' f m. os_file_metadata os o' f = Inr m \<longrightarrow> fv_open v o' f = Some (identity_from_metadata m)) \<and>
     (\<forall>o' p mode. untouched v o' (fst (os_create_dir os p mode o')) \<and>
        (\<forall>m. snd (os_create_dir os p mode o') = Inr () \<longrightarrow>
           os_symlink_metadata os (fst (os_create_dir os p mode o')) p = Inr m \<longrightarrow>
           fv_type v o' (identity_from_metadata m) = None \<and> md_type m = FtDir)) \<and>
     (\<forall>o' p mode. untouched v o' (fst (os_open_excl os p mode o')) \<and>
        (\<forall>f. snd (os_open_excl os p mode o') = Inr f \<longrightarrow>
           (\<exists>i. fv_open v (fst (os_open_excl os p mode o')) f = Some i \<and> fv_type v o' i = None))) \<and>
     (\<forall>o' f i. fv_open v o' f = Some i \<longrightarrow>
        (\<forall>bs. only_changes v i o' (fst (os_file_write_all os f bs o'))) \<and>
        (\<forall>mode. only_changes v i o' (fst (os_file_set_permissions os f mode o'))) \<and>
        (\<forall>a b. only_changes v i o' (fst (os_futimens os f a b o')))) \<and>
     (\<forall>o' f mode. types_stay v o' (fst (os_file_set_permissions os f mode o'))) \<and>
     (\<forall>o' f a b. types_stay v o' (fst (os_futimens os f a b o'))) \<and>
     (\<forall>o' p m. os_symlink_metadata os o' p = Inr m \<longrightarrow>
        only_changes v (identity_from_metadata m) o' (fst (os_remove_file os p o')) \<and>
        only_changes v (identity_from_metadata m) o' (fst (os_remove_dir os p o'))) \<and>
     (\<forall>o' p m mode. os_symlink_metadata os o' p = Inr m \<longrightarrow> md_type m \<noteq> FtSymlink \<longrightarrow>
        only_changes v (identity_from_metadata m) o' (fst (os_set_permissions os p mode o')) \<and>
        types_stay v o' (fst (os_set_permissions os p mode o'))) \<and>
     (\<forall>o' p. untouched v o' (fst (os_open os p o'))) \<and>
     (\<forall>o' c bs. untouched v o' (fst (os_write_all os c bs o'))) \<and>
     (\<forall>o' c. untouched v o' (fst (os_flush os c o'))) \<and>
     (\<forall>o' c n. untouched v o' (fst (os_read os c n o'))) \<and>
     (\<forall>o' c n. untouched v o' (fst (os_read_exact os c n o')))"

text \<open>While a read waits, other threads and processes may add entries but leave the others alone.\<close>

definition waits_untouched :: "'w Env \<Rightarrow> ('w, 'd) FileView \<Rightarrow> bool" where
  "waits_untouched env v \<longleftrightarrow> (\<forall>ch w. untouched v (w_os w) (w_os (env_wait env ch w)))"

lemma file_system_lawsD:
  assumes "file_system_laws os v"
  shows "fv_entry v o' p = Some i \<Longrightarrow> \<exists>t. fv_type v o' i = Some t"
    and "os_symlink_metadata os o' p = Inr m \<Longrightarrow> fv_type v o' (identity_from_metadata m) = Some (md_type m)"
    and "os_file_metadata os o' f = Inr m \<Longrightarrow> fv_open v o' f = Some (identity_from_metadata m)"
    and "untouched v o' (fst (os_create_dir os p mode o'))"
    and "os_create_dir os p mode o' = (o2, Inr ()) \<Longrightarrow> os_symlink_metadata os o2 p = Inr m \<Longrightarrow>
      fv_type v o' (identity_from_metadata m) = None \<and> md_type m = FtDir"
    and "untouched v o' (fst (os_open_excl os p mode o'))"
    and "os_open_excl os p mode o' = (o2, Inr f) \<Longrightarrow> \<exists>i. fv_open v o2 f = Some i \<and> fv_type v o' i = None"
    and "fv_open v o' f = Some i \<Longrightarrow> only_changes v i o' (fst (os_file_write_all os f bs o'))"
    and "fv_open v o' f = Some i \<Longrightarrow> only_changes v i o' (fst (os_file_set_permissions os f mode o'))"
    and "fv_open v o' f = Some i \<Longrightarrow> only_changes v i o' (fst (os_futimens os f a b o'))"
    and "types_stay v o' (fst (os_file_set_permissions os f mode o'))"
    and "types_stay v o' (fst (os_futimens os f a b o'))"
    and "os_symlink_metadata os o' p = Inr m \<Longrightarrow> only_changes v (identity_from_metadata m) o' (fst (os_remove_file os p o'))"
    and "os_symlink_metadata os o' p = Inr m \<Longrightarrow> only_changes v (identity_from_metadata m) o' (fst (os_remove_dir os p o'))"
    and "os_symlink_metadata os o' p = Inr m \<Longrightarrow> md_type m \<noteq> FtSymlink \<Longrightarrow>
      only_changes v (identity_from_metadata m) o' (fst (os_set_permissions os p mode o'))"
    and "os_symlink_metadata os o' p = Inr m \<Longrightarrow> md_type m \<noteq> FtSymlink \<Longrightarrow>
      types_stay v o' (fst (os_set_permissions os p mode o'))"
    and "untouched v o' (fst (os_open os p o'))"
    and "untouched v o' (fst (os_write_all os c bs o'))"
    and "untouched v o' (fst (os_flush os c o'))"
    and "untouched v o' (fst (os_read os c n o'))"
    and "untouched v o' (fst (os_read_exact os c n o'))"
  using assms unfolding file_system_laws_def by (metis fst_conv snd_conv)+

interpretation untouched: step_preorder "untouched v" for v
  by unfold_locales (simp add: untouched_def, unfold untouched_def, metis)

text \<open>Changing an inode that is new relative to \<open>o0\<close>.\<close>

lemma untouched_new:
  assumes "file_system_laws os v" and "untouched v o0 o1" and "only_changes v i o1 o2" and "fv_type v o0 i = None"
  shows "untouched v o0 o2"
proof -
  have "j \<noteq> i" if "fv_entry v o0 p = Some j" for p j
    using file_system_lawsD(1) [OF assms(1) that] assms(4) by auto
  then have 1: "fv_entry v o2 p = Some j" if "fv_entry v o0 p = Some j" for p j
    using that assms(2,3) unfolding untouched_def only_changes_def by blast
  have "j \<noteq> i" if "fv_type v o0 j = Some t" for j t
    using that assms(4) by auto
  then have 2: "fv_type v o2 j = Some t \<and> fv_data v o2 j = fv_data v o0 j" if "fv_type v o0 j = Some t" for j t
    using that assms(2,3) unfolding untouched_def only_changes_def by simp
  have "fv_open v o2 f = Some j" if "fv_open v o0 f = Some j" for f j
    using that assms(2,3) unfolding untouched_def only_changes_def by blast
  with 1 2 show ?thesis by (simp add: untouched_def)
qed

lemma untouched_missing: "untouched v o0 o1 \<Longrightarrow> fv_type v o1 i = None \<Longrightarrow> fv_type v o0 i = None"
  by (cases "fv_type v o0 i") (auto simp: untouched_def)

lemma untouched_types_stay: "untouched v o1 o2 \<Longrightarrow> types_stay v o1 o2"
  by (simp add: untouched_def types_stay_def)

section \<open>Computations that leave all files alone\<close>

definition leaves :: "('w, 'd) FileView \<Rightarrow> 'w World \<Rightarrow> 'w World \<Rightarrow> bool" where
  "leaves v w w' \<longleftrightarrow> untouched v (w_os w) (w_os w')"

interpretation leaves: step_preorder "leaves v" for v
  by unfold_locales (auto simp: leaves_def intro: untouched.refl untouched.trans)

lemma leaves_on_os:
  "(\<And>o'. untouched v o' (fst (call o'))) \<Longrightarrow> obeys (leaves v) (on_os call)"
  by (simp add: obeys_def leaves_def on_os_def split: prod.split) (metis fst_conv)

lemma untouched_frames:
  assumes "file_system_laws os v"
  shows "obeys (untouched v) (write_frame (stream_writer os c) codec m)"
    and "obeys (untouched v) (read_frame (stream_reader os c) codec')"
proof -
  note laws = file_system_lawsD [OF assms]
  have "obeys (untouched v) (os_write_all os c bs)" "obeys (untouched v) (os_flush os c)"
    "obeys (untouched v) (os_read os c n)" "obeys (untouched v) (os_read_exact os c n)" for bs n
    using laws(18-21) by (simp_all add: obeys_def)
  note calls = this
  show "obeys (untouched v) (write_frame (stream_writer os c) codec m)"
    unfolding write_frame_def stream_writer_def Writer.simps by (intro thread_intros calls)
  show "obeys (untouched v) (read_frame (stream_reader os c) codec')"
    unfolding read_frame_def stream_reader_def Reader.simps by (intro thread_intros calls)
qed

lemma leaves_replies:
  assumes "file_system_laws (env_os env) v"
  shows "obeys (leaves v) (reply env c response)" and "obeys (leaves v) (reply_status_error env c status)"
    and "obeys (leaves v) (receive env c)" and "obeys (leaves v) (report_to_client env c progress)"
proof -
  note frames = untouched.obeysD [OF untouched_frames(1) [OF assms]] untouched.obeysD [OF untouched_frames(2) [OF assms]]
  show 1: "obeys (leaves v) (reply env c response)" for response
    by (auto simp: obeys_def leaves_def reply_def dest: frames(1) split: prod.split)
  show "obeys (leaves v) (reply_status_error env c status)"
    by (auto simp: obeys_def leaves_def reply_status_error_def write_status_error_def write_error_def
        dest: frames(1) split: prod.split)
  show 2: "obeys (leaves v) (receive env c)"
    by (auto simp: obeys_def leaves_def receive_def dest: frames(2) split: prod.split)
  show "obeys (leaves v) (report_to_client env c progress)"
  proof (rule leaves.obeysI)
    fix w w' r assume "report_to_client env c progress w = (w', r)"
    then show "leaves v w w'"
      unfolding report_to_client_def
      by (auto intro: leaves.trans leaves.obeysD [OF 1] leaves.obeysD [OF 2]
          split: prod.splits sum.splits option.splits Request.splits)
  qed
qed

lemma leaves_route:
  assumes "file_system_laws (env_os env) v" and "waits_untouched env v"
  shows "obeys (leaves v) (route_provider_read env request)"
proof (rule leaves.obeysI)
  fix w w' r assume m: "route_provider_read env request w = (w', r)"
  show "leaves v w w'"
  proof (cases "res_bind (read_request_into_body request) (\<lambda>body.
      res_bind (route_lookup (w_ipc w) request) (\<lambda>route. Inr (body, route)))")
    case (Inl e)
    with m show ?thesis by (auto simp: route_provider_read_def intro: leaves.refl)
  next
    case (Inr br)
    obtain body route where br: "br = (body, route)" by (cases br)
    obtain st e where en: "enter_pending_read request (w_ipc w) = (st, e)" by (metis surj_pair)
    obtain o1 wr where wr: "write_frame (stream_writer (env_os env) (route_writer route)) (env_responses env)
        (Response.ProviderReadRequest body) (w_os w) = (o1, wr)" by (metis surj_pair)
    have 1: "untouched v (w_os w) o1" by (rule untouched.obeysD [OF untouched_frames(1) [OF assms(1)] wr])
    have "untouched v o1 (w_os (env_wait env ch (w\<lparr>w_ipc := st, w_os := o1\<rparr>)))" for ch
      using assms(2) [unfolded waits_untouched_def, rule_format, of "w\<lparr>w_ipc := st, w_os := o1\<rparr>" ch] by simp
    note 2 = untouched.trans [OF 1 this]
    show ?thesis
      using m Inr br en wr 1 2
      by (auto simp: route_provider_read_def leaves_def Let_def intro: untouched.refl split: sum.splits prod.splits)
  qed
qed

lemma leaves_chunk:
  assumes "file_system_laws (env_os env) v" and "waits_untouched env v"
  shows "obeys (leaves v) (read_materialize_chunk env promise_id entry offset len)"
proof -
  have provider: "obeys (leaves v) (read_materialize_provider_chunk env plan)" for plan
  proof (rule leaves.obeysI)
    fix w w' r assume m: "read_materialize_provider_chunk env plan w = (w', r)"
    obtain st rid where t: "next_provider_read_request_id (w_ipc w) = (st, rid)" by (metis surj_pair)
    obtain w1 x where x: "route_provider_read env (read_request_of_plan rid plan) (w\<lparr>w_ipc := st\<rparr>) = (w1, x)"
      by (metis surj_pair)
    from leaves.obeysD [OF leaves_route [OF assms] x] have "leaves v w w1" by (simp add: leaves_def)
    moreover have "w' = w1"
      using m t x by (auto simp: read_materialize_provider_chunk_def io_bind_def io_map_err_def split: sum.splits if_splits)
    ultimately show "leaves v w w'" by simp
  qed
  have "obeys (leaves v) (on_os (os_open (env_os env) p))" for p
    by (rule leaves_on_os) (rule file_system_lawsD(17) [OF assms(1)])
  moreover have "obeys (leaves v) (on_os (\<lambda>o'. (o', g o')))" for g
    by (rule leaves_on_os) (simp add: untouched.refl)
  ultimately have local: "obeys (leaves v) (read_local_materialized_chunk (env_os env) p i n)" for p i n
    unfolding read_local_materialized_chunk_def by (intro thread_intros)
  show ?thesis
  proof (rule leaves.obeysI)
    fix w w' r assume "read_materialize_chunk env promise_id entry offset len w = (w', r)"
    then show "leaves v w w'"
      unfolding read_materialize_chunk_def
      by (auto intro: leaves.refl leaves.obeysD [OF provider] leaves.obeysD [OF local]
          split: sum.splits if_splits ReadPlan.splits)
  qed
qed

lemma leaves_mark_entries: "obeys (leaves v) (mark_entries promise_id entries progress created)"
proof (induction entries)
  case Nil
  show ?case by (simp add: obeys_def leaves.refl)
next
  case (Cons entry entries)
  have "leaves v w (fst (mark_entries promise_id entries progress created (w\<lparr>w_ipc := st\<rparr>)))" for w st
    using Cons [unfolded obeys_def, rule_format, of "w\<lparr>w_ipc := st\<rparr>"] by (simp add: leaves_def)
  then show ?case
    by (auto simp: obeys_def leaves_def untouched.refl split: prod.split sum.split)
qed

section \<open>Triples\<close>

text \<open>From a world with \<open>P\<close> the computation returns to one with \<open>Q\<close>, or fails in one with \<open>E\<close>.\<close>

definition triple ::
    "('s \<Rightarrow> bool) \<Rightarrow> ('s \<Rightarrow> 's \<times> ('e + 'a)) \<Rightarrow> ('a \<Rightarrow> 's \<Rightarrow> bool) \<Rightarrow> ('e \<Rightarrow> 's \<Rightarrow> bool) \<Rightarrow> bool" where
  "triple P m Q E \<longleftrightarrow> (\<forall>s. P s \<longrightarrow> (case m s of (s', Inl e) \<Rightarrow> E e s' | (s', Inr x) \<Rightarrow> Q x s'))"

named_theorems triple_intros

lemma tripleI:
  "(\<And>s s' x. P s \<Longrightarrow> m s = (s', Inr x) \<Longrightarrow> Q x s') \<Longrightarrow> (\<And>s s' e. P s \<Longrightarrow> m s = (s', Inl e) \<Longrightarrow> E e s') \<Longrightarrow>
   triple P m Q E"
  by (auto simp: triple_def split: prod.split sum.split)

lemma tripleD:
  assumes "triple P m Q E" and "P s"
  shows "m s = (s', Inr x) \<Longrightarrow> Q x s'" and "m s = (s', Inl e) \<Longrightarrow> E e s'"
  using assms by (auto simp: triple_def dest!: spec [of _ s])

lemma triple_weaken:
  "triple P m Q E \<Longrightarrow> (\<And>s. P' s \<Longrightarrow> P s) \<Longrightarrow> (\<And>x s. Q x s \<Longrightarrow> Q' x s) \<Longrightarrow> (\<And>e s. E e s \<Longrightarrow> E' e s) \<Longrightarrow>
   triple P' m Q' E'"
  unfolding triple_def by (fastforce split: prod.splits sum.splits)

lemma triple_bind [triple_intros]:
  "triple P m M E \<Longrightarrow> (\<And>x. triple (M x) (f x) Q E) \<Longrightarrow> triple P (io_bind m f) Q E"
  unfolding triple_def io_bind_def by (fastforce split: prod.splits sum.splits)

lemma triple_map_err [triple_intros]: "triple P m Q (\<lambda>e. E (g e)) \<Longrightarrow> triple P (io_map_err g m) Q E"
  unfolding triple_def io_map_err_def map_err_def by (fastforce split: prod.splits sum.splits)

lemma triple_return [triple_intros]: "(\<And>s. P s \<Longrightarrow> Q x s) \<Longrightarrow> triple P (io_return x) Q E"
  by (simp add: triple_def)

lemma triple_fail [triple_intros]: "(\<And>s. P s \<Longrightarrow> E e s) \<Longrightarrow> triple P (io_fail e) Q E"
  by (simp add: triple_def)

lemma triple_if [triple_intros]:
  "(b \<Longrightarrow> triple P m Q E) \<Longrightarrow> (\<not> b \<Longrightarrow> triple P m' Q E) \<Longrightarrow> triple P (if b then m else m') Q E"
  by simp

lemma triple_case_prod [triple_intros]:
  "(\<And>a b. p = (a, b) \<Longrightarrow> triple P (f a b) Q E) \<Longrightarrow> triple P (case p of (a, b) \<Rightarrow> f a b) Q E"
  by (cases p) simp

lemma triple_pure: "(b \<Longrightarrow> triple P m Q E) \<Longrightarrow> triple (\<lambda>s. P s \<and> b) m Q E"
  by (simp add: triple_def)

section \<open>Writing only to new files\<close>

text \<open>What was in \<open>o0\<close> is untouched; moreover the open file \<open>f\<close> is the new inode \<open>i\<close>; the
  targets of a list are all new, and the directories among them are still there.\<close>

definition kept :: "('w, 'd) FileView \<Rightarrow> 'w \<Rightarrow> 'w World \<Rightarrow> bool" where
  "kept v o0 w \<longleftrightarrow> untouched v o0 (w_os w)"

definition writes_to :: "('w, 'd) FileView \<Rightarrow> 'w \<Rightarrow> fd \<Rightarrow> FileIdentity \<Rightarrow> 'w World \<Rightarrow> bool" where
  "writes_to v o0 f i w \<longleftrightarrow> kept v o0 w \<and> fv_open v (w_os w) f = Some i \<and> fv_type v o0 i = None"

definition created_target :: "('w, 'd) FileView \<Rightarrow> 'w \<Rightarrow> 'w \<Rightarrow> CreatedTarget \<Rightarrow> bool" where
  "created_target v o0 o' t \<longleftrightarrow> fv_type v o0 (ct_identity t) = None \<and>
     (ct_kind t = MaterializeTargetKind.Directory \<longrightarrow> fv_type v o' (ct_identity t) = Some FtDir)"

definition made :: "('w, 'd) FileView \<Rightarrow> 'w \<Rightarrow> CreatedTarget list \<Rightarrow> 'w World \<Rightarrow> bool" where
  "made v o0 created w \<longleftrightarrow> kept v o0 w \<and> list_all (created_target v o0 (w_os w)) created"

lemma triple_leaves:
  assumes "obeys (leaves v) m" and "\<And>w w'. P w \<Longrightarrow> leaves v w w' \<Longrightarrow> P w'"
  shows "triple P m (\<lambda>_. P) (\<lambda>_. P)"
  using assms(2) leaves.obeysD [OF assms(1)] by (blast intro: tripleI)

lemma kept_leaves: "kept v o0 w \<Longrightarrow> leaves v w w' \<Longrightarrow> kept v o0 w'"
  by (auto simp: kept_def leaves_def intro: untouched.trans)

lemma writes_to_leaves: "writes_to v o0 f i w \<Longrightarrow> leaves v w w' \<Longrightarrow> writes_to v o0 f i w'"
  by (auto simp: writes_to_def intro: kept_leaves) (simp add: leaves_def untouched_def)

lemma created_targets_stay:
  "list_all (created_target v o0 o1) created \<Longrightarrow> types_stay v o1 o2 \<Longrightarrow> list_all (created_target v o0 o2) created"
  by (auto simp: list_all_iff created_target_def types_stay_def)

lemma made_leaves: "made v o0 created w \<Longrightarrow> leaves v w w' \<Longrightarrow> made v o0 created w'"
  by (auto simp: made_def intro: kept_leaves) (auto simp: leaves_def intro: created_targets_stay untouched_types_stay)

lemma triple_file_call:
  assumes laws: "file_system_laws os v" and call: "\<And>o'. fv_open v o' f = Some i \<Longrightarrow> only_changes v i o' (fst (call o'))"
  shows "triple (writes_to v o0 f i) (on_os call) (\<lambda>_. writes_to v o0 f i) (\<lambda>_. writes_to v o0 f i)"
proof -
  have "writes_to v o0 f i (fst (on_os call w))" if "writes_to v o0 f i w" for w
  proof -
    from that have w: "untouched v o0 (w_os w)" "fv_open v (w_os w) f = Some i" "fv_type v o0 i = None"
      by (simp_all add: writes_to_def kept_def)
    note o = call [OF w(2)]
    then have "fv_open v (fst (call (w_os w))) f = Some i" using w(2) unfolding only_changes_def by blast
    moreover have "w_os (fst (on_os call w)) = fst (call (w_os w))" by (simp add: on_os_def split: prod.split)
    ultimately show ?thesis
      using untouched_new [OF laws w(1) o w(3)] w(3) by (simp add: writes_to_def kept_def)
  qed
  note keep = this
  have "writes_to v o0 f i w'" if "writes_to v o0 f i w" "on_os call w = (w', r)" for w w' r
    using keep [OF that(1)] that(2) by simp
  then show ?thesis by (blast intro: tripleI)
qed

lemma triple_file_calls:
  assumes "file_system_laws os v"
  shows "triple (writes_to v o0 f i) (on_os (os_file_write_all os f bs)) (\<lambda>_. writes_to v o0 f i) (\<lambda>_. writes_to v o0 f i)"
    and "triple (writes_to v o0 f i) (on_os (os_file_set_permissions os f mode)) (\<lambda>_. writes_to v o0 f i) (\<lambda>_. writes_to v o0 f i)"
    and "triple (writes_to v o0 f i) (apply_mtime os f mtime) (\<lambda>_. writes_to v o0 f i) (\<lambda>_. writes_to v o0 f i)"
  unfolding apply_mtime_def
  by (rule triple_file_call [OF assms], erule file_system_lawsD(8) [OF assms],
      rule triple_file_call [OF assms], erule file_system_lawsD(9) [OF assms],
      rule triple_file_call [OF assms], erule file_system_lawsD(10) [OF assms])

lemma on_os_result:
  assumes "on_os call w = (w', r)"
  obtains o' x where "call (w_os w) = (o', x)" "w' = w\<lparr>w_os := o'\<rparr>" "r = map_err io_error_to_status x"
  using assms by (auto simp: on_os_def split: prod.splits)

lemma triple_open_excl:
  assumes "file_system_laws os v"
  shows "triple (kept v o0) (on_os (os_open_excl os p mode)) (\<lambda>f w. \<exists>i. writes_to v o0 f i w) (\<lambda>_. kept v o0)"
proof -
  have "kept v o0 w' \<and> (\<forall>f. r = Inr f \<longrightarrow> (\<exists>i. writes_to v o0 f i w'))"
    if k: "kept v o0 w" and call: "on_os (os_open_excl os p mode) w = (w', r)" for w w' r
  proof -
    obtain o2 x where o2: "os_open_excl os p mode (w_os w) = (o2, x)" "w' = w\<lparr>w_os := o2\<rparr>" "r = map_err io_error_to_status x"
      by (rule on_os_result [OF call])
    have "untouched v (w_os w) o2" using file_system_lawsD(6) [OF assms, of "w_os w" p mode] o2(1) by simp
    with k have k': "untouched v o0 o2" unfolding kept_def by (rule untouched.trans)
    have "\<exists>i. fv_open v o2 f = Some i \<and> fv_type v o0 i = None" if "x = Inr f" for f
      using file_system_lawsD(7) [OF assms o2(1) [unfolded that]] untouched_missing [OF k [unfolded kept_def]] by blast
    then have "\<exists>i. writes_to v o0 f i w'" if "r = Inr f" for f
      using that k' by (simp add: o2(2,3) kept_def writes_to_def outcome_simps)
    with k' show ?thesis by (simp add: o2(2) kept_def)
  qed
  note call = this
  show ?thesis
  proof (rule tripleI)
    fix w w' f
    assume "kept v o0 w" and "on_os (os_open_excl os p mode) w = (w', Inr f)"
    from call [OF this] show "\<exists>i. writes_to v o0 f i w'" by simp
  next
    fix w w' e
    assume "kept v o0 w" and "on_os (os_open_excl os p mode) w = (w', Inl e)"
    from call [OF this] show "kept v o0 w'" by simp
  qed
qed

lemma triple_file_metadata:
  assumes "file_system_laws os v"
  shows "triple (\<lambda>w. \<exists>i. writes_to v o0 f i w) (on_os (\<lambda>o'. (o', os_file_metadata os o' f)))
    (\<lambda>m. writes_to v o0 f (identity_from_metadata m)) (\<lambda>_. kept v o0)"
proof (rule tripleI)
  fix w w' m
  assume "\<exists>i. writes_to v o0 f i w" and "on_os (\<lambda>o'. (o', os_file_metadata os o' f)) w = (w', Inr m)"
  then show "writes_to v o0 f (identity_from_metadata m) w'"
    using file_system_lawsD(3) [OF assms, of "w_os w" f m]
    by (auto simp: on_os_def outcome_simps writes_to_def kept_def)
qed (auto simp: on_os_def writes_to_def kept_def)

lemma triple_open_output:
  assumes "file_system_laws os v"
  shows "triple (kept v o0) (open_materialize_output os p) (\<lambda>(f, i). writes_to v o0 f i)
    (\<lambda>e w. kept v o0 w \<and> mwe_target e = None)"
proof -
  have 1: "triple (kept v o0) (io_map_err without_created_target (on_os (os_open_excl os p 384)))
      (\<lambda>f w. \<exists>i. writes_to v o0 f i w) (\<lambda>e w. kept v o0 w \<and> mwe_target e = None)"
    by (rule triple_map_err, rule triple_weaken [OF triple_open_excl [OF assms]])
      (simp_all add: without_created_target_def)
  have 2: "triple (\<lambda>w. \<exists>i. writes_to v o0 f i w)
      (io_map_err without_created_target (on_os (\<lambda>o'. (o', os_file_metadata os o' f))))
      (\<lambda>m. writes_to v o0 f (identity_from_metadata m)) (\<lambda>e w. kept v o0 w \<and> mwe_target e = None)" for f
    by (rule triple_map_err, rule triple_weaken [OF triple_file_metadata [OF assms]])
      (simp_all add: without_created_target_def)
  show ?thesis
    unfolding open_materialize_output_def
    by (rule triple_bind [OF 1], rule triple_bind [OF 2], rule triple_return) simp
qed

lemma triple_open_file:
  assumes "file_system_laws os v" and "policy \<noteq> MaterializeConflictPolicy.Overwrite"
  shows "triple (kept v o0) (open_materialized_file os entry policy)
    (\<lambda>t w. writes_to v o0 (mft_file t) (ct_identity (mft_write_target t)) w \<and>
      (\<not> mft_replace_on_success t \<and> ct_kind (mft_write_target t) = MaterializeTargetKind.File))
    (\<lambda>e w. kept v o0 w \<and> mwe_target e = None)"
proof -
  have final: "triple (kept v o0) (open_final_materialized_file os entry remove)
      (\<lambda>t w. writes_to v o0 (mft_file t) (ct_identity (mft_write_target t)) w \<and>
      (\<not> mft_replace_on_success t \<and> ct_kind (mft_write_target t) = MaterializeTargetKind.File))
      (\<lambda>e w. kept v o0 w \<and> mwe_target e = None)" for remove
    unfolding open_final_materialized_file_def
    by (rule triple_bind [OF triple_open_output [OF assms(1)]], rule triple_case_prod, rule triple_return) simp
  have "open_materialized_file os entry policy w = open_final_materialized_file os entry True w \<or>
      (\<exists>s. open_materialized_file os entry policy w = (w, Inl (without_created_target s)))" for w
    using assms(2) unfolding open_materialized_file_def
    by (cases "os_symlink_metadata os (w_os w) (me_target_path entry)"; cases policy;
        cases "validate_existing_materialize_target entry (projr (os_symlink_metadata os (w_os w) (me_target_path entry))) policy")
      (auto simp: map_ok_def map_err_def)
  note open_cases = this
  have "case open_materialized_file os entry policy w of
      (w', Inl e) \<Rightarrow> kept v o0 w' \<and> mwe_target e = None
    | (w', Inr t) \<Rightarrow> writes_to v o0 (mft_file t) (ct_identity (mft_write_target t)) w' \<and>
        (\<not> mft_replace_on_success t \<and> ct_kind (mft_write_target t) = MaterializeTargetKind.File)"
    if "kept v o0 w" for w
    using open_cases [of w] final [of True, unfolded triple_def, rule_format, OF that] that
    by (elim disjE exE) (simp_all add: without_created_target_def)
  then show ?thesis by (simp add: triple_def)
qed

text \<open>The error of a write names a new file, if any.\<close>

definition write_failed :: "('w, 'd) FileView \<Rightarrow> 'w \<Rightarrow> MaterializeWriteError \<Rightarrow> 'w World \<Rightarrow> bool" where
  "write_failed v o0 e w \<longleftrightarrow>
     kept v o0 w \<and> (\<forall>t. mwe_target e = Some t \<longrightarrow>
       fv_type v o0 (ct_identity t) = None \<and> ct_kind t = MaterializeTargetKind.File)"

lemma triple_with_target:
  assumes "ct_kind target = MaterializeTargetKind.File"
    and "triple (writes_to v o0 f (ct_identity target)) m Q (\<lambda>_. writes_to v o0 f (ct_identity target))"
  shows "triple (writes_to v o0 f (ct_identity target)) (io_map_err (\<lambda>status. with_target status target offset) m) Q
    (write_failed v o0)"
  by (rule triple_map_err, rule triple_weaken [OF assms(2)])
    (use assms(1) in \<open>simp_all add: write_failed_def with_target_def writes_to_def\<close>)

lemma triple_write_chunks:
  assumes "file_system_laws (env_os env) v" and "waits_untouched env v" and "\<And>n. obeys (leaves v) (report n)"
    and is_file: "ct_kind target = MaterializeTargetKind.File"
  shows "triple (writes_to v o0 f (ct_identity target))
    (write_chunks env promise_id entry f target report offset)
    (\<lambda>_. writes_to v o0 f (ct_identity target)) (write_failed v o0)"
proof (induction "unat (me_size entry) - unat offset" arbitrary: offset rule: less_induct)
  case less
  let ?W = "writes_to v o0 f (ct_identity target)"
  have fail: "triple ?W (io_fail (with_target status target offset)) Q (write_failed v o0)" for status Q
    by (rule triple_fail) (simp add: write_failed_def with_target_def writes_to_def is_file)
  note read = triple_with_target [OF is_file triple_leaves [OF leaves_chunk [OF assms(1,2)] writes_to_leaves]]
  note writing = triple_with_target [OF is_file triple_file_calls(1) [OF assms(1)]]
  note progress = triple_with_target [OF is_file triple_leaves [OF assms(3) writes_to_leaves]]
  have rest: "triple ?W (write_chunks env promise_id entry f target report offset') (\<lambda>_. ?W) (write_failed v o0)"
    if "offset < me_size entry" "bytes \<noteq> []"
      "Option.bind (u64_try_from (length bytes)) (checked_add offset) = Some offset'" for bytes :: bytes and offset'
    using that by (intro less chunk_measure)
  have tail: "triple ?W (case Option.bind (u64_try_from (length bytes)) (checked_add offset) of
        None \<Rightarrow> io_fail (with_target Status.InvalidArgument target offset)
      | Some offset' \<Rightarrow>
          io_bind (io_map_err (\<lambda>status. with_target status target offset') (report offset')) (\<lambda>_.
          write_chunks env promise_id entry f target report offset')) (\<lambda>_. ?W) (write_failed v o0)"
    if "offset < me_size entry" "bytes \<noteq> []" for bytes :: bytes
  proof (cases "Option.bind (u64_try_from (length bytes)) (checked_add offset)")
    case (Some offset')
    from triple_bind [OF progress rest [OF that Some]] Some show ?thesis by simp
  qed (simp add: fail)
  show ?case
    unfolding write_chunks_round [of env promise_id entry f target report offset]
    by (intro triple_if triple_bind [OF read] triple_bind [OF writing] tail fail) (simp_all add: triple_return)
qed

lemma triple_write_file:
  assumes "file_system_laws (env_os env) v" and "waits_untouched env v" and "\<And>n. obeys (leaves v) (report n)"
    and "policy \<noteq> MaterializeConflictPolicy.Overwrite"
  shows "triple (kept v o0) (write_materialized_file env promise_id entry policy report)
    (\<lambda>outcome. made v o0 [mfo_target outcome]) (write_failed v o0)"
proof -
  let ?W = "\<lambda>t. writes_to v o0 (mft_file t) (ct_identity (mft_write_target t))"
  have opened: "triple (kept v o0) (open_materialized_file (env_os env) entry policy)
      (\<lambda>t w. ?W t w \<and> (\<not> mft_replace_on_success t \<and> ct_kind (mft_write_target t) = MaterializeTargetKind.File))
      (write_failed v o0)"
    by (rule triple_weaken [OF triple_open_file [OF assms(1,4)]]) (auto simp: write_failed_def)
  have final: "triple (?W t) (finalize_materialized_file (env_os env) (mft_write_target t) (mft_final_path t)
      (mft_final_remove_on_cleanup t) (mft_replace_on_success t) n) (\<lambda>target. made v o0 [target]) (write_failed v o0)"
    if "\<not> mft_replace_on_success t" for t n
    unfolding finalize_materialized_file_def using that
    by (simp add: io_bind_def triple_def made_def writes_to_def created_target_def)
  have "triple (?W t)
     (io_bind (write_chunks env promise_id entry (mft_file t) (mft_write_target t) report 0) (\<lambda>offset.
      io_bind (io_map_err (\<lambda>status. with_target status (mft_write_target t) offset)
        (on_os (os_file_set_permissions (env_os env) (mft_file t) (me_mode entry AND 4095)))) (\<lambda>_.
      io_bind (io_map_err (\<lambda>status. with_target status (mft_write_target t) offset)
        (apply_mtime (env_os env) (mft_file t) (me_mtime_nsec entry))) (\<lambda>_.
      io_bind (finalize_materialized_file (env_os env) (mft_write_target t) (mft_final_path t)
        (mft_final_remove_on_cleanup t) (mft_replace_on_success t) offset) (\<lambda>target.
      io_return \<lparr>mfo_bytes_written = offset, mfo_target = target\<rparr>)))))
     (\<lambda>outcome. made v o0 [mfo_target outcome]) (write_failed v o0)"
    if "\<not> mft_replace_on_success t \<and> ct_kind (mft_write_target t) = MaterializeTargetKind.File" for t
    by (intro triple_bind [OF triple_write_chunks [OF assms(1-3) conjunct2 [OF that]]]
        triple_bind [OF triple_with_target [OF conjunct2 [OF that] triple_file_calls(2) [OF assms(1)]]]
        triple_bind [OF triple_with_target [OF conjunct2 [OF that] triple_file_calls(3) [OF assms(1)]]]
        triple_bind [OF final [OF conjunct1 [OF that]]] triple_return) simp
  then show ?thesis
    unfolding write_materialized_file_def
    by (intro triple_bind [OF opened] triple_pure)
qed

section \<open>Directories\<close>

lemma triple_create_dir:
  assumes "file_system_laws os v"
  shows "triple (kept v o0) (on_os (os_create_dir os p mode))
    (\<lambda>_ w. kept v o0 w \<and> (\<forall>m. os_symlink_metadata os (w_os w) p = Inr m \<longrightarrow>
       fv_type v o0 (identity_from_metadata m) = None \<and> md_type m = FtDir)) (\<lambda>_. kept v o0)"
    (is "triple _ _ (\<lambda>_ w. _ \<and> ?new w) _")
proof -
  have "kept v o0 w' \<and> (r = Inr () \<longrightarrow> ?new w')"
    if k: "kept v o0 w" and call: "on_os (os_create_dir os p mode) w = (w', r)" for w w' r
  proof -
    obtain o2 x where o2: "os_create_dir os p mode (w_os w) = (o2, x)" "w' = w\<lparr>w_os := o2\<rparr>" "r = map_err io_error_to_status x"
      by (rule on_os_result [OF call])
    have "untouched v (w_os w) o2" using file_system_lawsD(4) [OF assms, of "w_os w" p mode] o2(1) by simp
    with k have k': "untouched v o0 o2" unfolding kept_def by (rule untouched.trans)
    have "?new w'" if "x = Inr ()"
      using file_system_lawsD(5) [OF assms o2(1) [unfolded that]] untouched_missing [OF k [unfolded kept_def]]
      by (simp add: o2(2))
    with k' show ?thesis by (simp add: o2(2,3) kept_def outcome_simps)
  qed
  note call = this
  show ?thesis
  proof (rule tripleI)
    fix w w' u
    assume "kept v o0 w" and "on_os (os_create_dir os p mode) w = (w', Inr u)"
    from call [OF this] show "kept v o0 w' \<and> ?new w'" by simp
  next
    fix w w' e
    assume "kept v o0 w" and "on_os (os_create_dir os p mode) w = (w', Inl e)"
    from call [OF this] show "kept v o0 w'" by simp
  qed
qed

lemma triple_create_directory:
  assumes "file_system_laws os v" and "policy \<noteq> MaterializeConflictPolicy.Overwrite"
  shows "triple (kept v o0) (create_materialized_directory os entry policy)
    (\<lambda>target. made v o0 [target]) (\<lambda>_. kept v o0)"
proof -
  let ?p = "me_target_path entry"
  let ?make = "io_bind (on_os (os_create_dir os ?p 448)) (\<lambda>_.
      io_bind (on_os (\<lambda>o'. (o', os_symlink_metadata os o' ?p))) (\<lambda>metadata.
      io_return \<lparr>ct_path = ?p, ct_identity = identity_from_metadata metadata,
         ct_kind = MaterializeTargetKind.Directory, ct_remove_on_cleanup = True\<rparr>))"
  have stat: "triple (\<lambda>w. kept v o0 w \<and> (\<forall>m. os_symlink_metadata os (w_os w) ?p = Inr m \<longrightarrow>
        fv_type v o0 (identity_from_metadata m) = None \<and> md_type m = FtDir))
      (on_os (\<lambda>o'. (o', os_symlink_metadata os o' ?p)))
      (\<lambda>m w. kept v o0 w \<and> fv_type v o0 (identity_from_metadata m) = None \<and>
         fv_type v (w_os w) (identity_from_metadata m) = Some FtDir) (\<lambda>_. kept v o0)"
  proof (rule tripleI)
    fix w w' m
    assume "kept v o0 w \<and> (\<forall>m. os_symlink_metadata os (w_os w) ?p = Inr m \<longrightarrow>
        fv_type v o0 (identity_from_metadata m) = None \<and> md_type m = FtDir)"
      and "on_os (\<lambda>o'. (o', os_symlink_metadata os o' ?p)) w = (w', Inr m)"
    then show "kept v o0 w' \<and> fv_type v o0 (identity_from_metadata m) = None \<and>
        fv_type v (w_os w') (identity_from_metadata m) = Some FtDir"
      using file_system_lawsD(2) [OF assms(1), of "w_os w" ?p m] by (auto simp: on_os_def outcome_simps kept_def)
  qed (auto simp: on_os_def kept_def)
  have make: "triple (kept v o0) ?make (\<lambda>target. made v o0 [target]) (\<lambda>_. kept v o0)"
    by (rule triple_bind [OF triple_create_dir [OF assms(1)]], rule triple_bind [OF stat], rule triple_return)
      (simp add: made_def created_target_def)
  have "\<exists>s. validate_existing_materialize_target entry m policy = Inl s" for m
    using assms(2) by (cases policy) (simp_all add: validate_existing_materialize_target_def)
  then have "create_materialized_directory os entry policy w = ?make w \<or>
      (\<exists>s. create_materialized_directory os entry policy w = (w, Inl s))" for w
    by (cases "os_symlink_metadata os (w_os w) ?p")
      (auto simp: create_materialized_directory_def, metis res_bind_simps(1))
  note mkdir_cases = this
  have "case create_materialized_directory os entry policy w of
      (w', Inl e) \<Rightarrow> kept v o0 w' | (w', Inr target) \<Rightarrow> made v o0 [target] w'" if "kept v o0 w" for w
    using mkdir_cases [of w] make [unfolded triple_def, rule_format, OF that] that
    by (elim disjE exE) simp_all
  then show ?thesis by (simp add: triple_def)
qed

text \<open>The steps of the operation fail with the list of targets created so far.\<close>

abbreviation step_failed :: "('w, 'd) FileView \<Rightarrow> 'w \<Rightarrow> Status \<times> MaterializeProgress \<times> CreatedTarget list \<Rightarrow> 'w World \<Rightarrow> bool" where
  "step_failed v o0 e \<equiv> made v o0 (snd (snd e))"

text \<open>A step that leaves alone what is there when it starts keeps the targets made before it.\<close>

lemma made_after:
  assumes "made v o0 created w" and "made v (w_os w) targets w'"
  shows "made v o0 (created @ targets) w'"
proof -
  from assms(2) have "leaves v w w'" by (simp add: made_def kept_def leaves_def)
  with made_leaves [OF assms(1)] have "made v o0 created w'" by blast
  moreover from assms have "list_all (created_target v o0 (w_os w')) targets"
    by (auto simp: made_def kept_def list_all_iff created_target_def dest: untouched_missing)
  ultimately show ?thesis by (simp add: made_def)
qed

lemma triple_made:
  assumes "\<And>o1. triple (kept v o1) m (\<lambda>x. made v o1 (targets x)) (\<lambda>e. made v o1 (failed e))"
  shows "triple (made v o0 created) m (\<lambda>x. made v o0 (created @ targets x)) (\<lambda>e. made v o0 (created @ failed e))"
proof -
  have start: "kept v (w_os w) w" for w by (simp add: kept_def untouched.refl)
  show ?thesis
  proof (rule tripleI)
    fix w w' x
    assume c: "made v o0 created w" and "m w = (w', Inr x)"
    with tripleD(1) [OF assms start] show "made v o0 (created @ targets x) w'" by (blast intro: made_after)
  next
    fix w w' e
    assume c: "made v o0 created w" and "m w = (w', Inl e)"
    with tripleD(2) [OF assms start] show "made v o0 (created @ failed e) w'" by (blast intro: made_after)
  qed
qed

lemma triple_report:
  assumes "obeys (leaves v) report"
  shows "triple (made v o0 created) (io_map_err (\<lambda>status. (status, progress, created)) report)
    (\<lambda>_. made v o0 created) (step_failed v o0)"
  by (rule triple_map_err, rule triple_weaken [OF triple_leaves [OF assms made_leaves]]) simp_all

lemma triple_create_directories:
  assumes "file_system_laws (env_os env) v" and "policy \<noteq> MaterializeConflictPolicy.Overwrite"
    and "\<And>p. obeys (leaves v) (report p)"
  shows "triple (made v o0 created) (create_directories env policy report entries progress created)
    (\<lambda>r. made v o0 (snd r)) (step_failed v o0)"
proof (induction entries arbitrary: progress created)
  case Nil
  show ?case by (simp add: triple_def)
next
  case (Cons entry entries)
  have "triple (kept v o1) (create_materialized_directory (env_os env) entry policy)
      (\<lambda>target. made v o1 [target]) (\<lambda>_. made v o1 [])" for o1
    by (rule triple_weaken [OF triple_create_directory [OF assms(1,2)]]) (simp_all add: made_def)
  then have "triple (made v o0 created) (io_map_err (\<lambda>status. (status, progress, created))
      (create_materialized_directory (env_os env) entry policy)) (\<lambda>target. made v o0 (created @ [target])) (step_failed v o0)"
    by (intro triple_map_err) (rule triple_weaken [OF triple_made], assumption, simp_all)
  then show ?case
    unfolding create_directories_Cons Let_def by (rule triple_bind) (rule triple_bind [OF triple_report [OF assms(3)] Cons])
qed

lemma triple_write_files:
  assumes "file_system_laws (env_os env) v" and "waits_untouched env v"
    and "policy \<noteq> MaterializeConflictPolicy.Overwrite" and "\<And>p. obeys (leaves v) (report p)"
  shows "triple (made v o0 created) (write_files env promise_id policy report entries progress created)
    (\<lambda>r. made v o0 (snd r)) (step_failed v o0)"
proof (induction entries arbitrary: progress created)
  case Nil
  show ?case by (simp add: triple_def)
next
  case (Cons entry entries)
  have "triple (kept v o1) (write_materialized_file env promise_id entry policy (\<lambda>n. report (at n)))
      (\<lambda>outcome. made v o1 [mfo_target outcome])
      (\<lambda>e. made v o1 (case mwe_target e of Some target \<Rightarrow> [target] | None \<Rightarrow> []))" for at o1
    by (rule triple_weaken [OF triple_write_file [OF assms(1,2) assms(4) assms(3)]])
      (auto simp: made_def write_failed_def created_target_def split: option.splits)
  then have "triple (made v o0 created) (io_map_err (\<lambda>error. (mwe_status error, at (mwe_bytes_written error),
        created @ (case mwe_target error of Some target \<Rightarrow> [target] | None \<Rightarrow> [])))
      (write_materialized_file env promise_id entry policy (\<lambda>n. report (at n))))
      (\<lambda>outcome. made v o0 (created @ [mfo_target outcome])) (step_failed v o0)" for at
    by (intro triple_map_err) (rule triple_weaken [OF triple_made], assumption, simp_all)
  then show ?case
    unfolding write_files_Cons Let_def by (rule triple_bind) (rule triple_bind [OF triple_report [OF assms(4)] Cons])
qed

lemma triple_directory_metadata:
  assumes "file_system_laws os v" and "fv_type v o0 expected = None"
  shows "triple (kept v o0) (apply_directory_metadata os entry expected) (\<lambda>_. kept v o0) (\<lambda>_. kept v o0)"
proof -
  have opened: "triple (kept v o0) (on_os (os_open os p)) (\<lambda>_. kept v o0) (\<lambda>_. kept v o0)" for p
    by (rule triple_leaves [OF leaves_on_os [OF file_system_lawsD(17) [OF assms(1)]] kept_leaves])
  have stat: "triple (kept v o0) (on_os (\<lambda>o'. (o', os_file_metadata os o' f)))
      (\<lambda>m w. kept v o0 w \<and> fv_open v (w_os w) f = Some (identity_from_metadata m)) (\<lambda>_. kept v o0)" for f
  proof (rule tripleI)
    fix w w' m
    assume "kept v o0 w" and "on_os (\<lambda>o'. (o', os_file_metadata os o' f)) w = (w', Inr m)"
    then show "kept v o0 w' \<and> fv_open v (w_os w') f = Some (identity_from_metadata m)"
      using file_system_lawsD(3) [OF assms(1), of "w_os w" f m] by (auto simp: on_os_def outcome_simps)
  qed (auto simp: on_os_def kept_def)
  have change: "triple (writes_to v o0 f expected)
      (io_bind (on_os (os_file_set_permissions os f mode)) (\<lambda>_. apply_mtime os f mtime)) (\<lambda>_. kept v o0) (\<lambda>_. kept v o0)"
    for f mode mtime
    by (rule triple_weaken [OF triple_bind [OF triple_file_calls(2) [OF assms(1)] triple_file_calls(3) [OF assms(1)]]])
      (auto simp: writes_to_def)
  show ?thesis
    unfolding apply_directory_metadata_def
    by (rule triple_bind [OF opened], rule triple_bind [OF stat], rule triple_if, rule triple_fail, simp,
        rule triple_weaken [OF change]) (use assms(2) in \<open>auto simp: writes_to_def\<close>)
qed

text \<open>Setting the metadata of a directory takes none away.\<close>

definition world_types_stay :: "('w, 'd) FileView \<Rightarrow> 'w World \<Rightarrow> 'w World \<Rightarrow> bool" where
  "world_types_stay v w w' \<longleftrightarrow> types_stay v (w_os w) (w_os w')"

interpretation types: step_preorder "world_types_stay v" for v
  by unfold_locales (simp_all add: world_types_stay_def types_stay_def)

lemma types_stay_on_os:
  "(\<And>o'. types_stay v o' (fst (call o'))) \<Longrightarrow> obeys (world_types_stay v) (on_os call)"
  by (simp add: obeys_def world_types_stay_def on_os_def split: prod.split) (metis fst_conv)

lemma types_stay_directory_metadata:
  assumes "file_system_laws os v"
  shows "obeys (world_types_stay v) (apply_directory_metadata os entry expected)"
proof -
  have "obeys (world_types_stay v) (on_os (os_file_set_permissions os f mode))"
    "obeys (world_types_stay v) (on_os (os_futimens os f a b))" "obeys (world_types_stay v) (on_os (os_open os p))"
    "obeys (world_types_stay v) (on_os (\<lambda>o'. (o', os_file_metadata os o' f)))" for f mode a b p
    by (rule types_stay_on_os, rule file_system_lawsD(11) [OF assms],
        rule types_stay_on_os, rule file_system_lawsD(12) [OF assms],
        rule types_stay_on_os, rule untouched_types_stay [OF file_system_lawsD(17) [OF assms]],
        rule types_stay_on_os, simp add: types_stay_def)
  then show ?thesis
    unfolding apply_directory_metadata_def apply_mtime_def by (intro thread_intros)
qed

lemma triple_apply_metadata:
  assumes "file_system_laws (env_os env) v"
  shows "triple (made v o0 created) (apply_metadata env entries progress created) (\<lambda>_. made v o0 created) (step_failed v o0)"
proof (induction entries)
  case Nil
  show ?case by (simp add: triple_def)
next
  case (Cons entry entries)
  show ?case
    unfolding triple_def
  proof (intro allI impI)
    fix w assume w: "made v o0 created w"
    let ?same = "\<lambda>t. ct_kind t = MaterializeTargetKind.Directory \<and>
        path_components (ct_path t) = path_components (me_target_path entry)"
    show "case apply_metadata env (entry # entries) progress created w of
        (w', Inl e) \<Rightarrow> step_failed v o0 e w' | (w', Inr x) \<Rightarrow> made v o0 created w'"
    proof (cases "find ?same created")
      case None
      with w show ?thesis by simp
    next
      case (Some target)
      then have "target \<in> set created" by (auto simp: find_Some_iff)
      with w have new: "fv_type v o0 (ct_identity target) = None" by (auto simp: made_def list_all_iff created_target_def)
      obtain w1 r where r: "apply_directory_metadata (env_os env) entry (ct_identity target) w = (w1, r)"
        by (metis surj_pair)
      have "types_stay v (w_os w) (w_os w1)"
        using types.obeysD [OF types_stay_directory_metadata [OF assms] r] by (simp add: world_types_stay_def)
      then have "made v o0 created w1"
        using tripleD [OF triple_directory_metadata [OF assms new, of entry], of w] w r
        by (cases r) (auto simp: made_def intro: created_targets_stay)
      with Some r Cons [unfolded triple_def, rule_format, of w1] show ?thesis by (cases r) simp_all
    qed
  qed
qed

section \<open>Cleanup\<close>

lemma kept_cleanup:
  assumes "file_system_laws os v" and "untouched v o0 o1" and "list_all (created_target v o0 o1) created"
  shows "untouched v o0 (cleanup_created_targets os created o1)"
proof -
  have restore: "untouched v o0 (restore_created_directory_permissions os t o') \<and>
      types_stay v o' (restore_created_directory_permissions os t o')"
    if "untouched v o0 o'" "created_target v o0 o' t" "ct_kind t = MaterializeTargetKind.Directory" for t o'
  proof (cases "\<exists>m. os_symlink_metadata os o' (ct_path t) = Inr m \<and> identity_from_metadata m = ct_identity t")
    case True
    then obtain m where m: "os_symlink_metadata os o' (ct_path t) = Inr m" "identity_from_metadata m = ct_identity t" by blast
    with file_system_lawsD(2) [OF assms(1) m(1)] that(2,3) have "md_type m \<noteq> FtSymlink" by (simp add: created_target_def)
    note chmod = file_system_lawsD(15,16) [OF assms(1) m(1) this]
    from untouched_new [OF assms(1) that(1) chmod(1)] chmod(2) m that(2) show ?thesis
      by (simp add: restore_created_directory_permissions_def created_target_def)
  qed (use that(1) in \<open>auto simp: restore_created_directory_permissions_def types_stay_def split: sum.split\<close>)
  have "untouched v o0 (fold (restore_created_directory_permissions os) ts o1)"
    if "set ts \<subseteq> set created" "\<forall>t\<in>set ts. ct_kind t = MaterializeTargetKind.Directory" for ts
    using that assms(2,3)
  proof (induction ts arbitrary: o1)
    case (Cons t ts)
    then have "created_target v o0 o1 t" by (auto simp: list_all_iff)
    from restore [OF Cons.prems(3) this] Cons.prems(2) Cons.IH Cons.prems(1) created_targets_stay [OF Cons.prems(4)]
    show ?case by simp
  qed simp
  note restored = this
  have remove: "untouched v o0 (cleanup_target os t o')"
    if "untouched v o0 o'" "fv_type v o0 (ct_identity t) = None" for t o'
  proof (cases "\<exists>m. os_symlink_metadata os o' (ct_path t) = Inr m \<and> identity_from_metadata m = ct_identity t")
    case True
    then obtain m where m: "os_symlink_metadata os o' (ct_path t) = Inr m" "identity_from_metadata m = ct_identity t" by blast
    note calls = file_system_lawsD(13,14) [OF assms(1) m(1), unfolded m(2)]
    from untouched_new [OF assms(1) that(1) calls(1) that(2)] untouched_new [OF assms(1) that(1) calls(2) that(2)] m that(1)
    show ?thesis by (cases "ct_kind t") (simp_all add: cleanup_target_def)
  qed (use that(1) in \<open>auto simp: cleanup_target_def split: sum.split\<close>)
  have "untouched v o0 (fold (cleanup_target os) ts o')"
    if "untouched v o0 o'" "set ts \<subseteq> set created" for ts o'
    using that assms(3) by (induction ts arbitrary: o') (auto simp: list_all_iff created_target_def intro!: remove)
  then show ?thesis
    unfolding cleanup_created_targets_def using restored by simp
qed

section \<open>The whole operation\<close>

lemma mark_entries_failed:
  "mark_entries promise_id entries progress created w = (w', Inl e) \<Longrightarrow> snd (snd e) = created"
  by (induction entries arbitrary: w) (auto split: prod.splits sum.splits)

lemma triple_materialize_plan:
  assumes "file_system_laws (env_os env) v" and "waits_untouched env v"
    and "mpl_conflict_policy plan \<noteq> MaterializeConflictPolicy.Overwrite" and "\<And>p. obeys (leaves v) (report p)"
  shows "triple (kept v o0) (materialize_plan env plan report) (\<lambda>_. kept v o0) (step_failed v o0)"
proof -
  have marked: "triple (made v o0 created) (mark_entries promise_id entries progress created)
      (\<lambda>_. made v o0 created) (step_failed v o0)" for promise_id entries progress created
  proof (rule tripleI)
    fix w w' :: "'a World" and e :: "Status \<times> MaterializeProgress \<times> CreatedTarget list"
    assume k: "made v o0 created w" and m: "mark_entries promise_id entries progress created w = (w', Inl e)"
    from made_leaves [OF k leaves.obeysD [OF leaves_mark_entries m]] mark_entries_failed [OF m]
    show "step_failed v o0 e w'" by simp
  next
    fix w w' u
    assume k: "made v o0 created w" and m: "mark_entries promise_id entries progress created w = (w', Inr u)"
    show "made v o0 created w'" by (rule made_leaves [OF k leaves.obeysD [OF leaves_mark_entries m]])
  qed
  have "triple (made v o0 []) (materialize_plan env plan report) (\<lambda>_. kept v o0) (step_failed v o0)"
    unfolding materialize_plan_def Let_def
    by (rule triple_bind [OF triple_report [OF assms(4)]],
        rule triple_bind [OF triple_create_directories [OF assms(1,3,4)]], rule triple_case_prod,
        rule triple_bind [OF triple_weaken [OF triple_write_files [OF assms(1,2,3,4)]]], simp, assumption, assumption,
        rule triple_case_prod, rule triple_bind [OF triple_weaken [OF triple_apply_metadata [OF assms(1)]]],
        simp, assumption, assumption,
        rule triple_bind [OF marked], rule triple_return) (simp add: made_def)
  then show ?thesis by (rule triple_weaken) (simp_all add: made_def)
qed

theorem handle_materialize_untouched:
  assumes "file_system_laws (env_os env) v" and "waits_untouched env v"
    and "mb_conflict_policy body \<noteq> MaterializeConflictPolicyBody.Overwrite"
    and "handle_materialize env c body w = Some (w', r)"
  shows "untouched v (w_os w) (w_os w')"
proof -
  from assms(4) obtain w1 outcome where node: "materialize_node_in_state env body (report_to_client env c) w = Some (w1, outcome)"
    by (auto simp: handle_materialize_def)
  have policy: "mpl_conflict_policy plan \<noteq> MaterializeConflictPolicy.Overwrite"
    if "materialize_request_from_body body = Inr request" "plan_materialize (env_os env) w request = Some (Inr plan)"
    for request plan
  proof -
    from that(2) have "mpl_conflict_policy plan = mreq_conflict_policy request"
      by (auto simp: plan_materialize_def outcome_simps split: sum.splits)
    with that(1) assms(3) show ?thesis
      by (cases "mb_conflict_policy body") (auto simp: materialize_request_from_body_def split: if_splits)
  qed
  note plan = triple_materialize_plan [OF assms(1,2) policy leaves_replies(4) [OF assms(1)], of _ _ "w_os w"]
  have start: "kept v (w_os w) w" by (simp add: kept_def untouched.refl)
  from node have 1: "untouched v (w_os w) (w_os w1)"
  proof (cases rule: materialize_node_cases)
    case (rejected status)
    then show ?thesis by (simp add: untouched.refl)
  next
    case (failed request plan w2 status progress created)
    from tripleD(2) [OF plan [OF failed(1,2)] start failed(3)] have "made v (w_os w) created w2" by simp
    with kept_cleanup [OF assms(1), of "w_os w" "w_os w2" created] failed(4) show ?thesis by (simp add: made_def kept_def)
  next
    case (copied request plan progress)
    from tripleD(1) [OF plan [OF copied(1,2)] start copied(3)] show ?thesis by (simp add: kept_def)
  qed
  have "leaves v w1 w'"
    using assms(4) node
    by (auto simp: handle_materialize_def intro: leaves.obeysD [OF leaves_replies(1) [OF assms(1)]]
        leaves.obeysD [OF leaves_replies(2) [OF assms(1)]] split: sum.splits option.splits if_splits)
  with 1 show ?thesis unfolding leaves_def by (rule untouched.trans)
qed

end
