(* ===== verification/Target_Samples.thy ===== *)
theory Target_Samples
  imports File_Samples Target_Safety
begin

text \<open>
  System calls over a small file system that satisfy \<open>file_system_laws\<close>, and a daemon on it
  that serves the sample promise while the provider stays silent.
\<close>

section \<open>A small file system\<close>

text \<open>The inode at each path, the type and the contents of each inode, and the next free inode;
  the bytes still to be received on a connection. There are no symbolic links, and an open file
  is named by its inode.\<close>

record SmallFs =
  sf_entries :: "(path \<times> u64) list"
  sf_types :: "u64 \<Rightarrow> FileType option"
  sf_contents :: "FileIdentity \<Rightarrow> bytes"
  sf_next :: u64
  sf_incoming :: bytes

abbreviation small_id :: "u64 \<Rightarrow> FileIdentity" where
  "small_id i \<equiv> \<lparr>fi_dev = 1, fi_ino = i\<rparr>"

definition small_metadata :: "FileType \<Rightarrow> u64 \<Rightarrow> Metadata" where
  "small_metadata t i = \<lparr>md_type = t, md_uid = 1000, md_mode = 448, md_dev = 1, md_ino = i\<rparr>"

definition small_inode :: "SmallFs \<Rightarrow> path \<Rightarrow> u64 option" where
  "small_inode s p = Option.bind (map_of (sf_entries s) p) (\<lambda>i. map_option (\<lambda>_. i) (sf_types s i))"

definition small_stat :: "SmallFs \<Rightarrow> path \<Rightarrow> Metadata io_result" where
  "small_stat s p =
     (case small_inode s p of Some i \<Rightarrow> Inr (small_metadata (the (sf_types s i)) i) | None \<Rightarrow> Inl (io_error_from KNotFound))"

definition small_create :: "FileType \<Rightarrow> path \<Rightarrow> SmallFs \<Rightarrow> SmallFs \<times> u64 io_result" where
  "small_create t p s =
     (if map_of (sf_entries s) p \<noteq> None \<or> sf_types s (sf_next s) \<noteq> None
      then (s, Inl (io_error_from KAlreadyExists))
      else (s\<lparr>sf_entries := (p, sf_next s) # sf_entries s, sf_types := (sf_types s)(sf_next s \<mapsto> t),
              sf_next := sf_next s + 1\<rparr>,
            Inr (sf_next s)))"

definition small_remove :: "path \<Rightarrow> SmallFs \<Rightarrow> SmallFs \<times> unit io_result" where
  "small_remove p s =
     (case small_inode s p of
        None \<Rightarrow> (s, Inl (io_error_from KNotFound))
      | Some i \<Rightarrow> (s\<lparr>sf_entries := filter (\<lambda>e. fst e \<noteq> p) (sf_entries s), sf_types := (sf_types s)(i := None)\<rparr>, Inr ()))"

definition small_append :: "fd \<Rightarrow> bytes \<Rightarrow> SmallFs \<Rightarrow> SmallFs \<times> unit io_result" where
  "small_append f bs s =
     (s\<lparr>sf_contents := (sf_contents s)(small_id (of_nat f) := sf_contents s (small_id (of_nat f)) @ bs)\<rparr>, Inr ())"

definition small_os :: "SmallFs Os" where
  "small_os =
     \<lparr>os_getuid = 1000, os_process_id = 77, os_runtime_dir = None, os_current_dir = (\<lambda>_. Inr ''/''),
      os_metadata = small_stat, os_symlink_metadata = small_stat,
      os_create_dir = (\<lambda>p _ s. (fst (small_create FtDir p s), map_ok (\<lambda>_. ()) (snd (small_create FtDir p s)))),
      os_create_dir_all = (\<lambda>_ s. (s, Inl (io_error_from KOther))),
      os_remove_file = small_remove, os_remove_dir = small_remove,
      os_rename = (\<lambda>_ _ s. (s, Inl (io_error_from KOther))), os_set_permissions = (\<lambda>_ _ s. (s, Inr ())),
      os_open = (\<lambda>p s. (s, map_ok (\<lambda>m. unat (md_ino m)) (small_stat s p))),
      os_open_excl = (\<lambda>p _ s. (fst (small_create FtFile p s), map_ok unat (snd (small_create FtFile p s)))),
      os_file_metadata = (\<lambda>_ f. Inr (small_metadata FtFile (of_nat f))),
      os_file_set_permissions = (\<lambda>_ _ s. (s, Inr ())), os_file_write_all = small_append,
      os_file_read_at = (\<lambda>_ _ _ _. Inl (io_error_from KOther)), os_futimens = (\<lambda>_ _ _ s. (s, Inr ())),
      os_urandom = (\<lambda>_ s. (s, Inl (io_error_from KOther))), os_open_urandom = (\<lambda>s. (s, Inr ())),
      os_bind = (\<lambda>_ s. (s, Inr 1)), os_accept = (\<lambda>_ s. (s, Inl (io_error_from KOther))),
      os_connect = (\<lambda>_ s. (s, Inr 7)), os_shutdown = (\<lambda>_ s. (s, Inr ())), os_spawn_thread = (\<lambda>s. (s, Inr ())),
      os_try_clone = (\<lambda>c s. (s, Inr c)), os_peer_uid = (\<lambda>_ _. Inr 1000),
      os_read = (\<lambda>_ n s. (s\<lparr>sf_incoming := drop n (sf_incoming s)\<rparr>, Inr (take n (sf_incoming s)))),
      os_read_exact = (\<lambda>_ n s. (s\<lparr>sf_incoming := drop n (sf_incoming s)\<rparr>,
        if n \<le> length (sf_incoming s) then Inr (take n (sf_incoming s)) else Inl (io_error_from KUnexpectedEof))),
      os_write_all = (\<lambda>_ _ s. (s, Inr ())), os_flush = (\<lambda>_ s. (s, Inr ()))\<rparr>"

definition small_view :: "(SmallFs, bytes) FileView" where
  "small_view =
     \<lparr>fv_entry = (\<lambda>s p. map_option small_id (small_inode s p)),
      fv_type = (\<lambda>s i. if fi_dev i = 1 then sf_types s (fi_ino i) else None),
      fv_data = sf_contents, fv_open = (\<lambda>_ f. Some (small_id (of_nat f)))\<rparr>"

lemma small_id_metadata [simp]:
  "identity_from_metadata (small_metadata t i) = small_id i" "md_type (small_metadata t i) = t"
  by (simp_all add: identity_from_metadata_def small_metadata_def)

lemma small_inode_Some:
  "small_inode s p = Some i \<longleftrightarrow> map_of (sf_entries s) p = Some i \<and> (\<exists>t. sf_types s i = Some t)"
  by (auto simp: small_inode_def bind_eq_Some_conv)

lemma small_stat_Inr:
  "small_stat s p = Inr m \<longleftrightarrow> (\<exists>i t. small_inode s p = Some i \<and> sf_types s i = Some t \<and> m = small_metadata t i)"
  by (cases "small_inode s p") (auto simp: small_stat_def dest: small_inode_Some [THEN iffD1])

lemma small_view_simps:
  "fv_entry small_view s p = Some j \<longleftrightarrow> (\<exists>i. small_inode s p = Some i \<and> j = small_id i)"
  "fv_type small_view s (small_id i) = sf_types s i" "fv_data small_view s = sf_contents s"
  "fv_open small_view s f = Some (small_id (of_nat f))"
  by (auto simp: small_view_def)

lemma small_create_result:
  "untouched small_view s (fst (small_create t p s))"
  "snd (small_create t p s) = Inr i \<Longrightarrow> sf_types s i = None"
  "snd (small_create t p s) = Inr i \<Longrightarrow> small_stat (fst (small_create t p s)) p = Inr m \<Longrightarrow> m = small_metadata t i"
  by (auto simp: small_create_def untouched_def small_view_def small_inode_Some small_stat_Inr split: if_splits)

lemma small_changes:
  "small_stat s p = Inr m \<Longrightarrow> only_changes small_view (identity_from_metadata m) s (fst (small_remove p s))"
  "only_changes small_view (small_id (of_nat f)) s (fst (small_append f bs s))"
proof -
  have other: "map_of (filter (\<lambda>e. fst e \<noteq> p) es) q = map_of es q" if "q \<noteq> p" for es :: "(path \<times> u64) list" and q
    using that by (induction es) auto
  assume "small_stat s p = Inr m"
  then obtain i t where i: "small_inode s p = Some i" "m = small_metadata t i" by (auto simp: small_stat_Inr)
  have "small_inode (fst (small_remove p s)) q = Some j" if "small_inode s q = Some j" "j \<noteq> i" for q j
    using that i(1) other [of q]
    by (cases "q = p", simp, simp add: small_remove_def) (simp add: small_inode_Some)
  then show "only_changes small_view (identity_from_metadata m) s (fst (small_remove p s))"
    by (auto simp: only_changes_def small_view_simps i(2)) (auto simp: small_view_def small_remove_def i(1) split: if_splits)
next
  show "only_changes small_view (small_id (of_nat f)) s (fst (small_append f bs s))"
    by (auto simp: only_changes_def small_view_def small_append_def small_inode_def)
qed

lemma small_laws: "file_system_laws small_os small_view"
proof -
  have leave: "untouched small_view s (s\<lparr>sf_incoming := bs\<rparr>)" for s bs
    by (simp add: untouched_def small_view_def small_inode_def)
  have keep: "only_changes small_view i s s" "types_stay small_view s s" for i s
    by (simp_all add: only_changes_def types_stay_def)
  have excl: "sf_types s (of_nat f) = None" if "map_ok unat (snd (small_create FtFile p s)) = Inr f" for s p f
    using that small_create_result(2) [of FtFile p s] by (cases "snd (small_create FtFile p s)") (auto simp: map_ok_def)
  have dir: "fv_type small_view s (identity_from_metadata m) = None \<and> md_type m = FtDir"
    if "map_ok (\<lambda>_. ()) (snd (small_create FtDir p s)) = Inr ()" "small_stat (fst (small_create FtDir p s)) p = Inr m" for s p m
  proof -
    from that(1) obtain i where "snd (small_create FtDir p s) = Inr i"
      by (cases "snd (small_create FtDir p s)") (auto simp: map_ok_def)
    from small_create_result(2) [OF this] small_create_result(3) [OF this that(2)] show ?thesis
      by (simp add: small_view_simps)
  qed
  have stat: "fv_type small_view s (identity_from_metadata m) = Some (md_type m)" if "small_stat s p = Inr m" for s p m
    using that by (auto simp: small_stat_Inr small_view_simps)
  have entry: "\<exists>t. fv_type small_view s i = Some t" if "fv_entry small_view s p = Some i" for s p i
    using that by (auto simp: small_view_simps small_inode_Some)
  show ?thesis
    unfolding file_system_laws_def small_os_def Os.simps fst_conv snd_conv
    using small_create_result(1) small_changes dir excl stat entry keep leave untouched.refl [of small_view]
    by (intro conjI allI impI) (auto simp: small_view_simps(2,4))
qed

section \<open>A silent provider\<close>

definition small_world :: "SmallFs World" where
  "small_world =
     \<lparr>w_ipc = sys_ipc served_system, w_temp_counter = 0,
      w_os = \<lparr>sf_entries = [(''/t'', 2), (''/t/keep'', 3)], sf_types = [2 \<mapsto> FtDir, 3 \<mapsto> FtFile],
              sf_contents = (\<lambda>_. [])(small_id 3 := [1, 2, 3]), sf_next = 4, sf_incoming = sample_continue\<rparr>\<rparr>"

definition small_env :: "SmallFs Env" where
  "small_env =
     \<lparr>env_os = small_os, env_requests = table_codec sample_requests, env_responses = sent_codec,
      env_wait = (\<lambda>_ w. w), env_idle = (\<lambda>_ w. w)\<rparr>"

lemma small_waits: "waits_untouched small_env small_view"
  by (simp add: waits_untouched_def small_env_def untouched.refl)

lemma small_run: "\<exists>w' r. handle_materialize small_env 9 sample_materialize_body small_world = Some (w', r)"
proof -
  have "resolve_visible_path (commit_ready ''/m'') ''/m/promise-1/d/f'' = Inr (''promise-1'', ''d/f'')" by code_simp
  moreover have "subtree_nodes (subtree_fuel sample_tree) sample_tree ''d/f'' = Some (Inr [sample_file])" by code_simp
  ultimately have "\<exists>r. plan_materialize small_os small_world sample_materialize = Some r"
    using sample_lookups
    by (simp add: plan_materialize_def sample_materialize_def small_world_def res_bind_def ok_or_def fail_if_def
        split: sum.split)
  moreover have "materialize_request_from_body sample_materialize_body = Inr sample_materialize" by code_simp
  ultimately have "\<exists>x. materialize_node_in_state small_env sample_materialize_body (report_to_client small_env 9) small_world = Some x"
    by (auto simp: materialize_node_in_state_def small_env_def)
  then show ?thesis by (auto simp: handle_materialize_def)
qed

end
