(* ===== verification/Accepted_Requests.thy ===== *)
theory Accepted_Requests
  imports Fuse_Reads
begin

text \<open>
  The runtime plans provider reads, the socket layer validates them before it sends them. Here
  the two meet: which of the reads that the file system plans pass the validation of
  \<open>ProviderReadRequest::into_body\<close>. All do, unless the read-through chunk is longer than a
  provider read may be or the provider committed a node id with a NUL character.
\<close>

section \<open>Files have a provider node id\<close>

text \<open>The root of a promise has none, but it is a directory.\<close>

abbreviation id_given :: "PromiseNode \<Rightarrow> bool" where
  "id_given n \<equiv> node_kind n = NodeKind.File \<longrightarrow> node_provider_node_id n \<noteq> []"

lemma builder_ids_given:
  assumes "builder_reachable b" and "bt_get (builder_nodes b) p = Some n"
  shows "id_given n"
  using assms
proof (induction arbitrary: p n rule: builder_reachable.induct)
  case (new provider_id)
  then show ?case by (auto simp: builder_new_def split: if_splits)
next
  case (add b path attr pnid kind)
  show ?case
  proof (cases rule: builder_add_node_cases [of b path attr pnid kind])
    case (refused e)
    with add show ?thesis by simp
  next
    case (added q b')
    from added(1) have "pnid \<noteq> []" by (auto simp: add_node_check_def outcome_simps)
    with add added show ?thesis by (auto simp: builder_node_def split: if_splits)
  qed
qed

lemma runtime_step_nodes:
  assumes "runtime_step rt rt'" and "node_at rt' pid p = Some n"
  shows "(\<exists>m. node_at rt pid p = Some m \<and> id_given m = id_given n) \<or>
    (\<exists>b m. builder_reachable b \<and> bt_get (builder_nodes b) p = Some m \<and> id_given m = id_given n)"
  using assms
proof (induction rule: runtime_step.induct)
  case (unregister rt q)
  have "node_at (fst (unregister_provider rt q)) pid p = node_at rt pid p"
    by (cases "bt_get (rt_promises rt) pid")
      (simp_all add: unregister_provider_def node_at_def promise_def disconnect_promise_def split: option.split)
  with unregister show ?case by auto
next
  case (commit b rt)
  show ?case
  proof (cases rule: commit_promise_cases [of rt b])
    case (committed na nb t)
    let ?nodes = "number_nodes (rt_next_node_id rt) (rt_next_inode rt) (builder_nodes b)"
    from committed(3) have "promise (fst (commit_promise rt b)) q =
        (if q = promise_name (rt_next_promise_id rt) then Some t else promise rt q)" for q
      by (simp add: promise_def)
    then have "node_at (fst (commit_promise rt b)) pid p =
        (if pid = promise_name (rt_next_promise_id rt) then bt_get ?nodes p else node_at rt pid p)"
      using committed(2) by (simp add: node_at_def)
    with commit(2) have "bt_get ?nodes p = Some n \<or> node_at rt pid p = Some n" by (auto split: if_splits)
    then show ?thesis
    proof
      assume "bt_get ?nodes p = Some n"
      then obtain m where "bt_get (builder_nodes b) p = Some m" "same_node m n"
        using number_nodes_get [of "builder_nodes b" p "rt_next_node_id rt" "rt_next_inode rt"]
        by (cases "bt_get (builder_nodes b) p") auto
      with commit(1) show ?thesis by (auto simp: same_node_def)
    qed blast
  qed (use commit(2) in \<open>simp_all add: node_at_def promise_def\<close>)
next
  case (materialized rt q path target)
  show ?case
  proof (cases "snd (mark_node_materialized rt q path target)")
    case (Inl e)
    then have "fst (mark_node_materialized rt q path target) = rt"
      by (auto simp: mark_node_materialized_def split: sum.splits)
    with materialized show ?thesis by simp
  next
    case (Inr u)
    then obtain r t m where m: "promise rt q = Some t" "bt_get (tree_nodes t) r = Some m"
      "fst (mark_node_materialized rt q path target) = rt\<lparr>rt_promises := bt_insert q (t\<lparr>tree_nodes := bt_insert r
         (m\<lparr>node_materialized_path := Some target\<rparr>) (tree_nodes t)\<rparr>) (rt_promises rt)\<rparr>"
      by (auto simp: mark_node_materialized_def promise_def outcome_simps split: sum.splits)
    then have "node_at (fst (mark_node_materialized rt q path target)) pid p =
        (if pid = q \<and> p = r then Some (m\<lparr>node_materialized_path := Some target\<rparr>) else node_at rt pid p)"
      by (simp add: node_at_def promise_def)
    moreover have "node_at rt q r = Some m" using m(1,2) by (simp add: node_at_def)
    ultimately have "node_at rt pid p = Some n \<or> node_at rt pid p = Some m \<and> n = m\<lparr>node_materialized_path := Some target\<rparr>"
      using materialized by (auto split: if_splits)
    then show ?thesis by auto
  qed
next
  case (set_policy rt policy)
  have "rt_promises (fst (set_cache_policy rt policy)) = rt_promises rt"
    by (simp add: set_cache_policy_def Let_def split: sum.split)
  with set_policy show ?case by (auto simp: node_at_def promise_def)
next
  case (cached rt q path offset bytes)
  have "rt_promises (fst (record_cached_read rt q path offset bytes)) = rt_promises rt"
    by (simp add: record_cached_read_def split: sum.split option.split)
  with cached show ?case by (auto simp: node_at_def promise_def)
qed (auto simp: node_at_def promise_def register_provider_def Let_def)

lemma sys_reachable_ids_given:
  "sys_reachable k s \<Longrightarrow> node_at (ipc_runtime (sys_ipc s)) pid p = Some n \<Longrightarrow> id_given n"
proof (induction arbitrary: pid p n rule: sys_reachable.induct)
  case init
  then show ?case by (simp add: system_new_def ipc_state_new_def runtime_new_def node_at_def promise_def)
next
  case (step k s s')
  from sys_step_runtime [OF step.hyps(2)] show ?case
  proof
    assume "runtime_step (ipc_runtime (sys_ipc s)) (ipc_runtime (sys_ipc s'))"
    from runtime_step_nodes [OF this step.prems] step.IH builder_ids_given show ?thesis by metis
  qed (use step in simp)
qed

section \<open>What is asked of the provider\<close>

lemma plan_coalesced_shape:
  assumes "plan_coalesced_provider_read rt plan = Inr c"
  shows "plan_provider_id (coalesced_provider c) = plan_provider_id plan \<and>
    plan_provider_node_id (coalesced_provider c) = plan_provider_node_id plan \<and>
    (plan_length (coalesced_provider c) = plan_length plan \<or>
     (\<exists>cs. cache_policy_chunk_size (rt_cache_policy rt) = Some cs \<and> plan_length (coalesced_provider c) \<le> cs))"
proof -
  have fits: "(ucast (min (u64_of_u32 cs) r) :: u32) \<le> cs" for cs r
    by (simp add: word_le_nat_alt unat_ucast_min)
  show ?thesis
    using assms
    by (auto simp: plan_coalesced_provider_read_def res_bind_Inr Let_def u32_try_from_min fits split: option.splits if_splits)
qed

lemma provider_plan_ids:
  assumes "rt_inv rt" and "node_at rt pid path = Some n"
    and "plan_read rt pid path offset sz = Inr (ReadPlan.Request plan)"
    and "plan_coalesced_provider_read rt plan = Inr c"
  obtains t where "promise rt pid = Some t" "node_kind n = NodeKind.File" "has_provider rt (tree_provider_id t)"
    "plan_provider_id (coalesced_provider c) = tree_provider_id t"
    "plan_provider_node_id (coalesced_provider c) = node_provider_node_id n"
    "0 < clip_length (attr_size (node_attr n)) offset sz" "plan_length plan \<le> sz"
proof -
  from planned_file [OF assms(1-3)] obtain t where t: "promise rt pid = Some t" "tree_get t path = Some n"
    "node_kind n = NodeKind.File" "\<not> (sz = 0 \<or> attr_size (node_attr n) \<le> offset)" by auto
  have pos: "0 < sz" "offset < attr_size (node_attr n)" using t(4) by (auto simp: not_le word_neq_0_conv [symmetric])
  from plan_read_file [OF assms(1) t(1-3) pos] assms(3)
  have plan: "plan = request_of t n offset (clip_length (attr_size (node_attr n)) offset sz)"
    and live: "has_provider rt (tree_provider_id t)"
    by (auto split: option.splits if_splits)
  have "clip_length (attr_size (node_attr n)) offset sz \<le> sz"
    by (simp add: clip_length_def word_le_nat_alt unat_ucast_min)
  then show ?thesis
    using t(1,3) live clip_length_pos [OF pos(2,1)] plan_coalesced_shape [OF assms(4)]
    by (intro that) (auto simp: plan request_of_def)
qed

lemma promise_name_token: "promise_name n \<noteq> [] \<and> CHR 0x00 \<notin> set (promise_name n)"
  using decimal_digits [of "CHR 0x00" "unat n"] by (auto simp: promise_name_def)

theorem planned_request_accepted:
  assumes "sys_reachable k s" and "k < 2 ^ 64 - 1"
    and "fuse_plan_read (sys_ipc s) ino offset sz = (st, Inr (Some (FuseReadPlan.Provider q ro rl)))"
  shows "(\<exists>body. read_request_into_body q = Inr body) \<longleftrightarrow>
      rr_length q \<le> MAX_PROVIDER_READ_LEN \<and> CHR 0x00 \<notin> set (rr_provider_node_id q)"
    and "rr_length q \<le> sz \<or>
      (\<exists>cs. cache_policy_chunk_size (rt_cache_policy (ipc_runtime (sys_ipc s))) = Some cs \<and> rr_length q \<le> cs)"
proof -
  let ?rt = "ipc_runtime (sys_ipc s)"
  note inv = sys_invD [OF sys_reachable_inv [OF assms(1,2)]]
  from assms(3) obtain pid n where "lookup_inode ?rt ino = Inr (PromiseNode pid n)"
    by (auto simp: fuse_plan_read_def Let_def split: sum.splits RuntimeEntry.splits)
  then have at: "node_at ?rt pid (node_relative_path n) = Some n" and ino: "node_inode n = ino"
    using lookup_inode_iff [OF inv(1), of ino pid n] by simp_all
  obtain plan c rid where
    plan: "plan_read ?rt pid (node_relative_path n) offset sz = Inr (ReadPlan.Request plan)"
    and c: "plan_coalesced_provider_read ?rt plan = Inr c" and rid: "next_provider_read_request_id (sys_ipc s) = (st, rid)"
    and q: "q = read_request_of_plan rid (coalesced_provider c)"
    by (rule fuse_plan_read_node [OF inv(1) at assms(3) [folded ino]]) auto
  note range = provider_plan [OF inv(1) at plan c q]
  obtain t where t: "promise ?rt pid = Some t" "node_kind n = NodeKind.File" "has_provider ?rt (tree_provider_id t)"
    "plan_provider_id (coalesced_provider c) = tree_provider_id t"
    "plan_provider_node_id (coalesced_provider c) = node_provider_node_id n"
    "0 < clip_length (attr_size (node_attr n)) offset sz" "plan_length plan \<le> sz"
    by (rule provider_plan_ids [OF inv(1) at plan c])
  from plan_coalesced_shape [OF c] t(7) show "rr_length q \<le> sz \<or>
      (\<exists>cs. cache_policy_chunk_size (rt_cache_policy ?rt) = Some cs \<and> rr_length q \<le> cs)"
    by (auto simp: q read_request_of_plan_def)
  have "rr_request_id q \<noteq> 0"
    using inv(5) rid by (auto simp: q read_request_of_plan_def tickets_ok_def next_provider_read_request_id_def)
  moreover have "rr_provider_id q \<noteq> 0"
    using t(3,4) rt_invD(3) [OF inv(1), of "tree_provider_id t"]
    by (auto simp: q read_request_of_plan_def has_provider_def provider_ok_def split: option.splits)
  moreover from rt_invD(4) [OF inv(1) t(1)] obtain i where "pid = promise_name i" by (auto simp: promise_ok_def)
  then have "rr_promise_id q \<noteq> []" "CHR 0x00 \<notin> set (rr_promise_id q)"
    using promise_name_token [of i] by (simp_all add: range(1))
  moreover have "rr_provider_node_id q \<noteq> []"
    using sys_reachable_ids_given [OF assms(1) at] t(2,5) by (simp add: q read_request_of_plan_def)
  moreover have "rr_length q \<noteq> 0" using range(3,5) t(6) by (auto simp: word_less_nat_alt unat_eq_0)
  moreover have "unat (rr_offset q) + unat (rr_length q) < 2 ^ 64"
    by (rule le_less_trans [OF range(6)]) simp
  moreover have "normalize_relative_path (rr_relative_path q) = Inr (rr_relative_path q)"
    using rt_inv_node [OF inv(1) at] range(2) by (auto simp: normal_path_def)
  ultimately show "(\<exists>body. read_request_into_body q = Inr body) \<longleftrightarrow>
      rr_length q \<le> MAX_PROVIDER_READ_LEN \<and> CHR 0x00 \<notin> set (rr_provider_node_id q)"
    by (auto simp: read_request_into_body_Inr read_request_ok_def)
qed

end
