(* ===== verification/File_Properties.thy ===== *)
theory File_Properties
  imports Target_Samples Accepted_Requests
begin

text \<open>
  The properties of the file system and of materialisation: what a read returns and asks of the
  provider, what a directory lists, what a materialised copy holds and what it leaves alone.
\<close>

section \<open>The file system\<close>

text \<open>C5. A read through the file system returns bytes of the file at the requested offset, never
  more than were asked for and never beyond the end of the file, whichever way it is served: from
  the cache, from a local copy, from the provider, or from a provider request that was widened to
  a cache chunk. Providers and local copies are assumed to deliver the bytes of the file.\<close>

theorem fuse_read_returns_content:
  assumes "honest_reachable content k (ipc_runtime (w_ipc w))" and "k < 2 ^ 64 - 1"
    and "node_at (ipc_runtime (w_ipc w)) promise_id path = Some n"
    and "answers_honest env content"
    and "\<forall>file. node_materialized_path n = Some file \<longrightarrow>
        local_copy_honest (env_os env) content (CacheKey promise_id path) file (w_os w)"
    and "fuse_read env (node_inode n) offset sz w = (w', Inr bytes)"
  shows "holds_at (content (CacheKey promise_id path)) (unat offset) bytes \<and>
    length bytes \<le> min (unat sz) (unat (attr_size (node_attr n)) - unat offset)"
  using fuse_read_content [OF assms(1-4) _ assms(6)] assms(5) by blast

theorem fuse_read_returns_content_witness:
  "snd (fuse_read honest_env 4 5 3 (served_world [])) = Inr [15, 16, 17] \<and>
   holds_at (sample_content (CacheKey ''promise-1'' ''d/f'')) 5 [15, 16, 17]"
proof -
  obtain w' where read: "fuse_read honest_env 4 5 3 (served_world []) = (w', Inr [15, 16, 17])" using sample_fuse_read by blast
  have rt: "ipc_runtime (w_ipc (served_world [])) = sample_runtime" by (simp add: served_world_def)
  from fuse_read_returns_content [of sample_content 3 "served_world []" "''promise-1''" "''d/f''" sample_file honest_env 5 3]
    sample_honest sample_node honest_env_answers read show ?thesis by (simp add: rt)
qed

text \<open>C22. Every read that the file system plans for a provider passes the validation of the socket
  layer, as long as the read-through chunk is not longer than a provider read may be (the daemon
  uses chunks of just that length), with one exception: the provider committed the file with a
  node id that contains a NUL character, which the commit accepts; then every such read is
  refused.\<close>

theorem planned_reads_accepted:
  assumes "sys_reachable k s" and "k < 2 ^ 64 - 1"
    and "\<forall>chunk_size. cache_policy_chunk_size (rt_cache_policy (ipc_runtime (sys_ipc s))) = Some chunk_size \<longrightarrow>
        chunk_size \<le> MAX_PROVIDER_READ_LEN"
    and "fuse_plan_read (sys_ipc s) inode offset (min sz MAX_PROVIDER_READ_LEN) =
        (st, Inr (Some (FuseReadPlan.Provider request response_offset response_length)))"
  shows "(\<exists>body. read_request_into_body request = Inr body) \<longleftrightarrow> CHR 0x00 \<notin> set (rr_provider_node_id request)"
  using planned_request_accepted [OF assms(1,2,4)] assms(3) by (auto intro: order_trans)

theorem planned_reads_accepted_witness:
  "\<exists>body. read_request_into_body (sample_request\<lparr>rr_offset := 4, rr_length := 4\<rparr>) = Inr body"
  using planned_reads_accepted [OF served_reachable, of 4 5 3] sample_fuse_plan
  by (simp add: sample_chunk_size MAX_PROVIDER_READ_LEN_def) (simp add: sample_request_def)

text \<open>C20. A client that pages through a directory, always asking for the entries after the last one
  it got, ends after at most one page more than there are entries and has then seen every entry
  exactly once and in order, however few entries fit into a page. The reply buffer is assumed to
  keep what was added and to have room for one entry.\<close>

theorem directory_pages_complete:
  assumes "dir_buffer_ok add entries fresh" and "fuse_directory_entries rt ino = Inr es"
    and "length es < 2 ^ 64" and "length es < pages"
  shows "read_pages pages rt add entries fresh ino 0 = Some (Inr (map listed_entry (enumerate 0 es)))"
  using read_pages_complete [OF assms(1-3), of 0 pages] assms(4) by simp

theorem directory_pages_complete_witness:
  "read_pages 4 sample_runtime one_entry_page (\<lambda>buf. buf) [] 3 0 =
     Some (Inr [(3, 1, FuseFileType.Directory, ''.''), (2, 2, FuseFileType.Directory, ''..''), (4, 3, FuseFileType.RegularFile, ''f'')])"
proof -
  have "fuse_directory_entries sample_runtime 3 = Inr
     [\<lparr>dirent_name = ''.'', dirent_inode = 3, dirent_kind = NodeKind.Directory\<rparr>,
      \<lparr>dirent_name = ''..'', dirent_inode = 2, dirent_kind = NodeKind.Directory\<rparr>,
      \<lparr>dirent_name = ''f'', dirent_inode = 4, dirent_kind = NodeKind.File\<rparr>]"
    unfolding sample_runtime_eq by code_simp
  from directory_pages_complete [OF one_entry_page_ok this, of 4] show ?thesis by (simp add: listed_entry_def)
qed

section \<open>Materialisation\<close>



text \<open>C7. A materialisation that reports success has done all of it, whatever the other threads did
  meanwhile: every node of the planned subtree is counted as done, all files and exactly the sum of
  the promised sizes were written, and from then on every planned node is recorded as materialised
  at its target path.\<close>

theorem materialize_completes:
  assumes "rely_invariant G me" and "env_evolves G me env" and "\<forall>s. G s \<longrightarrow> (\<exists>k. sys_reachable k s)"
    and "G s" and "sys_ipc s = w_ipc w" and "rt_inv (ipc_runtime (w_ipc w))"
    and "materialize_node_in_state env body (report_to_client env c) w = Some (w', Inr answer)"
  shows "\<exists>request plan. materialize_request_from_body body = Inr request \<and>
    plan_materialize (env_os env) w request = Some (Inr plan) \<and>
    md_target_path answer = to_string_lossy (mpl_target_path plan) \<and>
    mc_entries_done (md_counts answer) = of_nat (length (mpl_entries plan)) \<and>
    mc_files_written (md_counts answer) = mc_files_total (md_counts answer) \<and>
    mc_bytes_written (md_counts answer) = sum_list (map me_size (file_entries (mpl_entries plan))) \<and>
    (\<forall>e\<in>set (mpl_entries plan). \<exists>n. node_at (ipc_runtime (w_ipc w')) (mpl_promise_id plan) (me_relative_path e) = Some n \<and>
       node_materialized_path n = Some (me_target_path e))"
proof -
  from assms(7) obtain request plan progress where
    p: "materialize_request_from_body body = Inr request" "plan_materialize (env_os env) w request = Some (Inr plan)"
      "materialize_plan env plan (report_to_client env c) w = (w', Inr progress)"
      "answer = \<lparr>md_target_path = to_string_lossy (mpl_target_path plan), md_counts = mpr_counts progress\<rparr>"
    by (cases rule: materialize_node_cases) auto
  let ?J = "\<lambda>st. \<exists>s. G s \<and> sys_ipc s = st"
  have fit: "chunks_fit env (mpl_promise_id plan) ?J"
    by (rule chunks_fit_rely [OF assms(1,2)]) (use assms(3) in blast)
  have "?J (w_ipc w)" using assms(4,5) by blast
  from materialize_plan_counts [OF fit keep.obeys_report_to_client this p(3)]
    materialized_nodes [OF assms(6) p(2,3)] p show ?thesis by auto
qed

text \<open>C21. A materialisation plan respects the conflict policy and covers the whole subtree: unless
  the policy is to overwrite, no planned target exists; with that policy, a target that exists has
  the kind of its node, so a file only replaces a regular file and a directory only reuses a
  directory. The entries are the nodes of one subtree of the promise, each exactly once.\<close>

theorem materialize_plan_safe:
  assumes "rt_inv (ipc_runtime (w_ipc w))" and "plan_materialize os w request = Some (Inr plan)"
  shows "(\<forall>e\<in>set (mpl_entries plan). target_free os (w_os w) (me_target_path e) \<or>
       (mreq_conflict_policy request = MaterializeConflictPolicy.Overwrite \<and>
        (\<exists>m. os_symlink_metadata os (w_os w) (me_target_path e) = Inr m \<and>
           md_type m = (if me_kind e = NodeKind.Directory then FtDir else FtFile)))) \<and>
    (\<exists>tree ns. promise (ipc_runtime (w_ipc w)) (mpl_promise_id plan) = Some tree \<and>
       ns \<noteq> [] \<and> subtree_listing tree [node_relative_path (hd ns)] ns \<and>
       map me_relative_path (mpl_entries plan) = map node_relative_path ns \<and>
       map me_size (mpl_entries plan) = map (\<lambda>n. attr_size (node_attr n)) ns \<and>
       distinct (map me_relative_path (mpl_entries plan)))"
proof -
  have "preflight_materialize_targets os (w_os w) (mpl_entries plan) (mreq_conflict_policy request) = Inr ()"
    by (rule plan_materialize_Inr [OF assms(2)])
  then have free: "\<forall>e\<in>set (mpl_entries plan). target_free os (w_os w) (me_target_path e) \<or>
       (mreq_conflict_policy request = MaterializeConflictPolicy.Overwrite \<and>
        (\<exists>m. os_symlink_metadata os (w_os w) (me_target_path e) = Inr m \<and>
           md_type m = (if me_kind e = NodeKind.Directory then FtDir else FtFile)))"
    unfolding preflight_Inr by fastforce
  obtain tree ns where ns: "promise (ipc_runtime (w_ipc w)) (mpl_promise_id plan) = Some tree"
    "list_all2 (\<lambda>n e. me_relative_path e = node_relative_path n \<and> me_kind e = node_kind n \<and>
        me_size e = attr_size (node_attr n)) ns (mpl_entries plan)"
    "distinct (map me_relative_path (mpl_entries plan))" "ns \<noteq> []" "subtree_listing tree [node_relative_path (hd ns)] ns"
    by (rule plan_entries [OF assms]) blast
  from ns(2) have "map me_relative_path (mpl_entries plan) = map node_relative_path ns \<and>
      map me_size (mpl_entries plan) = map (\<lambda>n. attr_size (node_attr n)) ns"
    by (induction rule: list_all2_induct) auto
  with free ns show ?thesis by blast
qed

theorem materialize_plan_safe_witness:
  "os_symlink_metadata sample_os ([], []) ''/t/f'' = Inl (io_error_from KNotFound) \<and>
   map me_relative_path (mpl_entries sample_copy_plan) = [''d/f'']"
proof -
  have "rt_inv (ipc_runtime (w_ipc (served_world [])))" using sample_inv by (simp add: served_world_def)
  from materialize_plan_safe [OF this sample_plan_materialize] show ?thesis
    by (simp add: sample_copy_plan_def sample_entry_def)
qed

theorem materialize_completes_witness:
  "\<exists>w' answer. materialize_node_in_state honest_env sample_materialize_body (report_to_client honest_env 9)
      (served_world sample_continue) = Some (w', Inr answer) \<and>
     md_target_path answer = ''/t/f'' \<and> mc_entries_done (md_counts answer) = 1 \<and> mc_bytes_written (md_counts answer) = 10"
proof -
  have req: "materialize_request_from_body sample_materialize_body = Inr sample_materialize" by code_simp
  obtain w' progress where run: "materialize_plan honest_env sample_copy_plan (report_to_client honest_env 9)
      (served_world sample_continue) = (w', Inr progress)"
    using sample_materialized by blast
  let ?answer = "\<lparr>md_target_path = to_string_lossy (mpl_target_path sample_copy_plan), md_counts = mpr_counts progress\<rparr>"
  have "materialize_node_in_state honest_env sample_materialize_body (report_to_client honest_env 9)
      (served_world sample_continue) = Some (w', Inr ?answer)"
    by (simp add: materialize_node_in_state_def req sample_plan_materialize run)
  moreover have "rt_inv (ipc_runtime (w_ipc (served_world sample_continue)))"
    using sample_inv by (simp add: served_world_def)
  moreover have "\<forall>s. sample_rely s \<longrightarrow> (\<exists>k. sys_reachable k s)" by (simp add: peers_fixed_def)
  ultimately have "\<exists>request plan. materialize_request_from_body sample_materialize_body = Inr request \<and>
      plan_materialize (env_os honest_env) (served_world sample_continue) request = Some (Inr plan) \<and>
      mc_entries_done (md_counts ?answer) = of_nat (length (mpl_entries plan)) \<and>
      mc_bytes_written (md_counts ?answer) = sum_list (map me_size (file_entries (mpl_entries plan)))"
    using materialize_completes [OF peers.rely_invariant_axioms honest_env_evolves _ served_rely served_ipc] by meson
  then have "mc_entries_done (md_counts ?answer) = 1" "mc_bytes_written (md_counts ?answer) = 10"
    by (simp_all add: req sample_plan_materialize sample_copy_plan_def file_entries_def)
  moreover have "to_string_lossy (mpl_target_path sample_copy_plan) = ''/t/f''" by code_simp
  ultimately show ?thesis
    using \<open>materialize_node_in_state _ _ _ _ = Some _\<close> by (intro exI [of _ w'] exI [of _ ?answer]) simp
qed

section \<open>The mount point\<close>

text \<open>C39. A mount point that is accepted is private: afterwards its absolute path is a directory, not
  a symbolic link, owned by the user, and neither the group nor others have any permission on it;
  and the only change made is to create it with mode 0700 where nothing was.\<close>

theorem mount_dir_private:
  assumes "prepare_mount_dir os p w = (w', Inr ())"
  shows "path_is_absolute p \<and>
    (\<exists>md. os_symlink_metadata os w' p = Inr md \<and> md_type md = FtDir \<and> md_uid md = os_getuid os \<and>
       (\<forall>i<6. \<not> bit (md_mode md) i)) \<and>
    (w' = w \<or> (\<exists>e. os_symlink_metadata os w p = Inl e \<and> err_kind e = KNotFound \<and> os_create_dir os p 448 w = (w', Inr ())))"
  using prepare_mount_dir_Inr [OF assms] unfolding private_dir_def by blast

theorem mount_dir_private_witness:
  "prepare_mount_dir sample_os ''/t'' ([], []) = (([], []), Inr ()) \<and> \<not> bit (448 :: u32) 5"
proof -
  have "path_is_absolute ''/t''" "448 AND group_other_bits = 0" by code_simp+
  then have "prepare_mount_dir sample_os ''/t'' ([], []) = (([], []), Inr ())"
    by (simp add: prepare_mount_dir_def validate_mount_dir_path_def validate_private_dir_def sample_dir_metadata_def)
  moreover from mount_dir_private [OF this] have "\<forall>i<6. \<not> bit (448 :: u32) i" by (simp add: sample_dir_metadata_def)
  then have "\<not> bit (448 :: u32) 5" by (rule allE [of _ 5]) linarith
  ultimately show ?thesis by blast
qed

text \<open>C10. Unless it is asked to overwrite, a materialise request leaves alone what was there before:
  whatever the outcome, every path that had an entry has the same entry afterwards, with the same
  data. In particular the cleanup after a failure removes only what this request created. The
  hypotheses state what the system calls do to a view of the file system (what POSIX says of
  them), and that other threads and processes may meanwhile add entries but not change any.\<close>

theorem materialize_keeps_existing:
  assumes "file_system_laws (env_os env) view" and "waits_untouched env view"
    and "mb_conflict_policy body \<noteq> MaterializeConflictPolicyBody.Overwrite"
    and "handle_materialize env c body w = Some (w', r)" and "fv_entry view (w_os w) p = Some i"
  shows "fv_entry view (w_os w') p = Some i \<and> fv_data view (w_os w') i = fv_data view (w_os w) i"
  using handle_materialize_untouched [OF assms(1-4)] file_system_lawsD(1) [OF assms(1,5)] assms(5)
  unfolding untouched_def by blast

theorem materialize_keeps_existing_witness:
  "\<exists>w' r. handle_materialize small_env 9 sample_materialize_body small_world = Some (w', r) \<and>
     fv_entry small_view (w_os w') ''/t/keep'' = Some (small_id 3) \<and> sf_contents (w_os w') (small_id 3) = [1, 2, 3]"
proof -
  obtain w' r where run: "handle_materialize small_env 9 sample_materialize_body small_world = Some (w', r)"
    using small_run by blast
  have "file_system_laws (env_os small_env) small_view" by (simp add: small_env_def small_laws)
  from materialize_keeps_existing [OF this small_waits _ run, of "''/t/keep''" "small_id 3"] run show ?thesis
    by (auto simp: sample_materialize_body_def small_world_def small_view_simps small_inode_def)
qed

end
