(* ===== verification/Documented_Errors.thy ===== *)
theory Documented_Errors
  imports Fuse_Adapter Ffi
begin

text \<open>
  What callers see of the errors, next to the tables of the documentation
  (\<open>docs/public-api.md\<close>, \<open>docs/runtime.md\<close>, \<open>docs/promise-model.md\<close>). The lemmas
  give the values the code produces on the rows where the two differ.
\<close>

section \<open>Statuses over the socket\<close>

text \<open>
  A runtime status leaves the daemon as an error code, becomes an I/O error in the
  client and a \<open>fp_status_t\<close> in the library.
\<close>

definition status_seen_by_caller :: "Status \<Rightarrow> string \<Rightarrow> fp_status" where
  "status_seen_by_caller status message =
     io_to_ffi (error_to_io \<lparr>error_code = status_to_error_code status, error_message = message\<rparr>)"

lemma status_over_socket:
  "status_seen_by_caller Status.NotFound msg = FP_ERR_UNAVAILABLE"
  "status_seen_by_caller Status.InvalidArgument msg = FP_ERR_VERSION_MISMATCH"
  "status_seen_by_caller Status.Timeout msg = FP_ERR_IO"
  "status_seen_by_caller Status.Permission msg = FP_ERR_PERMISSION"
  "status_seen_by_caller Status.AlreadyExists msg = FP_ERR_ALREADY_EXISTS"
  "status_seen_by_caller Status.ProviderGone msg = FP_ERR_PROVIDER_GONE"
  by (simp_all add: status_seen_by_caller_def error_to_io_def io_to_ffi_def io_error_new_def)

lemma status_codes_lost:
  "status_to_ffi s \<noteq> status_seen_by_caller s msg \<longleftrightarrow>
     s \<in> {Status.Ok, Status.NotFound, Status.InvalidArgument, Status.Timeout}"
  by (cases s)
    (simp_all add: status_seen_by_caller_def error_to_io_def io_to_ffi_def io_error_new_def
      FP_OK_def FP_ERR_INVALID_ARGUMENT_def FP_ERR_UNAVAILABLE_def FP_ERR_NOT_FOUND_def FP_ERR_IO_def
      FP_ERR_TIMEOUT_def FP_ERR_VERSION_MISMATCH_def)

section \<open>Errors of the file system\<close>

lemma promise_directory_read_einval:
  assumes "lookup_inode (ipc_runtime (w_ipc w)) ino = Inr (PromiseNode pid node)"
    and "promise (ipc_runtime (w_ipc w)) pid = Some tree"
    and "tree_get tree (node_relative_path node) = Some node" and "node_kind node = NodeKind.Directory"
  shows "snd (fuse_read env ino offset sz w) = Inl EINVAL"
  using assms by (simp add: fuse_read_def fuse_plan_read_def plan_read_def outcome_simps Let_def)

lemma open_ignores_provider:
  assumes "lookup_inode rt ino = Inr (PromiseNode pid node)" and "node_kind node = NodeKind.File"
  shows "fuse_open rt ino True = Inr ino"
  using assms by (simp add: fuse_open_def)

lemma missing_route_enoent:
  assumes "fuse_plan_read (w_ipc w) ino offset (min sz MAX_PROVIDER_READ_LEN) =
             (st, Inr (Some (FuseReadPlan.Provider request off len)))"
    and "read_request_into_body request = Inr body"
    and "bt_get (ipc_provider_routes st) (rr_provider_id request) = None"
  shows "snd (fuse_read env ino offset sz w) = Inl ENOENT"
  using assms
  by (simp add: fuse_read_def route_provider_read_def route_lookup_def outcome_simps Let_def
      io_error_to_errno_def io_error_new_def)

lemma short_answer_eio:
  assumes "response_offset \<noteq> 0" and "length bytes < unat response_offset + unat response_length"
  shows "provider_reply_bytes bytes response_offset response_length = Inl EIO"
  using assms by (simp add: provider_reply_bytes_def Let_def unat_eq_zero)

end
