(* ===== verification/Programs.thy ===== *)
theory Programs
  imports Fuse_Adapter Ffi
begin

text \<open>
  The two programs: the command line tool \<open>tools/fpctl/src/main.rs\<close> and the start-up of the
  daemon \<open>crates/fuse-promise-daemon/src/main.rs\<close>. A run is what it prints on its two output
  streams and its exit code. \<open>describe\<close> is the operating system's text for an error without a
  message of its own.
\<close>

record Output =
  out_stdout :: string
  out_stderr :: string
  out_code :: nat

definition prints :: "string \<Rightarrow> string \<Rightarrow> nat \<Rightarrow> Output" where
  "prints a b code = \<lparr>out_stdout = a, out_stderr = b, out_code = code\<rparr>"

definition io_error_text :: "(ErrorKind \<Rightarrow> string) \<Rightarrow> io_error \<Rightarrow> string" where
  "io_error_text describe error =
     (case err_payload error of
        Message m \<Rightarrow> m
      | FfiStatusError status \<Rightarrow> ''ffi status '' @ decimal (unat status)
      | NoPayload \<Rightarrow> describe (err_kind error))"

section \<open>The command line tool\<close>

definition fpctl_help :: string where
  "fpctl_help =
     line ''usage: fpctl <command>''
     @ line ''''
     @ line ''commands:''
     @ line ''  status    Query the user-session daemon status''
     @ line ''  list      List daemon-owned promises and nodes''
     @ line ''  materialize [--progress] [--overwrite|--rename] <promise-path> <target-dir>''"

text \<open>What the arguments ask for; \<open>Usage\<close> is an error with its message.\<close>

datatype Command =
    CmdStatus
  | CmdList
  | CmdMaterialize string string MaterializeConflictPolicy bool
  | CmdHelp
  | Usage string

text \<open>The option loop of \<open>materialize\<close>: the conflict policy, the progress flag, the promise path
  and the remaining arguments.\<close>

primrec materialize_args ::
    "string list \<Rightarrow> MaterializeConflictPolicy \<Rightarrow> bool \<Rightarrow>
     string + (MaterializeConflictPolicy \<times> bool \<times> string option \<times> string list)" where
  "materialize_args [] policy show_progress = Inr (policy, show_progress, None, [])"
| "materialize_args (arg # args) policy show_progress =
     (if arg = ''--overwrite'' \<and> policy = MaterializeConflictPolicy.Fail
      then materialize_args args MaterializeConflictPolicy.Overwrite show_progress
      else if arg = ''--rename'' \<and> policy = MaterializeConflictPolicy.Fail
      then materialize_args args MaterializeConflictPolicy.Rename show_progress
      else if arg = ''--overwrite'' \<or> arg = ''--rename''
      then Inl ''materialize conflict option was already set''
      else if arg = ''--progress'' then materialize_args args policy True
      else if prefix ''--'' arg then Inl (''unknown materialize option: '' @ arg)
      else Inr (policy, show_progress, Some arg, args))"

definition no_more_args :: "string list \<Rightarrow> Command \<Rightarrow> Command" where
  "no_more_args args command =
     (case args of [] \<Rightarrow> command | extra # _ \<Rightarrow> Usage (''unexpected argument: '' @ extra))"

definition fpctl_command :: "string list \<Rightarrow> Command" where
  "fpctl_command args =
     (case args of
        [] \<Rightarrow> CmdStatus
      | command # args \<Rightarrow>
          if command = ''status'' then no_more_args args CmdStatus
          else if command = ''list'' then no_more_args args CmdList
          else if command = ''materialize'' then
            (case materialize_args args MaterializeConflictPolicy.Fail False of
               Inl message \<Rightarrow> Usage message
             | Inr (policy, show_progress, None, _) \<Rightarrow> Usage ''materialize requires a promise path''
             | Inr (policy, show_progress, Some promise_path, rest) \<Rightarrow>
                 (case rest of
                    [] \<Rightarrow> Usage ''materialize requires a target directory''
                  | target_dir # rest \<Rightarrow>
                      no_more_args rest (CmdMaterialize promise_path target_dir policy show_progress)))
          else if command = ''-h'' \<or> command = ''--help'' \<or> command = ''help'' then CmdHelp
          else Usage (''unknown command: '' @ command))"

definition fpctl_error :: "string \<Rightarrow> Output" where
  "fpctl_error message = prints '''' (line (''fpctl: '' @ message)) 1"

definition checked_target_dir :: "'w Os \<Rightarrow> 'w \<Rightarrow> path \<Rightarrow> path io_result" where
  "checked_target_dir os w p =
     res_bind (absolute_client_path os w p) (\<lambda>p.
     res_bind (os_symlink_metadata os w p) (\<lambda>metadata.
     res_bind (fail_if (md_type metadata = FtSymlink)
       (io_error_new KInvalidInput ''target directory must not be a symlink'')) (\<lambda>_.
     if md_type metadata \<noteq> FtDir then Inl (io_error_new KInvalidInput ''target directory is not a directory'')
     else Inr p)))"

text \<open>\<open>say\<close> prints a line on the error stream while the command runs.\<close>

definition fpctl_materialize ::
    "'w ClientEnv \<Rightarrow> (ErrorKind \<Rightarrow> string) \<Rightarrow> (string \<Rightarrow> 'w \<Rightarrow> 'w) \<Rightarrow> string \<Rightarrow> string \<Rightarrow>
     MaterializeConflictPolicy \<Rightarrow> bool \<Rightarrow> 'w \<Rightarrow> ('w \<times> Output) option" where
  "fpctl_materialize env describe say promise_path target_dir policy show_progress w =
     (case res_bind (map_err status_as_str (default_control_socket_path (ce_os env) w)) (\<lambda>socket_path.
           res_bind (map_err (io_error_text describe) (absolute_client_path (ce_os env) w promise_path)) (\<lambda>source_path.
           res_bind (map_err (io_error_text describe) (checked_target_dir (ce_os env) w target_dir)) (\<lambda>target_dir.
           Inr (socket_path, source_path, target_dir)))) of
        Inl message \<Rightarrow> Some (w, fpctl_error message)
      | Inr (socket_path, source_path, target_dir) \<Rightarrow>
          map_option (\<lambda>(w1, r). (w1, case r of
              Inr response \<Rightarrow> prints (materialize_response_encode_text response) '''' 0
            | Inl error \<Rightarrow> fpctl_error (io_error_text describe error)))
          (materialize_file_with_progress env socket_path
            \<lparr>mreq_source_path = source_path, mreq_target_dir = target_dir, mreq_conflict_policy = policy\<rparr>
            (\<lambda>progress w'. (if show_progress then say (line (progress_report_encode_text progress)) w' else w', Inr ())) w))"

definition fpctl_list :: "'w ClientEnv \<Rightarrow> (ErrorKind \<Rightarrow> string) \<Rightarrow> 'w \<Rightarrow> 'w \<times> Output" where
  "fpctl_list env describe w =
     (case default_control_socket_path (ce_os env) w of
        Inl status \<Rightarrow> (w, fpctl_error (status_as_str status))
      | Inr socket_path \<Rightarrow>
          (case query_inspect env socket_path w of
             (w1, Inr response) \<Rightarrow> (w1, prints response '''' 0)
           | (w1, Inl error) \<Rightarrow> (w1, fpctl_error (io_error_text describe error))))"

definition fpctl_status :: "'w ClientEnv \<Rightarrow> 'w \<Rightarrow> 'w \<times> Output" where
  "fpctl_status env w =
     (case default_control_socket_path (ce_os env) w of
        Inl status \<Rightarrow> (w, fpctl_error (status_as_str status))
      | Inr socket_path \<Rightarrow>
          (case query_status env socket_path w of
             (w1, Inr response) \<Rightarrow> (w1, prints response '''' 0)
           | (w1, Inl _) \<Rightarrow>
               (case default_mount_path (ce_os env) w1 of
                  Inr mount_path \<Rightarrow>
                    (w1, prints
                      (line (''mount_path='' @ to_string_lossy mount_path)
                       @ line (''socket_path='' @ to_string_lossy socket_path)
                       @ line ''daemon=not-connected''
                       @ line ''mount=not-mounted''
                       @ line ''fuse_adapter=not-implemented''
                       @ line (''cache_policy='' @ cache_policy_as_str NoCache)) '''' 0)
                | Inl status \<Rightarrow> (w1, fpctl_error (status_as_str status)))))"

definition fpctl_main ::
    "'w ClientEnv \<Rightarrow> (ErrorKind \<Rightarrow> string) \<Rightarrow> (string \<Rightarrow> 'w \<Rightarrow> 'w) \<Rightarrow> string list \<Rightarrow> 'w \<Rightarrow> ('w \<times> Output) option" where
  "fpctl_main env describe say args w =
     (case fpctl_command args of
        CmdStatus \<Rightarrow> Some (fpctl_status env w)
      | CmdList \<Rightarrow> Some (fpctl_list env describe w)
      | CmdMaterialize promise_path target_dir policy show_progress \<Rightarrow>
          fpctl_materialize env describe say promise_path target_dir policy show_progress w
      | CmdHelp \<Rightarrow> Some (w, prints fpctl_help '''' 0)
      | Usage message \<Rightarrow> Some (w, prints fpctl_help (line (''fpctl: '' @ message)) 2))"

section \<open>The daemon\<close>

definition daemon_help :: string where
  "daemon_help =
     line ''usage: fuse-promised [--foreground] [--cache=no-cache|read-through]''
     @ line ''''
     @ line ''Starts the user-session Promise filesystem daemon.''
     @ line ''FUSE mounting requires building the daemon with the fuse-mount feature.''"

datatype DaemonArgs = RunDaemon bool CachePolicy | DaemonExit Output

primrec daemon_args :: "string list \<Rightarrow> bool \<Rightarrow> CachePolicy \<Rightarrow> DaemonArgs" where
  "daemon_args [] foreground policy = RunDaemon foreground policy"
| "daemon_args (arg # args) foreground policy =
     (if arg = ''-h'' \<or> arg = ''--help'' then DaemonExit (prints daemon_help '''' 0)
      else if arg = ''--foreground'' then daemon_args args True policy
      else if arg = ''--cache=no-cache'' \<or> arg = ''--cache-policy=no-cache''
      then daemon_args args foreground NoCache
      else if arg = ''--cache=read-through'' \<or> arg = ''--cache-policy=read-through'' then
        (case cache_policy_read_through DEFAULT_READ_THROUGH_CHUNK_SIZE of
           Inr policy' \<Rightarrow> daemon_args args foreground policy'
         | Inl status \<Rightarrow> DaemonExit (prints '''' (line (''fuse-promised: '' @ status_as_str status)) 1))
      else DaemonExit (prints daemon_help (line (''fuse-promised: unknown argument: '' @ arg)) 2))"

text \<open>Start-up until the control socket is served: the state that \<open>serve_state\<close> receives and the
  mount, or the failure. \<open>spawn\<close> mounts the file system.\<close>

definition daemon_start ::
    "'w Os \<Rightarrow> (ErrorKind \<Rightarrow> string) \<Rightarrow> (path \<Rightarrow> ('w, 's) io) \<Rightarrow> bool \<Rightarrow> CachePolicy \<Rightarrow> 'w \<Rightarrow>
     'w \<times> (Output + IpcState \<times> 's option \<times> string)" where
  "daemon_start os describe spawn foreground policy w =
     (let failed = (\<lambda>printed message. Inl (prints printed (line (''fuse-promised: '' @ message)) 1)) in
      case default_mount_path os w of
        Inl status \<Rightarrow> (w, failed '''' (status_as_str status))
      | Inr mount_path \<Rightarrow>
          (let printed = line ''fuse-promised'' @ line (''mount_path='' @ to_string_lossy mount_path) in
           case default_control_socket_path os w of
             Inl status \<Rightarrow> (w, failed printed (status_as_str status))
           | Inr socket_path \<Rightarrow>
               (let printed = printed @ line (''socket_path='' @ to_string_lossy socket_path)
                      @ (if foreground then line ''mode=foreground'' else '''') in
                case runtime_with_cache_policy policy of
                  Inl status \<Rightarrow> (w, failed printed (status_as_str status))
                | Inr rt \<Rightarrow>
                    (let printed = printed @ line (''cache_policy='' @ cache_policy_as_str (rt_cache_policy rt)) in
                     case fuse_start os spawn mount_path w of
                       (w1, Inl error) \<Rightarrow>
                         (w1, failed printed (''failed to mount '' @ to_string_lossy mount_path @ '': ''
                            @ io_error_text describe error))
                     | (w1, Inr mount) \<Rightarrow>
                         (let ms = fuse_mount_status mount_path mount in
                          (w1, Inr (set_mount_status ms (ipc_state_new rt), mount,
                             printed @ line (''mount='' @ ms_mount ms) @ line (''fuse_adapter='' @ ms_fuse_adapter ms))))))))"

text \<open>The whole program. \<open>env\<close> and \<open>start\<close> are the parameters of the server; the mount is
  dropped when \<open>serve_state\<close> has returned.\<close>

definition daemon_main ::
    "'w Env \<Rightarrow> (ErrorKind \<Rightarrow> string) \<Rightarrow> (path \<Rightarrow> ('w, 's) io) \<Rightarrow> ('s \<Rightarrow> ('w, unit) io) \<Rightarrow>
     (conn \<Rightarrow> 'w World \<Rightarrow> 'w World) \<Rightarrow> string list \<Rightarrow> 'w \<Rightarrow> ('w \<times> Output) option" where
  "daemon_main env describe spawn umount start args o' =
     (case daemon_args args False NoCache of
        DaemonExit out \<Rightarrow> Some (o', out)
      | RunDaemon foreground policy \<Rightarrow>
          (case daemon_start (env_os env) describe spawn foreground policy o' of
             (o1, Inl out) \<Rightarrow> Some (o1, out)
           | (o1, Inr (st, mount, printed)) \<Rightarrow>
               map_option (\<lambda>(w, r). (fuse_mount_drop umount mount (w_os w), case r of
                   Inr _ \<Rightarrow> prints printed '''' 0
                 | Inl error \<Rightarrow> prints printed (line (''fuse-promised: '' @ io_error_text describe error)) 1))
               (serve_state env start \<lparr>w_ipc = st, w_temp_counter = 1, w_os = o1\<rparr>)))"

section \<open>The build script of the C library\<close>

text \<open>\<open>crates/fuse-promise-ffi/build.rs\<close>: the lines it prints for cargo, or \<open>None\<close> where it
  panics.\<close>

definition ascii_digit :: "char \<Rightarrow> bool" where
  "ascii_digit c \<longleftrightarrow> 48 \<le> (of_char c :: nat) \<and> (of_char c :: nat) < 58"

definition ffi_build :: "string option \<Rightarrow> string option \<Rightarrow> string option" where
  "ffi_build target_os soname_var =
     (let first = line ''cargo:rerun-if-env-changed=FUSE_PROMISE_SONAME_MAJOR'' in
      if target_os \<noteq> Some ''linux'' then Some first
      else
        (let soname_major = (case soname_var of Some v \<Rightarrow> v | None \<Rightarrow> ''0'') in
         if soname_major = [] \<or> \<not> list_all ascii_digit soname_major then None
         else Some (first @ line (''cargo:rustc-link-arg-cdylib=-Wl,-soname,libfusepromise.so.'' @ soname_major))))"

end
