(* ===== verification/Spec2Isabelle.thy ===== *)
theory Spec2Isabelle
  imports Runtime_Properties Daemon_Properties Wire_Properties File_Properties Documented_Errors Programs
begin

text \<open>
  A verification library for fuse-promise, a user-session daemon that mounts trees of promised
  files whose bytes are supplied on demand by provider processes.

  \<^bold>\<open>The program and how its parts interact.\<close>
  The runtime crate (\<open>crates/fuse-promise-runtime\<close>) holds the providers, the committed promise
  trees, the identifiers and the read cache, and plans reads. The IPC crate
  (\<open>crates/fuse-promise-ipc\<close>) wraps one runtime in the shared state of the daemon: one thread per
  connection serves requests, routes reads to providers over their connections, and copies
  promised trees to local directories (materialise). The daemon program
  (\<open>crates/fuse-promise-daemon\<close>) mounts the file system, whose callbacks read through the same
  shared state, and serves the control socket. Clients are the C library
  (\<open>crates/fuse-promise-ffi\<close>), in which providers register, commit promises and answer reads,
  and the command line tool (\<open>tools/fpctl\<close>).

  \<^bold>\<open>Which theory models which part.\<close>
  \<^item> \<open>Prelude\<close> and \<open>Ordered_Map\<close>: what the sources use of Rust and its library. Machine integers
    are words of their width with the checked and saturating operations written out, \<open>Result\<close> is
    a sum type, \<open>BTreeMap\<close> and \<open>BTreeSet\<close> are sorted lists behind the locales \<open>ordered_map\<close> and
    \<open>ordered_set\<close> (interpretations \<open>bt\<close>, \<open>bs\<close>).
  \<^item> \<open>Core_Types\<close>, \<open>Paths\<close>, \<open>Promise_Tree\<close>, \<open>Read_Cache\<close>, \<open>Runtime_State\<close>, \<open>Read_Planning\<close>: the
    runtime crate, in the order of its source. \<open>Runtime\<close>, \<open>PromiseTree\<close>, \<open>PromiseBuilder\<close>,
    \<open>ReadCache\<close> and the other structs are records with the fields of the source; a method with
    \<open>&mut self\<close> returns the new record. \<open>Runtime_Dirs\<close> has the directory checks of the same crate.
  \<^item> \<open>Os_Model\<close>: I/O errors and the system calls. The calls are the fields of a record \<open>'w Os\<close> over
    an unspecified world, so nothing is assumed of them unless a theorem says so.
  \<^item> \<open>Ipc_Messages\<close>, \<open>Ipc_Frames\<close>, \<open>Ipc_State\<close>, \<open>Materialize\<close>, \<open>Ipc_Server\<close>, \<open>Ipc_Client\<close>: the IPC
    crate. Each section that the source runs under a lock is one function on \<open>IpcState\<close>. What
    other threads do while a thread waits for an answer or for the next request of its connection
    are the parameters \<open>env_wait\<close> and \<open>env_idle\<close> of \<open>'w Env\<close>.
  \<^item> \<open>Fuse_Adapter\<close>: the callbacks of \<open>fuse_adapter.rs\<close>; \<open>Ffi\<close>: the C library; \<open>Programs\<close>: the
    command line tool, the daemon's start-up and the build script.
  \<^item> \<open>Ipc_System\<close>: the daemon as a step relation \<open>sys_step\<close>, one step per locked section of some
    thread: a registration is two steps (the provider, then its route), a disconnect three (the
    runtime, the route, the pending reads). A connection closes only after the providers it
    registered were disconnected. Taking a pending read out of the table and sending its answer
    is one step. \<open>World_Steps\<close> and \<open>Ipc_Threads\<close> connect the code to it (locales
    \<open>step_preorder\<close>, \<open>world_preorder\<close>, \<open>rely_invariant\<close>, \<open>connection_thread\<close>, interpreted on the
    reachable states of the system).
  \<^item> \<open>Commit_Wire\<close>, \<open>Routed_Reads\<close>, \<open>Fuse_Reads\<close>, \<open>Materialize_Copies\<close>, \<open>Copied_Bytes\<close>: what the
    components do together. \<open>Target_Safety\<close>: what a materialisation leaves of the files that were
    there. \<open>Accepted_Requests\<close>: which planned reads the socket layer accepts.
    \<open>Documented_Errors\<close>: the errors callers see, where they differ from the documentation.
  \<^item> \<open>Samples\<close>, \<open>Daemon_Samples\<close>, \<open>File_Samples\<close>, \<open>Target_Samples\<close>: the concrete states of the
    witnesses.

  \<^bold>\<open>What is shown.\<close>
  \<^item> \<open>Runtime_Properties\<close>: promise trees are well formed and identifiers unique in every reachable
    runtime; lookups, listings, builders, commits and planners on every branch; the chunked cache
    refines a partial map from offsets to bytes, and a cached read returns the bytes of the file.
  \<^item> \<open>Daemon_Properties\<close>: in every interleaving, answers fit their requests and no reader is lost;
    the thread of a connection refines the system; a disconnect wakes its readers; the end of a
    connection disconnects its providers; hello and owner tokens guard the requests; committing
    over the wire equals committing in the daemon.
  \<^item> \<open>Wire_Properties\<close>: frames and provider reads round-trip, damaged frames are refused, the C
    library answers validly whatever the callback does, and the commit buffer check suffices.
  \<^item> \<open>File_Properties\<close>: file-system reads return bytes of the file, directory paging is complete,
    a materialised file has exactly the promised bytes, a successful materialisation is complete,
    a materialisation that may not overwrite leaves what was there alone on every path, plans
    respect the conflict policy, planned provider reads pass the validation unless a node id has
    a NUL character, and an accepted mount point is private.

  \<^bold>\<open>Bounds and fuel.\<close>
  The counters of the runtime and of the request ids are unchecked 64-bit words; the theorems that
  need them unique bound the number of steps by \<open>2 ^ 64 - 1\<close>, where they would wrap. The subtree
  listing takes fuel; \<open>subtree_fuel\<close> is one more than the longest path and always suffices on a
  well-formed tree. \<open>read_pages\<close> pages through a directory with a given number of calls; one more
  than the number of entries suffices. Loops that the source does not bound (requests of a
  connection, accepted sockets, random tokens, progress messages, the provider helper) are partial
  functions, where \<open>None\<close> is a run that never returns. The other loops are total functions with
  termination proofs.

  \<^bold>\<open>Hypotheses on code outside the repository.\<close>
  The \<open>bincode\<close> codec decodes what it encoded (\<open>codec_roundtrip\<close>). The \<open>fuser\<close> directory buffer
  keeps what was added and has room for one entry (\<open>dir_buffer_ok\<close>). Where the content of files
  matters, providers answer with bytes of the file (\<open>answers_honest\<close>, \<open>waits_honest\<close>), local copies
  hold them (\<open>local_copy_honest\<close>) and writing to an open file appends what was given
  (\<open>private_file\<close>). For what a materialisation leaves alone, the system calls act on a view of
  the file system as POSIX says (\<open>file_system_laws\<close>), and others add entries but change none
  while it runs (\<open>waits_untouched\<close>); nothing is claimed for the policy that overwrites, which
  replaces entries on purpose. Other threads make steps of the system (\<open>env_evolves\<close>, \<open>env_waits\<close>). Each
  theorem with such a hypothesis is applied to concrete parameters in its witness.

  \<^bold>\<open>Not modelled.\<close>
  In the theorems on the code of a thread, other threads run only where it waits; all finer
  interleavings are those of the step relation. Poisoned locks: a lock is poisoned only by a panic inside a locked section, and the sections have
  none. Panics of thread creation and of the allocator. The inside of \<open>bincode\<close>, \<open>fuser\<close>, \<open>std\<close> and
  \<open>rustix\<close>. Releasing memory (\<open>fp_context_close\<close>, \<open>fp_promise_builder_free\<close>, field accessors,
  \<open>Display\<close> of the internal status error). The reading of C structs at raw offsets, beyond the
  offsets and sizes that are compared. The daemon built without the mount backend, whose \<open>start\<close>
  does nothing. Tests, examples and packaging.
\<close>

end
